(* ===== verification/Prelude.thy ===== *)
theory Prelude
  imports Main "HOL-Library.Word" "HOL-Library.Char_ord" "HOL-Library.List_Lexorder"
    "HOL-Library.Product_Lexorder" "HOL-Library.AList"
begin

text \<open>
  Shared vocabulary of the development: Go's \<open>int64\<close> as a 64-bit word read with \<open>sint\<close>,
  the run-time panics of the Go code as values of \<open>go_panic\<close>, and models of the few
  functions of Go's standard library that the sources call: \<open>strconv.ParseInt(s, 10, 64)\<close>,
  \<open>strconv.FormatInt(i, 10)\<close> and \<open>strings.ToUpper\<close>. The library functions are not code of
  the repository; they are modelled from their documentation, on the part of their input
  range the program reaches (decimal, ASCII). Characters are Isabelle's 8-bit \<open>char\<close>:
  the Go code iterates over runes, and the model identifies a line with its list of
  runes, which is exact for ASCII text.
\<close>

named_theorems go_lib_simps "equations evaluating the models of Go's standard library"
named_theorems result_simps "the result constants of the runtime"
named_theorems handler_simps "equations of the command handlers"

type_synonym int64 = "64 word"

text \<open>The Go run-time panics the sources can raise.\<close>

datatype go_panic =
    TypeAssertionPanic   \<comment> \<open>\<open>x.(T)\<close> on an interface holding another dynamic type\<close>
  | IndexOutOfRangePanic \<comment> \<open>slice index outside \<open>0 ..< len\<close>\<close>
  | MakeSliceLenPanic    \<comment> \<open>\<open>make([]T, n)\<close> with \<open>n < 0\<close>\<close>
  | NilDereferencePanic  \<comment> \<open>method call through a nil pointer\<close>

type_synonym 'a go = "go_panic + 'a"

subsection \<open>strconv: decimal digits\<close>

definition is_digit :: "char \<Rightarrow> bool" where
  "is_digit c \<longleftrightarrow> CHR ''0'' \<le> c \<and> c \<le> CHR ''9''"

definition digit_value :: "char \<Rightarrow> nat" where
  "digit_value c = of_char c - 48"

definition digit_char :: "nat \<Rightarrow> char" where
  "digit_char d = char_of (48 + d)"

definition decimal_value :: "string \<Rightarrow> nat" where
  "decimal_value ds = foldl (\<lambda>acc c. 10 * acc + digit_value c) 0 ds"

fun nat_digits :: "nat \<Rightarrow> string" where
  "nat_digits n = (if n < 10 then [digit_char n] else nat_digits (n div 10) @ [digit_char (n mod 10)])"

declare nat_digits.simps [simp del]

text \<open>\<open>strconv.ParseInt(s, 10, 64)\<close>: an optional sign, then one or more decimal digits, and
  the value must fit into 64 signed bits (otherwise \<open>ErrRange\<close>); any error is \<open>None\<close>.\<close>

definition parse_unsigned :: "string \<Rightarrow> int option" where
  "parse_unsigned ds = (if ds \<noteq> [] \<and> list_all is_digit ds then Some (int (decimal_value ds)) else None)"

definition parse_decimal :: "string \<Rightarrow> int option" where
  "parse_decimal s = (case s of
       [] \<Rightarrow> None
     | c # ds \<Rightarrow> (if c = CHR ''-'' then map_option uminus (parse_unsigned ds)
                 else if c = CHR ''+'' then parse_unsigned ds
                 else parse_unsigned s))"

definition parse_int :: "string \<Rightarrow> int64 option" where
  "parse_int s = (case parse_decimal s of
       None \<Rightarrow> None
     | Some v \<Rightarrow> (if - (2 ^ 63) \<le> v \<and> v < 2 ^ 63 then Some (word_of_int v) else None))"

text \<open>\<open>strconv.FormatInt(i, 10)\<close>.\<close>

definition int_digits :: "int \<Rightarrow> string" where
  "int_digits i = (if i < 0 then CHR ''-'' # nat_digits (nat (- i)) else nat_digits (nat i))"

definition format_int :: "int64 \<Rightarrow> string" where
  "format_int w = int_digits (sint w)"

subsection \<open>strings.ToUpper\<close>

definition upper_char :: "char \<Rightarrow> char" where
  "upper_char c = (if CHR ''a'' \<le> c \<and> c \<le> CHR ''z'' then char_of (of_char c - (32::nat)) else c)"

definition to_upper :: "string \<Rightarrow> string" where
  "to_upper s = map upper_char s"

declare is_digit_def [go_lib_simps] digit_value_def [go_lib_simps] digit_char_def [go_lib_simps]
  decimal_value_def [go_lib_simps] parse_unsigned_def [go_lib_simps] parse_decimal_def [go_lib_simps]
  parse_int_def [go_lib_simps] int_digits_def [go_lib_simps] format_int_def [go_lib_simps]
  upper_char_def [go_lib_simps] to_upper_def [go_lib_simps]

subsection \<open>Digits\<close>

lemma digit_value_digit_char [simp]: "d < 10 \<Longrightarrow> digit_value (digit_char d) = d"
  by (simp add: digit_value_def digit_char_def)

lemma is_digit_digit_char [simp]: "d < 10 \<Longrightarrow> is_digit (digit_char d)"
proof -
  assume "d < 10"
  then have "of_char (CHR ''0'') \<le> (of_char (digit_char d) :: nat)"
    and "(of_char (digit_char d) :: nat) \<le> of_char (CHR ''9'')"
    by (simp_all add: digit_char_def)
  then show ?thesis
    by (simp add: is_digit_def less_eq_char_def)
qed

lemma nat_digits_nonempty [simp]: "nat_digits n \<noteq> []"
  by (subst nat_digits.simps) simp

lemma nat_digits_all_digits: "list_all is_digit (nat_digits n)"
proof (induction n rule: nat_digits.induct)
  case (1 n)
  then show ?case by (subst nat_digits.simps) simp
qed

lemma decimal_value_snoc: "decimal_value (ds @ [c]) = 10 * decimal_value ds + digit_value c"
  by (simp add: decimal_value_def)

lemma decimal_value_nat_digits [simp]: "decimal_value (nat_digits n) = n"
proof (induction n rule: nat_digits.induct)
  case (1 n)
  show ?case
  proof (cases "n < 10")
    case True
    then show ?thesis by (subst nat_digits.simps) (simp add: decimal_value_def)
  next
    case False
    with "1.IH" show ?thesis
      by (subst nat_digits.simps) (simp add: decimal_value_snoc)
  qed
qed

lemma nat_digits_hd_digit: "is_digit (hd (nat_digits n))"
  using nat_digits_all_digits [of n] nat_digits_nonempty [of n]
  by (cases "nat_digits n") auto

lemma parse_unsigned_nat_digits [simp]: "parse_unsigned (nat_digits n) = Some (int n)"
  by (simp add: parse_unsigned_def nat_digits_all_digits)

lemma parse_decimal_nat_digits [simp]: "parse_decimal (nat_digits n) = Some (int n)"
proof -
  obtain c cs where cs: "nat_digits n = c # cs" and "is_digit c"
    using nat_digits_hd_digit [of n] nat_digits_nonempty [of n] by (cases "nat_digits n") auto
  then have "c \<noteq> CHR ''-''" and "c \<noteq> CHR ''+''" by (auto simp: is_digit_def)
  with cs show ?thesis
    using parse_unsigned_nat_digits [of n] by (simp add: parse_decimal_def)
qed

lemma parse_decimal_int_digits [simp]: "parse_decimal (int_digits i) = Some i"
proof (cases "i < 0")
  case True
  then show ?thesis by (simp add: int_digits_def parse_decimal_def)
next
  case False
  then show ?thesis by (simp add: int_digits_def)
qed

subsection \<open>ParseInt and FormatInt\<close>

text \<open>\<open>FormatInt\<close> followed by \<open>ParseInt\<close> gives the number back: the round trip INCR relies on
  when it stores a number as text and parses it at the next increment.\<close>

lemma parse_int_format_int [simp]: "parse_int (format_int w) = Some w"
proof -
  have "- (2 ^ 63) \<le> sint w" and "sint w < 2 ^ 63"
    using sint_ge [of w] sint_lt [of w] by simp_all
  then show ?thesis
    by (simp add: parse_int_def format_int_def)
qed

lemma format_int_of_nat: "n < 2 ^ 63 \<Longrightarrow> format_int (word_of_nat n) = nat_digits n"
proof -
  assume n: "n < 2 ^ 63"
  then have "- (2 ^ 63) \<le> int n" and "int n < 2 ^ 63"
    by simp_all
  then have "sint (word_of_nat n :: int64) = int n"
    by (simp add: signed_of_nat signed_take_bit_int_eq_self)
  then show ?thesis by (simp add: format_int_def int_digits_def)
qed

lemma format_int_inj: "format_int v = format_int w \<Longrightarrow> v = w"
  by (metis option.inject parse_int_format_int)

lemma upper_char_idem [simp]: "upper_char (upper_char c) = upper_char c"
proof (cases "CHR ''a'' \<le> c \<and> c \<le> CHR ''z''")
  case True
  then have "97 \<le> (of_char c :: nat)" and "(of_char c :: nat) \<le> 122"
    by (simp_all add: less_eq_char_def)
  then have "(of_char (char_of (of_char c - (32::nat))) :: nat) = of_char c - 32"
    by simp
  then have "\<not> CHR ''a'' \<le> char_of (of_char c - (32::nat))"
    using \<open>(of_char c :: nat) \<le> 122\<close> by (simp add: less_eq_char_def)
  with True show ?thesis by (simp add: upper_char_def)
next
  case False
  then have "upper_char c = c" unfolding upper_char_def by auto
  then show ?thesis by simp
qed

lemma to_upper_idem [simp]: "to_upper (to_upper s) = to_upper s"
  by (induction s) (simp_all add: to_upper_def del: upper_char_def)

subsection \<open>int64 arithmetic\<close>

lemma sint_add_exact:
  "- (2 ^ 63) \<le> sint a + sint b \<Longrightarrow> sint a + sint b < 2 ^ 63 \<Longrightarrow> sint (a + b :: int64) = sint a + sint b"
  by (simp add: sint_word_ariths signed_take_bit_int_eq_self)

lemma sint_diff_exact:
  "- (2 ^ 63) \<le> sint a - sint b \<Longrightarrow> sint a - sint b < 2 ^ 63 \<Longrightarrow> sint (a - b :: int64) = sint a - sint b"
  by (simp add: sint_word_ariths signed_take_bit_int_eq_self)

lemma sint_diff_add1_exact:
  assumes "- (2 ^ 63) \<le> sint a - sint b" "sint a - sint b + 1 < 2 ^ 63"
  shows "sint (a - b + 1 :: int64) = sint a - sint b + 1"
proof -
  have "sint (a - b) = sint a - sint b"
    using assms by (intro sint_diff_exact) simp_all
  then show ?thesis
    using assms sint_add_exact [of "a - b" 1] by simp
qed

lemma sint_of_nat_exact: "n < 2 ^ 63 \<Longrightarrow> sint (word_of_nat n :: int64) = int n"
  by (simp add: signed_of_nat signed_take_bit_int_eq_self)

lemma sint_range: "- (2 ^ 63) \<le> sint (w :: int64) \<and> sint w < 2 ^ 63"
  using sint_ge [of w] sint_lt [of w] by simp

lemma sint_incr: "sint (i + 1 :: int64) = (if sint i = 2 ^ 63 - 1 then - (2 ^ 63) else sint i + 1)"
proof -
  have "sint (i + 1) = signed_take_bit 63 (sint i + 1)"
    by (simp add: sint_word_ariths)
  moreover have "- (2 ^ 63) \<le> sint i" "sint i < 2 ^ 63"
    using sint_ge [of i] sint_lt [of i] by simp_all
  ultimately show ?thesis
    by (auto simp: signed_take_bit_int_eq_self signed_take_bit_eq_take_bit_shift take_bit_int_eq_self)
qed

lemma format_int_0 [simp]: "format_int 0 = ''0''"
  by code_simp

text \<open>The equations that evaluate \<open>nat_digits\<close> of a numeral by \<open>simp\<close>.\<close>

lemmas nat_digits_eval = nat_digits.simps digit_char_def char_of_def bit_0

subsection \<open>Association lists\<close>

text \<open>With distinct keys the order of an association list does not matter to its map.\<close>

lemma map_of_rev_distinct: "distinct (map fst xs) \<Longrightarrow> map_of (rev xs) = map_of xs"
proof (induction xs)
  case Nil
  then show ?case by simp
next
  case (Cons x xs)
  then have "fst x \<notin> dom (map_of xs)" by (simp add: dom_map_of_conv_image_fst)
  then have "map_of [x] ++ map_of xs = map_of xs ++ map_of [x]"
    by (intro map_add_comm) auto
  with Cons show ?case by (cases x) simp
qed

end
