(* ===== verification/SortedSet.thy ===== *)
theory SortedSet
  imports Prelude
begin

text \<open>
  The sorted set of \<open>src/source/database/set.go\<close>. A \<open>SortedSet\<close> keeps a slice
  \<open>sorted\<close> of pointers to entries and a map \<open>entries\<close> from member to the same
  pointers, plus the flag \<open>isSorted\<close>. An entry's member never changes after creation and
  there is one entry per member, so a pointer is identified by its member: the slice is
  modelled as the list \<open>sorted_seq\<close> of members, and the entry objects live in
  \<open>entries\<close>; a write through either alias (a score update in \<open>Add\<close>, a rank written by
  \<open>checkSort\<close>) is a write to \<open>entries\<close>, visible through both, as in the Go code.

  Scores are Go \<open>float64\<close>. The model takes any linearly ordered type \<open>'s\<close>: the Go order
  \<open>Less\<close> is then the lexicographic order on \<open>(score, member)\<close> and \<open>sort.Sort\<close> has one
  possible result, which is the result of \<open>sort_key\<close>: \<open>sort.Sort\<close> permutes the slice by
  \<open>Swap\<close> calls (\<open>ss_swaps\<close>) until \<open>Less\<close> finds no adjacent pair out of order, and every
  such sequence of swaps ends at the model's slice (proved below). NaN, which is not
  ordered, has no counterpart in \<open>'s\<close>.

  The lemmas show: the representation invariant \<open>ss_inv\<close> holds initially and after every
  operation; \<open>Add\<close>/\<open>AddEntry\<close> refine a finite map from members to scores; after
  \<open>checkSort\<close> the slice is the abstract ranking (the members ordered by score, then
  member) and every entry's rank is its position; \<open>Get\<close> and \<open>GetRank\<close> read that ranking.
\<close>

record 's sorted_set_entry =
  entry_member :: string
  entry_score :: 's
  entry_rank :: int64

record 's sorted_set =
  sorted_seq :: "string list"
  entries :: "string \<rightharpoonup> 's sorted_set_entry"
  is_sorted :: bool

definition create_sorted_set :: "'s sorted_set" where
  "create_sorted_set = \<lparr>sorted_seq = [], entries = Map.empty, is_sorted = False\<rparr>"

definition create_sorted_set_entry :: "string \<Rightarrow> 's \<Rightarrow> 's sorted_set_entry" where
  "create_sorted_set_entry m sc = \<lparr>entry_member = m, entry_score = sc, entry_rank = 0\<rparr>"

text \<open>\<open>Add\<close> returns whether the member already existed.\<close>

definition ss_add :: "string \<Rightarrow> 's \<Rightarrow> 's sorted_set \<Rightarrow> bool \<times> 's sorted_set" where
  "ss_add m sc s = (case entries s m of
       Some e \<Rightarrow>
         (if entry_score e = sc then (True, s)
          else (True, s\<lparr>entries := (entries s)(m \<mapsto> e\<lparr>entry_score := sc\<rparr>), is_sorted := False\<rparr>))
     | None \<Rightarrow>
         (False, s\<lparr>entries := (entries s)(m \<mapsto> \<lparr>entry_member = m, entry_score = sc, entry_rank = 0\<rparr>),
                   sorted_seq := sorted_seq s @ [m], is_sorted := False\<rparr>))"

text \<open>\<open>AddEntry\<close> returns whether a new entry was inserted.\<close>

definition ss_add_entry :: "'s sorted_set_entry \<Rightarrow> 's sorted_set \<Rightarrow> bool \<times> 's sorted_set" where
  "ss_add_entry e s = (case entries s (entry_member e) of
       Some e' \<Rightarrow>
         (if entry_score e' = entry_score e then (False, s)
          else (False, s\<lparr>entries := (entries s)(entry_member e \<mapsto> e'\<lparr>entry_score := entry_score e\<rparr>),
                         is_sorted := False\<rparr>))
     | None \<Rightarrow>
         (True, s\<lparr>entries := (entries s)(entry_member e \<mapsto>
                     \<lparr>entry_member = entry_member e, entry_score = entry_score e, entry_rank = 0\<rparr>),
                  sorted_seq := sorted_seq s @ [entry_member e], is_sorted := False\<rparr>))"

definition ss_len :: "'s sorted_set \<Rightarrow> nat" where
  "ss_len s = length (sorted_seq s)"

text \<open>\<open>Less(i, j)\<close> on the slice positions, as \<open>sort.Sort\<close> calls it.\<close>

definition ss_less :: "'s::linorder sorted_set \<Rightarrow> nat \<Rightarrow> nat \<Rightarrow> bool" where
  "ss_less s i j =
     (let a = the (entries s (sorted_seq s ! i)); b = the (entries s (sorted_seq s ! j))
      in if entry_score a = entry_score b then entry_member a < entry_member b
         else entry_score a < entry_score b)"

text \<open>The sort key of a member: its entry's score, then the member itself.\<close>

definition seq_key :: "'s sorted_set \<Rightarrow> string \<Rightarrow> 's \<times> string" where
  "seq_key s m = (entry_score (the (entries s m)), m)"

text \<open>The loop \<open>for index := range set.sorted { set.sorted[index].rank = int64(index) }\<close>.\<close>

fun assign_ranks :: "nat \<Rightarrow> string list \<Rightarrow> (string \<rightharpoonup> 's sorted_set_entry) \<Rightarrow> (string \<rightharpoonup> 's sorted_set_entry)" where
  "assign_ranks i [] es = es"
| "assign_ranks i (m # ms) es =
     assign_ranks (Suc i) ms (es(m := map_option (\<lambda>e. e\<lparr>entry_rank := word_of_nat i\<rparr>) (es m)))"

definition ss_check_sort :: "'s::linorder sorted_set \<Rightarrow> 's sorted_set" where
  "ss_check_sort s =
     (if \<not> is_sorted s then
        (let seq = sort_key (seq_key s) (sorted_seq s)
         in s\<lparr>sorted_seq := seq, entries := assign_ranks 0 seq (entries s), is_sorted := True\<rparr>)
      else s)"

text \<open>\<open>Get(index)\<close>: \<open>nil\<close> (here \<open>None\<close>) past the end; a negative index passes the guard
  \<open>index < len(set.sorted)\<close> and panics on the slice access.\<close>

definition ss_get :: "int \<Rightarrow> 's::linorder sorted_set \<Rightarrow> ('s sorted_set_entry option \<times> 's sorted_set) go" where
  "ss_get i s =
     (if i < int (length (sorted_seq s)) then
        (let s' = ss_check_sort s
         in if i < 0 then Inl IndexOutOfRangePanic
            else Inr (entries s' (sorted_seq s' ! nat i), s'))
      else Inr (None, s))"

definition ss_get_rank :: "string \<Rightarrow> 's::linorder sorted_set \<Rightarrow> int64 \<times> 's sorted_set" where
  "ss_get_rank m s = (case entries s m of
       Some _ \<Rightarrow> (let s' = ss_check_sort s in (entry_rank (the (entries s' m)), s'))
     | None \<Rightarrow> (-1, s))"

text \<open>Go's \<open>sort.IsSorted(data)\<close>: no adjacent pair is out of order under \<open>Less\<close>. It is
  the postcondition of \<open>sort.Sort\<close>, whatever algorithm the library uses.\<close>

definition go_is_sorted :: "'s::linorder sorted_set \<Rightarrow> bool" where
  "go_is_sorted s = list_all (\<lambda>i. \<not> ss_less s (Suc i) i) [0..<length (sorted_seq s) - 1]"

text \<open>\<open>Swap(i, j)\<close>: the tuple assignment exchanges two slice positions (and panics outside
  the slice). \<open>sort.Sort\<close> reorders the slice only through \<open>Swap\<close>; whatever sequence of
  calls its algorithm makes is \<open>ss_swaps\<close>.\<close>

definition ss_swap :: "nat \<Rightarrow> nat \<Rightarrow> 's sorted_set \<Rightarrow> 's sorted_set go" where
  "ss_swap i j s =
     (if i < length (sorted_seq s) \<and> j < length (sorted_seq s)
      then Inr (s\<lparr>sorted_seq := (sorted_seq s)[i := sorted_seq s ! j, j := sorted_seq s ! i]\<rparr>)
      else Inl IndexOutOfRangePanic)"

fun ss_swaps :: "(nat \<times> nat) list \<Rightarrow> 's sorted_set \<Rightarrow> 's sorted_set go" where
  "ss_swaps [] s = Inr s"
| "ss_swaps ((i, j) # ps) s = (case ss_swap i j s of Inl p \<Rightarrow> Inl p | Inr s' \<Rightarrow> ss_swaps ps s')"

subsection \<open>Representation invariant and abstraction\<close>

text \<open>The slice holds each member once, exactly the members of the map, and each entry
  records its own member; when the flag says sorted, the slice is in key order and each
  entry's rank is its position.\<close>

definition ranks_ok :: "'s::linorder sorted_set \<Rightarrow> bool" where
  "ranks_ok s \<longleftrightarrow> sorted (map (seq_key s) (sorted_seq s)) \<and>
     list_all (\<lambda>(i, m). map_option entry_rank (entries s m) = Some (word_of_nat i))
       (enumerate 0 (sorted_seq s))"

definition ss_inv :: "'s::linorder sorted_set \<Rightarrow> bool" where
  "ss_inv s \<longleftrightarrow> distinct (sorted_seq s) \<and> dom (entries s) = set (sorted_seq s) \<and>
     list_all (\<lambda>m. map_option entry_member (entries s m) = Some m) (sorted_seq s) \<and>
     (is_sorted s \<longrightarrow> ranks_ok s)"

definition ss_abs :: "'s sorted_set \<Rightarrow> (string \<rightharpoonup> 's)" where
  "ss_abs s = (\<lambda>m. map_option entry_score (entries s m))"

text \<open>The abstract ranking of a finite map from members to scores: its (score, member)
  pairs in ascending order.\<close>

definition ranking :: "(string \<rightharpoonup> 's::linorder) \<Rightarrow> ('s \<times> string) list" where
  "ranking A = sorted_list_of_set {(sc, m). A m = Some sc}"

subsection \<open>The rank-assignment loop\<close>

text \<open>Any view of an entry that ignores its rank is unchanged by the loop.\<close>

lemma assign_ranks_view:
  assumes "\<And>e r. g (e\<lparr>entry_rank := r\<rparr>) = g e"
  shows "map_option g (assign_ranks i ms es m) = map_option g (es m)"
  using assms by (induction i ms es rule: assign_ranks.induct) (simp_all add: option.map_comp comp_def)

lemma dom_upd_map_option [simp]: "dom (es(m := map_option f (es m))) = dom es"
  by (auto split: if_splits)

lemma assign_ranks_dom [simp]: "dom (assign_ranks i ms es) = dom es"
proof (induction i ms es rule: assign_ranks.induct)
  case (2 i m ms es)
  then show ?case by (simp only: assign_ranks.simps dom_upd_map_option)
qed simp

lemma assign_ranks_other: "m \<notin> set ms \<Longrightarrow> assign_ranks i ms es m = es m"
  by (induction i ms es rule: assign_ranks.induct) auto

lemma assign_ranks_at:
  "distinct ms \<Longrightarrow> j < length ms \<Longrightarrow>
   assign_ranks i ms es (ms ! j) = map_option (\<lambda>e. e\<lparr>entry_rank := word_of_nat (i + j)\<rparr>) (es (ms ! j))"
proof (induction i ms es arbitrary: j rule: assign_ranks.induct)
  case (1 i es)
  then show ?case by simp
next
  case (2 i m ms es)
  let ?es' = "es(m := map_option (\<lambda>e. e\<lparr>entry_rank := word_of_nat i\<rparr>) (es m))"
  show ?case
  proof (cases j)
    case 0
    with "2.prems" show ?thesis by (simp add: assign_ranks_other)
  next
    case (Suc k)
    with "2.prems" have ne: "ms ! k \<noteq> m" and "distinct ms" and "k < length ms"
      by (auto simp: nth_mem)
    have "assign_ranks i (m # ms) es ((m # ms) ! j) = assign_ranks (Suc i) ms ?es' (ms ! k)"
      using Suc by simp
    also have "\<dots> = map_option (\<lambda>e. e\<lparr>entry_rank := word_of_nat (Suc i + k)\<rparr>) (?es' (ms ! k))"
      using \<open>distinct ms\<close> \<open>k < length ms\<close> by (rule "2.IH")
    also have "Suc i + k = i + j"
      using Suc by simp
    also have "?es' (ms ! k) = es ((m # ms) ! j)"
      using ne Suc by simp
    finally show ?thesis .
  qed
qed

lemmas assign_ranks_score = assign_ranks_view [where g = entry_score, simplified]
lemmas assign_ranks_member = assign_ranks_view [where g = entry_member, simplified]

subsection \<open>checkSort keeps the contents\<close>

lemma the_map_option_eq:
  "map_option g x = map_option g y \<Longrightarrow> g (the x) = g (the y)"
  by (cases x; cases y) auto

lemma ss_check_sort_abs [simp]: "ss_abs (ss_check_sort s) = ss_abs s"
  by (auto simp: ss_abs_def ss_check_sort_def Let_def assign_ranks_score)

lemma ss_check_sort_key [simp]: "seq_key (ss_check_sort s) = seq_key s"
proof
  fix m
  have "map_option entry_score (entries (ss_check_sort s) m) = map_option entry_score (entries s m)"
    by (simp add: ss_check_sort_def Let_def assign_ranks_score)
  then have "entry_score (the (entries (ss_check_sort s) m)) = entry_score (the (entries s m))"
    by (rule the_map_option_eq)
  then show "seq_key (ss_check_sort s) m = seq_key s m"
    by (simp add: seq_key_def)
qed

lemma ss_check_sort_members:
  "map_option entry_member (entries (ss_check_sort s) m) = map_option entry_member (entries s m)"
  by (simp add: ss_check_sort_def Let_def assign_ranks_member)

lemma ss_check_sort_dom [simp]: "dom (entries (ss_check_sort s)) = dom (entries s)"
  by (simp add: ss_check_sort_def Let_def)

lemma ss_check_sort_set [simp]: "set (sorted_seq (ss_check_sort s)) = set (sorted_seq s)"
  by (simp add: ss_check_sort_def Let_def)

lemma ss_check_sort_len [simp]: "length (sorted_seq (ss_check_sort s)) = length (sorted_seq s)"
  by (simp add: ss_check_sort_def Let_def)

lemma ss_check_sort_is_sorted [simp]: "is_sorted (ss_check_sort s)"
  by (simp add: ss_check_sort_def Let_def)

lemma ss_check_sort_sorted_id: "is_sorted s \<Longrightarrow> ss_check_sort s = s"
  by (simp add: ss_check_sort_def)

subsection \<open>The invariant is kept\<close>

lemma ss_inv_create: "ss_inv create_sorted_set"
  by (simp add: ss_inv_def create_sorted_set_def)

lemma ss_inv_unsorted_intro:
  "distinct (sorted_seq s) \<Longrightarrow> dom (entries s) = set (sorted_seq s) \<Longrightarrow>
   list_all (\<lambda>m. map_option entry_member (entries s m) = Some m) (sorted_seq s) \<Longrightarrow>
   \<not> is_sorted s \<Longrightarrow> ss_inv s"
  by (simp add: ss_inv_def)

lemma ss_inv_members:
  "ss_inv s \<Longrightarrow> entries s m = Some e \<Longrightarrow> entry_member e = m"
  by (force simp: ss_inv_def list_all_iff)

lemma ss_add_inv: "ss_inv s \<Longrightarrow> ss_inv (snd (ss_add m sc s))"
  by (auto simp: ss_add_def ss_inv_def list_all_iff split: option.splits)

lemma ss_add_entry_inv: "ss_inv s \<Longrightarrow> ss_inv (snd (ss_add_entry e s))"
  by (auto simp: ss_add_entry_def ss_inv_def list_all_iff split: option.splits)

lemma ss_check_sort_inv: "ss_inv s \<Longrightarrow> ss_inv (ss_check_sort s)"
proof (cases "is_sorted s")
  case True
  then show "ss_inv s \<Longrightarrow> ss_inv (ss_check_sort s)" by (simp add: ss_check_sort_sorted_id)
next
  case False
  assume inv: "ss_inv s"
  define seq where "seq = sort_key (seq_key s) (sorted_seq s)"
  have s': "ss_check_sort s = s\<lparr>sorted_seq := seq, entries := assign_ranks 0 seq (entries s), is_sorted := True\<rparr>"
    using False by (simp add: ss_check_sort_def seq_def Let_def)
  have dist: "distinct seq" and set_seq: "set seq = set (sorted_seq s)"
    using inv by (simp_all add: seq_def ss_inv_def)
  have members: "list_all (\<lambda>m. map_option entry_member (entries (ss_check_sort s) m) = Some m) seq"
    using inv set_seq by (simp add: ss_check_sort_members ss_inv_def list_all_iff)
  have sorted_keys: "sorted (map (seq_key (ss_check_sort s)) seq)"
    by (simp add: seq_def)
  have ranks: "map_option entry_rank (entries (ss_check_sort s) m) = Some (word_of_nat i)"
    if "(i, m) \<in> set (enumerate 0 seq)" for i m
  proof -
    from that have i: "i < length seq" and m: "m = seq ! i"
      by (auto simp: in_set_enumerate_eq)
    then have "m \<in> dom (entries s)"
      using inv set_seq by (auto simp: ss_inv_def)
    with i m dist show ?thesis
      by (auto simp: s' assign_ranks_at)
  qed
  show "ss_inv (ss_check_sort s)"
    using inv dist set_seq members sorted_keys ranks
    by (auto simp: ss_inv_def ranks_ok_def s' list_all_iff)
qed

subsection \<open>Keys and rankings\<close>

lemma seq_key_inj: "inj (seq_key s)"
  by (rule injI) (simp add: seq_key_def)

text \<open>A list is determined by its elements once it is sorted under an injective key.\<close>

lemma sorted_key_unique:
  assumes "inj f" "sorted (map f xs)" "sorted (map f ys)" "distinct xs" "distinct ys" "set xs = set ys"
  shows "xs = ys"
proof -
  have "map f xs = map f ys"
    using assms by (intro sorted_distinct_set_unique) (auto simp: distinct_map inj_on_def)
  with assms(1) show ?thesis by (simp add: inj_map_eq_map)
qed

lemma ss_key_set:
  assumes "ss_inv s"
  shows "seq_key s ` set (sorted_seq s) = {(sc, m). ss_abs s m = Some sc}"
proof -
  have dom: "dom (entries s) = set (sorted_seq s)"
    using assms by (simp add: ss_inv_def)
  have key: "seq_key s m = (sc, m)" if "ss_abs s m = Some sc" for m sc
    using that by (auto simp: ss_abs_def seq_key_def)
  show ?thesis
  proof (intro set_eqI iffI)
    fix x
    assume "x \<in> seq_key s ` set (sorted_seq s)"
    then obtain m e where "m \<in> set (sorted_seq s)" "x = seq_key s m" "entries s m = Some e"
      using dom by blast
    then show "x \<in> {(sc, m). ss_abs s m = Some sc}"
      by (simp add: ss_abs_def seq_key_def)
  next
    fix x
    assume "x \<in> {(sc, m). ss_abs s m = Some sc}"
    then obtain sc m where x: "x = (sc, m)" and a: "ss_abs s m = Some sc"
      by blast
    then have "m \<in> set (sorted_seq s)"
      using dom by (auto simp: ss_abs_def)
    with x key [OF a] show "x \<in> seq_key s ` set (sorted_seq s)"
      by (metis image_eqI)
  qed
qed

lemma ss_sorted_ranking:
  assumes "ss_inv s" "is_sorted s"
  shows "map (seq_key s) (sorted_seq s) = ranking (ss_abs s)"
proof -
  let ?A = "{(sc, m). ss_abs s m = Some sc}"
  have fin: "finite ?A"
    using ss_key_set [OF assms(1)] by (metis finite_set finite_imageI)
  have "sorted (map (seq_key s) (sorted_seq s))"
    using assms by (simp add: ss_inv_def ranks_ok_def)
  moreover have "distinct (map (seq_key s) (sorted_seq s))"
    using assms(1) seq_key_inj [of s] by (simp add: ss_inv_def distinct_map inj_on_def inj_def)
  moreover have "set (map (seq_key s) (sorted_seq s)) = ?A"
    using ss_key_set [OF assms(1)] by simp
  ultimately show ?thesis
    using fin by (simp add: ranking_def sorted_distinct_set_unique)
qed

lemma ss_check_sort_ranking_aux:
  "ss_inv s \<Longrightarrow> map (seq_key s) (sorted_seq (ss_check_sort s)) = ranking (ss_abs s)"
  using ss_sorted_ranking [OF ss_check_sort_inv] by simp

lemma ss_ranks_at:
  assumes "ss_inv s" "is_sorted s" "j < length (sorted_seq s)"
  shows "map_option entry_rank (entries s (sorted_seq s ! j)) = Some (word_of_nat j)"
proof -
  have "(j, sorted_seq s ! j) \<in> set (enumerate 0 (sorted_seq s))"
    using assms(3) by (simp add: in_set_enumerate_eq)
  with assms(1,2) show ?thesis
    by (auto simp: ss_inv_def ranks_ok_def list_all_iff)
qed

lemma ss_len_ranking: "ss_inv s \<Longrightarrow> length (ranking (ss_abs s)) = ss_len s"
  using ss_check_sort_ranking_aux [of s] by (metis length_map ss_check_sort_len ss_len_def)

lemma members_entry:
  "list_all (\<lambda>m. map_option entry_member (es m) = Some m) ms \<Longrightarrow> m \<in> set ms \<Longrightarrow>
   \<exists>e. es m = Some e \<and> entry_member e = m"
  by (auto simp: list_all_iff)

lemma dom_ss_abs [simp]: "dom (ss_abs s) = dom (entries s)"
  by (auto simp: ss_abs_def)

lemma seq_key_upd_seq [simp]: "seq_key (s\<lparr>sorted_seq := xs\<rparr>) = seq_key s"
  by (simp add: seq_key_def fun_eq_iff)

text \<open>Go's \<open>Less\<close> is the key order, on a slice whose entries record their members.\<close>

lemma ss_less_key:
  assumes "list_all (\<lambda>m. map_option entry_member (entries s m) = Some m) (sorted_seq s)"
    and "i < length (sorted_seq s)" "j < length (sorted_seq s)"
  shows "ss_less s i j \<longleftrightarrow> seq_key s (sorted_seq s ! i) < seq_key s (sorted_seq s ! j)"
proof -
  obtain a where a: "entries s (sorted_seq s ! i) = Some a" "entry_member a = sorted_seq s ! i"
    using members_entry [OF assms(1)] assms(2) nth_mem by blast
  obtain b where b: "entries s (sorted_seq s ! j) = Some b" "entry_member b = sorted_seq s ! j"
    using members_entry [OF assms(1)] assms(3) nth_mem by blast
  show ?thesis
    using a b by (auto simp: ss_less_def seq_key_def less_prod_def)
qed

lemma ss_check_sort_seq:
  "\<not> is_sorted s \<Longrightarrow> sorted_seq (ss_check_sort s) = sort_key (seq_key s) (sorted_seq s)"
  by (simp add: ss_check_sort_def Let_def)

lemma ss_get_cases:
  assumes "ss_get i s = Inr (Some e, s')"
  shows "0 \<le> i" "i < int (length (sorted_seq s))" "s' = ss_check_sort s"
    "entries s' (sorted_seq s' ! nat i) = Some e"
  using assms by (auto simp: ss_get_def Let_def split: if_splits)

lemma ss_add_entry_abs_fst:
  "ss_abs (snd (ss_add_entry e s)) = (ss_abs s)(entry_member e \<mapsto> entry_score e) \<and>
   fst (ss_add_entry e s) = (entry_member e \<notin> dom (entries s))"
  by (auto simp: ss_add_entry_def ss_abs_def fun_eq_iff split: option.splits)

lemma ss_get_nth:
  assumes inv: "ss_inv s" and i: "0 \<le> i" "i < int (ss_len s)"
  shows "\<exists>e s'. ss_get i s = Inr (Some e, s') \<and> ranking (ss_abs s) ! nat i = (entry_score e, entry_member e) \<and>
           ss_inv s' \<and> ss_abs s' = ss_abs s"
proof -
  let ?s' = "ss_check_sort s"
  have inv': "ss_inv ?s'" by (rule ss_check_sort_inv [OF inv])
  have j: "nat i < length (sorted_seq ?s')"
    using i by (simp add: ss_len_def)
  let ?m = "sorted_seq ?s' ! nat i"
  have "?m \<in> set (sorted_seq s)"
    using nth_mem [OF j] by simp
  then have "?m \<in> dom (entries ?s')"
    using inv by (simp add: ss_inv_def)
  then obtain e where e: "entries ?s' ?m = Some e"
    by (metis domD)
  have "entry_member e = ?m"
    by (rule ss_inv_members [OF inv' e])
  moreover have "seq_key ?s' ?m = (entry_score e, ?m)"
    unfolding seq_key_def using e by simp
  then have "ranking (ss_abs s) ! nat i = (entry_score e, ?m)"
    using ss_check_sort_ranking_aux [OF inv, symmetric] j by simp
  moreover have "ss_get i s = Inr (Some e, ?s')"
    using i e by (simp add: ss_get_def ss_len_def)
  ultimately show ?thesis
    using inv' by auto
qed

lemma ss_get_rank_pos:
  assumes inv: "ss_inv s" and m: "ss_abs s m = Some sc"
  shows "\<exists>j < length (ranking (ss_abs s)). ranking (ss_abs s) ! j = (sc, m) \<and>
           fst (ss_get_rank m s) = word_of_nat j"
proof -
  let ?s' = "ss_check_sort s"
  have inv': "ss_inv ?s'" by (rule ss_check_sort_inv [OF inv])
  obtain e0 where e0: "entries s m = Some e0" "entry_score e0 = sc"
    using m by (auto simp: ss_abs_def)
  then have "m \<in> set (sorted_seq ?s')"
    using inv by (auto simp: ss_inv_def)
  then obtain j where j: "j < length (sorted_seq ?s')" "sorted_seq ?s' ! j = m"
    by (metis in_set_conv_nth)
  have rank: "map_option entry_rank (entries ?s' m) = Some (word_of_nat j)"
    using ss_ranks_at [OF inv' ss_check_sort_is_sorted j(1)] j(2) by simp
  have "ranking (ss_abs s) = map (seq_key s) (sorted_seq ?s')"
    using ss_check_sort_ranking_aux [OF inv] by simp
  then have "ranking (ss_abs s) ! j = (sc, m)" and "j < length (ranking (ss_abs s))"
    using j e0 by (simp_all add: seq_key_def)
  moreover have "fst (ss_get_rank m s) = word_of_nat j"
    using e0 rank by (auto simp: ss_get_rank_def)
  ultimately show ?thesis by blast
qed

text \<open>Swaps permute the slice and touch nothing else.\<close>

lemma ss_swaps_perm:
  "ss_swaps ps s = Inr s' \<Longrightarrow>
   s' = s\<lparr>sorted_seq := sorted_seq s'\<rparr> \<and> distinct (sorted_seq s') = distinct (sorted_seq s) \<and>
   set (sorted_seq s') = set (sorted_seq s)"
proof (induction ps arbitrary: s)
  case Nil
  then show ?case by simp
next
  case (Cons p ps)
  obtain i j where p: "p = (i, j)" by fastforce
  show ?case
  proof (cases "i < length (sorted_seq s) \<and> j < length (sorted_seq s)")
    case True
    let ?t = "s\<lparr>sorted_seq := (sorted_seq s)[i := sorted_seq s ! j, j := sorted_seq s ! i]\<rparr>"
    have "ss_swaps ps ?t = Inr s'" using Cons.prems p True by (simp add: ss_swap_def)
    from Cons.IH [OF this] show ?thesis using True by simp
  next
    case False
    then have "ss_swap i j s = Inl IndexOutOfRangePanic" by (simp add: ss_swap_def)
    then show ?thesis using Cons.prems p by simp
  qed
qed

subsection \<open>Properties of the sorted set\<close>

text \<open>\<open>Add\<close> updates the member's score in the abstract map from
  members to scores and returns whether the member was already present, not whether it
  was added (the spec's contract \<open>add(member, score) \<rightarrow> added?\<close> is the negation).\<close>

theorem ss_add_refines:
  "ss_abs (snd (ss_add m sc s)) = (ss_abs s)(m \<mapsto> sc) \<and> fst (ss_add m sc s) = (m \<in> dom (entries s))"
  by (auto simp: ss_add_def ss_abs_def fun_eq_iff split: option.splits)

text \<open>C23: \<open>AddEntry\<close>, used by ZADD, updates the member's score in the
  abstract map and returns true exactly when the member was not present before.\<close>

theorem ss_add_entry_refines:
  "ss_abs (snd (ss_add_entry e s)) = (ss_abs s)(entry_member e \<mapsto> entry_score e) \<and>
   fst (ss_add_entry e s) = (entry_member e \<notin> dom (entries s))"
  by (rule ss_add_entry_abs_fst)

text \<open>C6: the representation invariant holds for a new set and is kept by
  \<open>Add\<close>, \<open>AddEntry\<close>, \<open>checkSort\<close>, \<open>GetRank\<close> and \<open>Get\<close>.\<close>

theorem ss_inv_preserved:
  "ss_inv create_sorted_set \<and>
   (ss_inv s \<longrightarrow> ss_inv (snd (ss_add m sc s)) \<and> ss_inv (snd (ss_add_entry e s)) \<and>
      ss_inv (ss_check_sort s) \<and> ss_inv (snd (ss_get_rank m s)) \<and>
      (ss_get i s = Inr (r, s') \<longrightarrow> ss_inv s'))"
  by (auto simp: ss_inv_create ss_add_inv ss_add_entry_inv ss_check_sort_inv ss_get_rank_def
      ss_get_def Let_def split: option.splits if_splits)

text \<open>C5: after \<open>checkSort\<close> the slice lists the members in the order
  of the abstract ranking: by score, ties broken by member.\<close>

theorem ss_check_sort_ranking:
  "ss_inv s \<Longrightarrow> map (seq_key s) (sorted_seq (ss_check_sort s)) = ranking (ss_abs s)"
  by (rule ss_check_sort_ranking_aux)

text \<open>Whatever algorithm \<open>sort.Sort\<close> uses, its result (a reordering of the
  slice for which \<open>sort.IsSorted\<close> holds under \<open>Less\<close>) is the slice the model computes.\<close>

theorem ss_sort_unique:
  assumes inv: "ss_inv s" and unsorted: "\<not> is_sorted s"
    and perm: "distinct xs" "set xs = set (sorted_seq s)"
    and go: "go_is_sorted (s\<lparr>sorted_seq := xs\<rparr>)"
  shows "sorted_seq (ss_check_sort s) = xs"
proof -
  let ?s' = "s\<lparr>sorted_seq := xs\<rparr>"
  have members: "list_all (\<lambda>m. map_option entry_member (entries ?s' m) = Some m) (sorted_seq ?s')"
    using inv perm by (simp add: ss_inv_def list_all_iff)
  have "seq_key s (xs ! i) \<le> seq_key s (xs ! Suc i)" if "Suc i < length xs" for i
  proof -
    have "\<not> ss_less ?s' (Suc i) i"
      using go that by (simp add: go_is_sorted_def list_all_iff)
    then show ?thesis
      using ss_less_key [OF members, of "Suc i" i] that by simp
  qed
  then have "sorted (map (seq_key s) xs)"
    by (simp add: sorted_iff_nth_Suc)
  moreover have "sorted (map (seq_key s) (sort_key (seq_key s) (sorted_seq s)))"
    by simp
  moreover have "distinct (sort_key (seq_key s) (sorted_seq s))"
    using inv by (simp add: ss_inv_def)
  ultimately have "sort_key (seq_key s) (sorted_seq s) = xs"
    using perm by (intro sorted_key_unique [OF seq_key_inj]) simp_all
  with unsorted show ?thesis
    by (simp add: ss_check_sort_seq)
qed

text \<open>C24: \<open>Get(i)\<close> for \<open>0 \<le> i < Len()\<close> returns the entry at position \<open>i\<close> of
  the abstract ranking, and leaves a set with the same contents and a valid invariant.\<close>

theorem ss_get_ranking:
  assumes inv: "ss_inv s" and i: "0 \<le> i" "i < int (ss_len s)"
  shows "\<exists>e s'. ss_get i s = Inr (Some e, s') \<and> ranking (ss_abs s) ! nat i = (entry_score e, entry_member e) \<and>
           ss_inv s' \<and> ss_abs s' = ss_abs s"
  using assms by (rule ss_get_nth)

text \<open>\<open>GetRank(m)\<close> of a present member is its position in the
  abstract ranking.\<close>

theorem ss_get_rank_ranking:
  assumes inv: "ss_inv s" and m: "ss_abs s m = Some sc"
  shows "\<exists>j < length (ranking (ss_abs s)). ranking (ss_abs s) ! j = (sc, m) \<and>
           fst (ss_get_rank m s) = word_of_nat j"
  using assms by (rule ss_get_rank_pos)

text \<open>For every valid index \<open>i\<close>, the rank of the member that \<open>Get(i)\<close>
  returns is \<open>i\<close> (spec, section 8).\<close>

theorem ss_rank_of_get:
  assumes inv: "ss_inv s" and get: "ss_get i s = Inr (Some e, s')"
  shows "fst (ss_get_rank (entry_member e) s') = word_of_int i"
proof -
  note g = ss_get_cases [OF get]
  have inv': "ss_inv s'" and srt: "is_sorted s'"
    using g(3) ss_check_sort_inv [OF inv] by simp_all
  have j: "nat i < length (sorted_seq s')"
    using g(1-3) by (simp add: nat_less_iff)
  have m: "entry_member e = sorted_seq s' ! nat i"
    by (rule ss_inv_members [OF inv' g(4)])
  have "map_option entry_rank (entries s' (entry_member e)) = Some (word_of_nat (nat i))"
    using ss_ranks_at [OF inv' srt j] m by simp
  then show ?thesis
    using g(1,4) m srt by (auto simp: ss_get_rank_def ss_check_sort_sorted_id)
qed

text \<open>\<open>Len()\<close> is the number of distinct members in the set.\<close>

theorem ss_len_card: "ss_inv s \<Longrightarrow> ss_len s = card (dom (ss_abs s))"
  by (simp add: ss_inv_def ss_len_def distinct_card)

text \<open>C25: \<open>checkSort\<close> computes what \<open>sort.Sort\<close> computes, whatever its
  algorithm: any sequence of \<open>Swap\<close> calls that leaves the slice sorted under \<open>Less\<close>
  (\<open>sort.IsSorted\<close>) yields the slice of the model's \<open>checkSort\<close>.\<close>

theorem ss_swaps_sort_unique:
  assumes inv: "ss_inv s" and unsorted: "\<not> is_sorted s"
    and swaps: "ss_swaps ps s = Inr s'" and go: "go_is_sorted s'"
  shows "sorted_seq s' = sorted_seq (ss_check_sort s)"
proof -
  note perm = ss_swaps_perm [OF swaps]
  have "distinct (sorted_seq s')" using perm inv by (simp add: ss_inv_def)
  moreover have "go_is_sorted (s\<lparr>sorted_seq := sorted_seq s'\<rparr>)" using go perm by simp
  ultimately show ?thesis
    using ss_sort_unique [OF inv unsorted, of "sorted_seq s'"] perm by simp
qed

subsection \<open>Witnesses\<close>

text \<open>A set built by \<open>Add("a", 2)\<close> then \<open>Add("b", 1)\<close>: its slice is \<open>[a, b]\<close>, unsorted.\<close>

abbreviation example_set :: "int sorted_set" where
  "example_set \<equiv> snd (ss_add ''b'' 1 (snd (ss_add ''a'' 2 create_sorted_set)))"

lemma example_set_inv: "ss_inv example_set"
  by (auto simp: ss_add_def create_sorted_set_def ss_inv_def)

lemma example_set_get0:
  "ss_get 0 example_set = Inr (Some \<lparr>entry_member = ''b'', entry_score = 1, entry_rank = 0\<rparr>, ss_check_sort example_set)"
  by (simp add: ss_add_def create_sorted_set_def ss_get_def ss_check_sort_def seq_key_def Let_def)

lemma example_set_abs_a: "ss_abs example_set ''a'' = Some 2"
  by (simp add: ss_add_def create_sorted_set_def ss_abs_def)

theorem ss_inv_preserved_witness:
  "ss_inv example_set \<and>
   ss_get 0 example_set = Inr (Some \<lparr>entry_member = ''b'', entry_score = 1, entry_rank = 0\<rparr>, ss_check_sort example_set) \<and>
   ss_inv (ss_check_sort example_set)"
  using ss_inv_preserved [where s = example_set and i = 0 and r = "Some \<lparr>entry_member = ''b'', entry_score = 1, entry_rank = 0\<rparr>"
      and s' = "ss_check_sort example_set" and m = "''a''" and sc = 3 and e = "create_sorted_set_entry ''c'' 0"]
    example_set_inv example_set_get0
  by blast

theorem ss_check_sort_ranking_witness:
  "ss_inv example_set \<and>
   map (seq_key example_set) (sorted_seq (ss_check_sort example_set)) = ranking (ss_abs example_set)"
  using ss_check_sort_ranking [OF example_set_inv] example_set_inv by simp

theorem ss_sort_unique_witness:
  "ss_inv example_set \<and> \<not> is_sorted example_set \<and> distinct [''b'', ''a''] \<and>
   set [''b'', ''a''] = set (sorted_seq example_set) \<and>
   go_is_sorted (example_set\<lparr>sorted_seq := [''b'', ''a'']\<rparr>) \<and>
   sorted_seq (ss_check_sort example_set) = [''b'', ''a'']"
proof -
  have h: "\<not> is_sorted example_set" "distinct [''b'', ''a'']"
    "set [''b'', ''a''] = set (sorted_seq example_set)"
    "go_is_sorted (example_set\<lparr>sorted_seq := [''b'', ''a'']\<rparr>)"
    by (auto simp: ss_add_def create_sorted_set_def go_is_sorted_def ss_less_def)
  show ?thesis
    using ss_sort_unique [OF example_set_inv h] example_set_inv h by simp
qed

theorem ss_get_ranking_witness:
  "ss_inv example_set \<and> 0 \<le> (0::int) \<and> 0 < int (ss_len example_set) \<and>
   (\<exists>e s'. ss_get 0 example_set = Inr (Some e, s') \<and>
      ranking (ss_abs example_set) ! nat 0 = (entry_score e, entry_member e) \<and>
      ss_inv s' \<and> ss_abs s' = ss_abs example_set)"
proof -
  have h: "0 \<le> (0::int)" "0 < int (ss_len example_set)"
    by (simp_all add: ss_add_def create_sorted_set_def ss_len_def)
  show ?thesis
    using ss_get_ranking [OF example_set_inv h] example_set_inv h by blast
qed

theorem ss_get_rank_ranking_witness:
  "ss_inv example_set \<and> ss_abs example_set ''a'' = Some 2 \<and>
   (\<exists>j < length (ranking (ss_abs example_set)). ranking (ss_abs example_set) ! j = (2, ''a'') \<and>
      fst (ss_get_rank ''a'' example_set) = word_of_nat j)"
  using ss_get_rank_ranking [OF example_set_inv example_set_abs_a] example_set_inv example_set_abs_a
  by blast

theorem ss_rank_of_get_witness:
  "ss_inv example_set \<and>
   ss_get 0 example_set = Inr (Some \<lparr>entry_member = ''b'', entry_score = 1, entry_rank = 0\<rparr>, ss_check_sort example_set) \<and>
   fst (ss_get_rank ''b'' (ss_check_sort example_set)) = word_of_int 0"
  using ss_rank_of_get [OF example_set_inv example_set_get0] example_set_inv example_set_get0
  by simp

theorem ss_len_card_witness:
  "ss_inv example_set \<and> ss_len example_set = card (dom (ss_abs example_set))"
  using ss_len_card [OF example_set_inv] example_set_inv by simp

theorem ss_swaps_sort_unique_witness:
  "ss_inv example_set \<and> \<not> is_sorted example_set \<and>
   ss_swaps [(0, 1)] example_set = Inr (example_set\<lparr>sorted_seq := [''b'', ''a'']\<rparr>) \<and>
   go_is_sorted (example_set\<lparr>sorted_seq := [''b'', ''a'']\<rparr>) \<and>
   sorted_seq (ss_check_sort example_set) = [''b'', ''a'']"
proof -
  have h: "\<not> is_sorted example_set" "ss_swaps [(0, 1)] example_set = Inr (example_set\<lparr>sorted_seq := [''b'', ''a'']\<rparr>)"
    "go_is_sorted (example_set\<lparr>sorted_seq := [''b'', ''a'']\<rparr>)"
    by (auto simp: ss_add_def create_sorted_set_def ss_swap_def go_is_sorted_def ss_less_def)
  show ?thesis
    using ss_swaps_sort_unique [OF example_set_inv h] example_set_inv h by simp
qed

end
