(* ===== verification/Value.thy ===== *)
theory Value
  imports SortedSet
begin

text \<open>
  A database value of \<open>src/source/database/value.go\<close>: a type tag (\<open>SingleValue\<close> or
  \<open>SortedSetValue\<close>), an absolute expiry time in Unix seconds (\<open>0\<close> is never) and the
  payload, an \<open>interface{}\<close> holding a \<open>string\<close> or a \<open>*SortedSet\<close>. The tag and the payload
  are separate fields in Go, so the model keeps both; \<open>value_wf\<close> says they agree (and
  that a set payload satisfies the sorted-set invariant), and the database lemmas show
  every store operation keeps it. The per-value \<open>sync.RWMutex\<close> is not modelled: the
  operations are modelled as the atomic steps the locks make them.
\<close>

datatype data_type = SingleValue | SortedSetValue

datatype 's value_data = StringData string | SortedSetData "'s sorted_set"

record 's db_value =
  value_data_type :: data_type
  value_expire_time :: int64
  value_data :: "'s value_data"

definition value_get :: "'s db_value \<Rightarrow> 's value_data" where
  "value_get v = value_data v"

definition value_get_type :: "'s db_value \<Rightarrow> data_type" where
  "value_get_type v = value_data_type v"

definition value_get_information :: "'s db_value \<Rightarrow> data_type \<times> int64" where
  "value_get_information v = (value_data_type v, value_expire_time v)"

definition value_set :: "data_type \<Rightarrow> 's value_data \<Rightarrow> int64 \<Rightarrow> 's db_value \<Rightarrow> 's db_value" where
  "value_set t d e v = v\<lparr>value_data_type := t, value_data := d, value_expire_time := e\<rparr>"

text \<open>The tag agrees with the payload, and a set payload is a valid sorted set.\<close>

definition value_wf :: "'s::linorder db_value \<Rightarrow> bool" where
  "value_wf v \<longleftrightarrow> (case value_data v of
       StringData _ \<Rightarrow> value_data_type v = SingleValue
     | SortedSetData s \<Rightarrow> value_data_type v = SortedSetValue \<and> ss_inv s)"

lemma value_set_fields [simp]:
  "value_data_type (value_set t d e v) = t" "value_data (value_set t d e v) = d"
  "value_expire_time (value_set t d e v) = e"
  by (simp_all add: value_set_def)

lemma value_wf_string: "value_wf v \<Longrightarrow> value_data_type v = SingleValue \<longleftrightarrow> (\<exists>d. value_data v = StringData d)"
  by (auto simp: value_wf_def split: value_data.splits)

lemma value_wf_set:
  "value_wf v \<Longrightarrow> value_data_type v = SortedSetValue \<longleftrightarrow> (\<exists>s. value_data v = SortedSetData s \<and> ss_inv s)"
  by (auto simp: value_wf_def split: value_data.splits)

end
