(* ===== verification/Database.thy ===== *)
theory Database
  imports Value
begin

text \<open>
  The keyspace of \<open>src/source/database/db.go\<close>. The Go map \<open>data map[string]*Value\<close> is
  an association list with distinct keys (\<open>db_inv\<close>): a read \<open>db.data[key]\<close> is
  \<open>map_of\<close>, a write is \<open>AList.update\<close>, \<open>delete\<close> is \<open>AList.delete\<close>, and the
  iteration of \<open>Size\<close> is a filter over the list, whose order does not matter to the
  count. A \<open>*Value\<close> in the map is owned by it (no handler keeps one across a write), so a
  write through the pointer, \<open>value.Set(...)\<close>, is a map update of the key's value. Each
  operation takes \<open>db.mutex\<close> for its whole body and is one atomic step of the model; the
  clock \<open>time.Now().Unix()\<close> is the argument \<open>now\<close>.

  Liveness is written as each operation writes it. \<open>Get\<close>, \<open>Has\<close> and \<open>Size\<close> test
  \<open>expireTime > now || expireTime == 0\<close> (\<open>is_live\<close>); \<open>GetSingleValue\<close> and
  \<open>GetSortedSet\<close> test \<open>(dataType == T) && (expireTime > now) || (expireTime == 0)\<close>, which
  Go parses as \<open>((dataType == T) && (expireTime > now)) || (expireTime == 0)\<close>: a
  never-expiring value of the other type passes the test and the type assertion that
  follows panics. \<open>IncrementSingleValue\<close> does not look at the expiry at all.
\<close>

record 's database =
  db_data :: "(string \<times> 's db_value) list"

definition db_create :: "'s database" where
  "db_create = \<lparr>db_data = []\<rparr>"

definition db_lookup :: "'s database \<Rightarrow> string \<Rightarrow> 's db_value option" where
  "db_lookup db k = map_of (db_data db) k"

definition db_store :: "string \<Rightarrow> 's db_value \<Rightarrow> 's database \<Rightarrow> 's database" where
  "db_store k v db = db\<lparr>db_data := AList.update k v (db_data db)\<rparr>"

definition is_live :: "int64 \<Rightarrow> 's db_value \<Rightarrow> bool" where
  "is_live now v \<longleftrightarrow> sint now < sint (value_expire_time v) \<or> value_expire_time v = 0"

definition db_get :: "int64 \<Rightarrow> 's database \<Rightarrow> string \<Rightarrow> 's db_value option" where
  "db_get now db k = (case db_lookup db k of
       Some v \<Rightarrow> (if is_live now v then Some v else None)
     | None \<Rightarrow> None)"

definition db_get_single_value :: "int64 \<Rightarrow> 's database \<Rightarrow> string \<Rightarrow> string go" where
  "db_get_single_value now db k = (case db_lookup db k of
       Some v \<Rightarrow>
         (if (value_data_type v = SingleValue \<and> sint now < sint (value_expire_time v)) \<or> value_expire_time v = 0
          then (case value_data v of StringData d \<Rightarrow> Inr d | SortedSetData _ \<Rightarrow> Inl TypeAssertionPanic)
          else Inr '''')
     | None \<Rightarrow> Inr '''')"

definition db_get_sorted_set :: "int64 \<Rightarrow> 's database \<Rightarrow> string \<Rightarrow> 's sorted_set option go" where
  "db_get_sorted_set now db k = (case db_lookup db k of
       Some v \<Rightarrow>
         (if (value_data_type v = SortedSetValue \<and> sint now < sint (value_expire_time v)) \<or> value_expire_time v = 0
          then (case value_data v of SortedSetData s \<Rightarrow> Inr (Some s) | StringData _ \<Rightarrow> Inl TypeAssertionPanic)
          else Inr None)
     | None \<Rightarrow> Inr None)"

text \<open>\<open>Set(key, value)\<close>: the inner \<open>value, exists := db.data[key]\<close> shadows the parameter,
  so an existing value is set to its own fields.\<close>

definition db_set :: "string \<Rightarrow> 's db_value \<Rightarrow> 's database \<Rightarrow> 's database" where
  "db_set k v db = (case db_lookup db k of
       Some v' \<Rightarrow> db_store k (value_set (value_data_type v') (value_data v') (value_expire_time v') v') db
     | None \<Rightarrow> db_store k v db)"

definition db_set_single_value :: "string \<Rightarrow> string \<Rightarrow> int64 \<Rightarrow> 's database \<Rightarrow> 's database" where
  "db_set_single_value k d e db = (case db_lookup db k of
       Some v \<Rightarrow> db_store k (value_set SingleValue (StringData d) e v) db
     | None \<Rightarrow> db_store k \<lparr>value_data_type = SingleValue, value_expire_time = e, value_data = StringData d\<rparr> db)"

definition db_set_sorted_set :: "string \<Rightarrow> 's sorted_set \<Rightarrow> int64 \<Rightarrow> 's database \<Rightarrow> 's database" where
  "db_set_sorted_set k s e db = (case db_lookup db k of
       Some v \<Rightarrow> db_store k (value_set SortedSetValue (SortedSetData s) e v) db
     | None \<Rightarrow> db_store k \<lparr>value_data_type = SortedSetValue, value_expire_time = e, value_data = SortedSetData s\<rparr> db)"

text \<open>The part of \<open>IncrementSingleValue\<close> after the value is found or created: parse the
  payload, increment with int64 wrap-around, store the decimal text back with the old
  expiry.\<close>

definition incr_value :: "string \<Rightarrow> 's db_value \<Rightarrow> 's database \<Rightarrow> ((int64 \<times> bool) \<times> 's database) go" where
  "incr_value k v db = (case value_data v of
       StringData d \<Rightarrow>
         (case parse_int d of
            Some i \<Rightarrow> Inr ((i + 1, True),
                         db_store k (value_set SingleValue (StringData (format_int (i + 1))) (value_expire_time v) v) db)
          | None \<Rightarrow> Inr ((0, False), db))
     | SortedSetData _ \<Rightarrow> Inl TypeAssertionPanic)"

definition db_increment_single_value :: "string \<Rightarrow> 's database \<Rightarrow> ((int64 \<times> bool) \<times> 's database) go" where
  "db_increment_single_value k db = (case db_lookup db k of
       Some v \<Rightarrow> (if value_data_type v \<noteq> SingleValue then Inr ((0, False), db) else incr_value k v db)
     | None \<Rightarrow>
         (let v = \<lparr>value_data_type = SingleValue, value_expire_time = 0, value_data = StringData ''0''\<rparr>
          in incr_value k v (db_store k v db)))"

definition db_unset :: "string \<Rightarrow> 's database \<Rightarrow> bool \<times> 's database" where
  "db_unset k db = (if db_lookup db k \<noteq> None then (True, db\<lparr>db_data := AList.delete k (db_data db)\<rparr>) else (False, db))"

definition db_has :: "int64 \<Rightarrow> 's database \<Rightarrow> string \<Rightarrow> bool" where
  "db_has now db k = (case db_lookup db k of Some v \<Rightarrow> is_live now v | None \<Rightarrow> False)"

definition db_size :: "int64 \<Rightarrow> 's database \<Rightarrow> nat" where
  "db_size now db = length (filter (\<lambda>(k, v). is_live now v) (db_data db))"

subsection \<open>Invariant\<close>

text \<open>Keys are distinct (a Go map) and every value is well formed.\<close>

definition db_inv :: "'s::linorder database \<Rightarrow> bool" where
  "db_inv db \<longleftrightarrow> distinct (map fst (db_data db)) \<and> list_all (\<lambda>(k, v). value_wf v) (db_data db)"

lemma db_lookup_store [simp]: "db_lookup (db_store k v db) k' = (if k' = k then Some v else db_lookup db k')"
  by (simp add: db_lookup_def db_store_def update_conv')

lemma db_store_store [simp]: "db_store k v (db_store k w db) = db_store k v db"
  by (simp add: db_store_def)

lemma db_lookup_wf: "db_inv db \<Longrightarrow> db_lookup db k = Some v \<Longrightarrow> value_wf v"
  by (auto simp: db_inv_def db_lookup_def list_all_iff dest: map_of_SomeD)

lemma set_update_subset: "set (AList.update k v al) \<subseteq> insert (k, v) (set al)"
  by (induction al) auto

lemma db_store_inv: "db_inv db \<Longrightarrow> value_wf v \<Longrightarrow> db_inv (db_store k v db)"
proof -
  assume inv: "db_inv db" and wf: "value_wf v"
  have "distinct (map fst (AList.update k v (db_data db)))"
    using inv by (simp add: db_inv_def distinct_update)
  moreover have "set (AList.update k v (db_data db)) \<subseteq> {(k, v)} \<union> set (db_data db)"
    using set_update_subset by simp
  ultimately show ?thesis
    using inv wf by (auto simp: db_inv_def db_store_def list_all_iff)
qed

lemma db_store_same: "db_lookup db k = Some v \<Longrightarrow> db_store k v db = db"
  by (simp add: db_lookup_def db_store_def update_triv)

lemma db_delete_inv: "db_inv db \<Longrightarrow> db_inv (db\<lparr>db_data := AList.delete k (db_data db)\<rparr>)"
proof -
  assume inv: "db_inv db"
  have "set (AList.delete k (db_data db)) \<subseteq> set (db_data db)"
    by (auto simp: AList.delete_eq)
  with inv show ?thesis
    by (auto simp: db_inv_def distinct_delete list_all_iff)
qed

lemma db_lookup_delete [simp]:
  "db_lookup (db\<lparr>db_data := AList.delete k (db_data db)\<rparr>) k' = (if k' = k then None else db_lookup db k')"
  by (simp add: db_lookup_def delete_conv')

lemma value_type_update_same:
  "value_data_type v = t \<Longrightarrow> v\<lparr>value_data_type := t, value_data := d\<rparr> = v\<lparr>value_data := d\<rparr>"
  by (cases v) simp

lemma value_set_self: "value_set (value_data_type v) (value_data v) (value_expire_time v) v = v"
  by (simp add: value_set_def)

text \<open>A store operation on a well-formed database: each one keeps \<open>db_inv\<close>.\<close>

lemma db_set_single_value_inv: "db_inv db \<Longrightarrow> db_inv (db_set_single_value k d e db)"
  by (auto simp: db_set_single_value_def value_wf_def intro!: db_store_inv split: option.splits)

lemma db_set_sorted_set_inv: "db_inv db \<Longrightarrow> ss_inv s \<Longrightarrow> db_inv (db_set_sorted_set k s e db)"
  by (auto simp: db_set_sorted_set_def value_wf_def intro!: db_store_inv split: option.splits)

lemma incr_value_inv:
  "db_inv db \<Longrightarrow> incr_value k v db = Inr (r, db') \<Longrightarrow> db_inv db'"
  by (auto simp: incr_value_def value_wf_def intro!: db_store_inv split: value_data.splits option.splits)

lemma db_increment_single_value_inv:
  assumes inv: "db_inv db" and r: "db_increment_single_value k db = Inr (r, db')"
  shows "db_inv db'"
proof (cases "db_lookup db k")
  case None
  let ?v = "\<lparr>value_data_type = SingleValue, value_expire_time = 0, value_data = StringData ''0''\<rparr>"
  have "db_inv (db_store k ?v db)"
    using inv by (rule db_store_inv) (simp add: value_wf_def)
  moreover have "incr_value k ?v (db_store k ?v db) = Inr (r, db')"
    using r None by (simp add: db_increment_single_value_def Let_def)
  ultimately show ?thesis by (rule incr_value_inv)
next
  case (Some v)
  then show ?thesis
    using inv r incr_value_inv [OF inv, of k v r db']
    by (auto simp: db_increment_single_value_def split: if_splits)
qed

lemma db_unset_inv: "db_inv db \<Longrightarrow> db_inv (snd (db_unset k db))"
  by (simp add: db_unset_def db_delete_inv)

lemma db_set_inv: "db_inv db \<Longrightarrow> value_wf v \<Longrightarrow> db_inv (db_set k v db)"
  by (auto simp: db_set_def value_set_self db_lookup_wf intro!: db_store_inv split: option.splits)

lemma db_get_live: "db_get now db k = Some v \<longleftrightarrow> db_lookup db k = Some v \<and> is_live now v"
  by (auto simp: db_get_def split: option.splits)

lemma db_has_get: "db_has now db k \<longleftrightarrow> db_get now db k \<noteq> None"
  by (simp add: db_has_def db_get_def split: option.splits)

lemma db_increment_eq:
  assumes "db_inv db"
  shows "db_increment_single_value k db = (case db_lookup db k of
       None \<Rightarrow> Inr ((1, True),
                 db_store k \<lparr>value_data_type = SingleValue, value_expire_time = 0, value_data = StringData (format_int 1)\<rparr> db)
     | Some v \<Rightarrow> (case value_data v of
          SortedSetData _ \<Rightarrow> Inr ((0, False), db)
        | StringData d \<Rightarrow> (case parse_int d of
             None \<Rightarrow> Inr ((0, False), db)
           | Some i \<Rightarrow> Inr ((i + 1, True), db_store k (v\<lparr>value_data := StringData (format_int (i + 1))\<rparr>) db))))"
proof (cases "db_lookup db k")
  case None
  have "parse_int ''0'' = Some 0" by (simp add: go_lib_simps)
  with None show ?thesis
    by (simp add: db_increment_single_value_def incr_value_def value_set_def)
next
  case (Some v)
  then have "value_wf v" using assms by (simp add: db_lookup_wf)
  with Some show ?thesis
    by (auto simp: db_increment_single_value_def incr_value_def value_set_def value_wf_def
        value_type_update_same split: value_data.splits option.splits)
qed

subsection \<open>Properties of the store\<close>

text \<open>C7: keys stay distinct and every stored value's type tag agrees with
  its payload (with a valid sorted set as payload): the empty database has this, and
  \<open>SetSingleValue\<close>, \<open>SetSortedSet\<close> (of a valid set), \<open>Set\<close> (of a well-formed value),
  \<open>Unset\<close> and \<open>IncrementSingleValue\<close> keep it.\<close>

theorem db_ops_keep_inv:
  "db_inv (db_create :: 's::linorder database) \<and>
   (db_inv db \<longrightarrow>
      db_inv (db_set_single_value k d e db) \<and> (ss_inv s \<longrightarrow> db_inv (db_set_sorted_set k s e db)) \<and>
      (value_wf v \<longrightarrow> db_inv (db_set k v db)) \<and> db_inv (snd (db_unset k db)) \<and>
      (db_increment_single_value k db = Inr (r, db') \<longrightarrow> db_inv db'))"
proof -
  have "db_inv (db_create :: 's database)"
    by (simp add: db_create_def db_inv_def)
  then show ?thesis
    by (simp add: db_set_single_value_inv db_set_sorted_set_inv db_set_inv db_unset_inv
        db_increment_single_value_inv)
qed

text \<open>C8: on a well-formed database \<open>IncrementSingleValue\<close>
  never panics. An absent key is created as \<open>"0"\<close> with no expiry and incremented to 1; a
  set value or a payload that is not a decimal int64 gives \<open>(0, false)\<close> and no change;
  otherwise the payload \<open>i\<close> becomes the decimal text of \<open>i + 1\<close>, expiry kept.\<close>

theorem db_increment_single_value_spec:
  assumes "db_inv db"
  shows "db_increment_single_value k db = (case db_lookup db k of
       None \<Rightarrow> Inr ((1, True),
                 db_store k \<lparr>value_data_type = SingleValue, value_expire_time = 0, value_data = StringData (format_int 1)\<rparr> db)
     | Some v \<Rightarrow> (case value_data v of
          SortedSetData _ \<Rightarrow> Inr ((0, False), db)
        | StringData d \<Rightarrow> (case parse_int d of
             None \<Rightarrow> Inr ((0, False), db)
           | Some i \<Rightarrow> Inr ((i + 1, True), db_store k (v\<lparr>value_data := StringData (format_int (i + 1))\<rparr>) db))))"
  using assms by (rule db_increment_eq)

text \<open>The increment is int64 arithmetic: at the largest int64 it
  wraps to the smallest, and the wrapped value is stored.\<close>

theorem db_increment_wraps:
  assumes "db_inv db" "db_lookup db k = Some v" "value_data v = StringData d" "parse_int d = Some i"
  shows "\<exists>db'. db_increment_single_value k db = Inr ((i + 1, True), db') \<and>
           sint (i + 1) = (if sint i = 2 ^ 63 - 1 then - (2 ^ 63) else sint i + 1) \<and>
           db_lookup db' k = Some (v\<lparr>value_data := StringData (format_int (i + 1))\<rparr>)"
  using db_increment_eq [OF assms(1), of k] assms(2-4) by (simp add: sint_incr)

text \<open>C30: \<open>IncrementSingleValue\<close> does not check the expiry. On an
  expired numeric value it increments the old number and keeps the old expiry, so the
  key stays absent for readers; the spec says an expired value is treated as absent and
  the increment yields 1.\<close>

theorem db_increment_expired:
  assumes "db_inv db" "db_lookup db k = Some v" "value_data v = StringData d" "parse_int d = Some i"
    and "\<not> is_live now v"
  shows "\<exists>db'. db_increment_single_value k db = Inr ((i + 1, True), db') \<and>
           db_get now db' k = None \<and> \<not> db_has now db' k"
  using db_increment_eq [OF assms(1), of k] assms(2-5)
  by (simp add: db_get_def db_has_def is_live_def)

text \<open>C15: a never-expiring value of the other type passes the mixed
  precedence test of \<open>GetSingleValue\<close>/\<open>GetSortedSet\<close> and the type assertion panics.\<close>

theorem db_typed_get_panics:
  assumes "db_lookup db k = Some v" "value_expire_time v = 0"
  shows "(case value_data v of
            SortedSetData _ \<Rightarrow> db_get_single_value now db k = Inl TypeAssertionPanic
          | StringData _ \<Rightarrow> db_get_sorted_set now db k = Inl TypeAssertionPanic)"
  using assms by (simp add: db_get_single_value_def db_get_sorted_set_def split: value_data.splits)

text \<open>\<open>Database.Set(key, value)\<close> on a present key leaves the
  database unchanged: the shadowed \<open>value\<close> is the stored one, set to its own fields.\<close>

theorem db_set_existing_noop: "db_lookup db k = Some v' \<Longrightarrow> db_set k v db = db"
  by (simp add: db_set_def value_set_self db_store_same)

text \<open>\<open>Size\<close> counts the keys that are live at \<open>now\<close>.\<close>

theorem db_size_live_keys:
  assumes "db_inv db"
  shows "db_size now db = card {k \<in> fst ` set (db_data db). db_has now db k}"
proof -
  let ?ys = "filter (\<lambda>(k, v). is_live now v) (db_data db)"
  have dist: "distinct (map fst (db_data db))"
    using assms by (simp add: db_inv_def)
  then have "distinct (map fst ?ys)"
    by (simp add: distinct_map_filter)
  then have "card (fst ` set ?ys) = length ?ys"
    by (metis distinct_card length_map set_map)
  moreover have "fst ` set ?ys = {k \<in> fst ` set (db_data db). db_has now db k}"
  proof (intro set_eqI iffI)
    fix k
    assume "k \<in> fst ` set ?ys"
    then obtain v where "(k, v) \<in> set (db_data db)" "is_live now v" by auto
    with dist show "k \<in> {k \<in> fst ` set (db_data db). db_has now db k}"
      by (force simp: db_has_def db_lookup_def)
  next
    fix k
    assume "k \<in> {k \<in> fst ` set (db_data db). db_has now db k}"
    then obtain v where "map_of (db_data db) k = Some v" "is_live now v"
      by (auto simp: db_has_def db_lookup_def split: option.splits)
    then show "k \<in> fst ` set ?ys"
      by (force dest: map_of_SomeD)
  qed
  ultimately show ?thesis
    by (simp add: db_size_def)
qed

subsection \<open>Witnesses\<close>

abbreviation example_db :: "int database" where
  "example_db \<equiv> db_set_single_value ''n'' ''41'' 0 db_create"

abbreviation example_n :: "int db_value" where
  "example_n \<equiv> \<lparr>value_data_type = SingleValue, value_expire_time = 0, value_data = StringData ''41''\<rparr>"

lemma example_db_inv: "db_inv example_db"
  by (simp add: db_set_single_value_def db_create_def db_store_def db_lookup_def db_inv_def value_wf_def)

lemma example_db_lookup: "db_lookup example_db ''n'' = Some example_n"
  by (simp add: db_set_single_value_def db_create_def db_lookup_def db_store_def)

lemma example_db_incr:
  "db_increment_single_value ''n'' example_db =
   Inr ((42, True), db_store ''n'' (example_n\<lparr>value_data := StringData (format_int 42)\<rparr>) example_db)"
  using db_increment_eq [OF example_db_inv, of "''n''"] example_db_lookup
  by (simp add: go_lib_simps)

theorem db_ops_keep_inv_witness:
  "db_inv example_db \<and> ss_inv (create_sorted_set :: int sorted_set) \<and> value_wf example_n \<and>
   db_increment_single_value ''n'' example_db =
     Inr ((42, True), db_store ''n'' (example_n\<lparr>value_data := StringData (format_int 42)\<rparr>) example_db) \<and>
   db_inv (db_store ''n'' (example_n\<lparr>value_data := StringData (format_int 42)\<rparr>) example_db)"
proof -
  have h: "ss_inv (create_sorted_set :: int sorted_set)" "value_wf example_n"
    by (simp_all add: ss_inv_create value_wf_def)
  show ?thesis
    using db_ops_keep_inv [where db = example_db and k = "''n''" and s = create_sorted_set and v = example_n
        and r = "(42, True)" and db' = "db_store ''n'' (example_n\<lparr>value_data := StringData (format_int 42)\<rparr>) example_db"]
      example_db_inv example_db_incr h
    by blast
qed

theorem db_increment_single_value_spec_witness:
  "db_inv example_db \<and>
   db_increment_single_value ''n'' example_db =
     Inr ((42, True), db_store ''n'' (example_n\<lparr>value_data := StringData (format_int 42)\<rparr>) example_db)"
  using db_increment_single_value_spec [OF example_db_inv, of "''n''"] example_db_inv example_db_lookup
  by (simp add: go_lib_simps)

abbreviation example_max :: "int db_value" where
  "example_max \<equiv> \<lparr>value_data_type = SingleValue, value_expire_time = 0,
                   value_data = StringData ''9223372036854775807''\<rparr>"

theorem db_increment_wraps_witness:
  "db_inv (db_store ''n'' example_max db_create) \<and>
   db_lookup (db_store ''n'' example_max db_create) ''n'' = Some example_max \<and>
   parse_int ''9223372036854775807'' = Some (word_of_int 9223372036854775807) \<and>
   (\<exists>db'. db_increment_single_value ''n'' (db_store ''n'' example_max db_create) =
       Inr ((word_of_int 9223372036854775807 + 1, True), db') \<and>
     sint (word_of_int 9223372036854775807 + 1 :: int64) = - (2 ^ 63))"
proof -
  have h: "db_inv (db_store ''n'' example_max db_create)"
    "db_lookup (db_store ''n'' example_max db_create) ''n'' = Some example_max"
    "parse_int ''9223372036854775807'' = Some (word_of_int 9223372036854775807)"
    by (simp_all add: db_inv_def db_create_def db_store_def db_lookup_def value_wf_def go_lib_simps)
  show ?thesis
    using db_increment_wraps [OF h(1,2) _ h(3)] h by auto
qed

abbreviation example_expired :: "int db_value" where
  "example_expired \<equiv> \<lparr>value_data_type = SingleValue, value_expire_time = 10, value_data = StringData ''5''\<rparr>"

theorem db_increment_expired_witness:
  "db_inv (db_store ''k'' example_expired db_create) \<and>
   db_lookup (db_store ''k'' example_expired db_create) ''k'' = Some example_expired \<and>
   parse_int ''5'' = Some 5 \<and> \<not> is_live 20 example_expired \<and>
   (\<exists>db'. db_increment_single_value ''k'' (db_store ''k'' example_expired db_create) = Inr ((5 + 1, True), db') \<and>
      db_get 20 db' ''k'' = None \<and> \<not> db_has 20 db' ''k'')"
proof -
  have h: "db_inv (db_store ''k'' example_expired db_create)"
    "db_lookup (db_store ''k'' example_expired db_create) ''k'' = Some example_expired"
    "parse_int ''5'' = Some 5" "\<not> is_live 20 example_expired"
    by (simp_all add: db_inv_def db_create_def db_store_def db_lookup_def value_wf_def go_lib_simps is_live_def)
  show ?thesis
    using db_increment_expired [OF h(1,2) _ h(3,4)] h by simp
qed

theorem db_typed_get_panics_witness:
  "db_lookup (db_set_sorted_set ''s'' create_sorted_set 0 (db_create :: int database)) ''s'' =
     Some \<lparr>value_data_type = SortedSetValue, value_expire_time = 0, value_data = SortedSetData create_sorted_set\<rparr> \<and>
   db_get_single_value 7 (db_set_sorted_set ''s'' create_sorted_set 0 (db_create :: int database)) ''s'' =
     Inl TypeAssertionPanic"
proof -
  have h: "db_lookup (db_set_sorted_set ''s'' create_sorted_set 0 (db_create :: int database)) ''s'' =
     Some \<lparr>value_data_type = SortedSetValue, value_expire_time = 0, value_data = SortedSetData create_sorted_set\<rparr>"
    by (simp add: db_set_sorted_set_def db_create_def db_lookup_def db_store_def)
  show ?thesis
    using db_typed_get_panics [OF h, of 7] h by simp
qed

theorem db_set_existing_noop_witness:
  "db_lookup example_db ''n'' = Some example_n \<and> db_set ''n'' example_expired example_db = example_db"
  using db_set_existing_noop [OF example_db_lookup] example_db_lookup by simp

theorem db_size_live_keys_witness:
  "db_inv example_db \<and> db_size 5 example_db = card {k \<in> fst ` set (db_data example_db). db_has 5 example_db k}"
  using db_size_live_keys [OF example_db_inv] example_db_inv by simp

end
