(* ===== verification/Stdlib.thy ===== *)
theory Stdlib
  imports Database
begin

text \<open>
  The command handlers of \<open>src/source/vm/stdlib.go\<close> and the result constants of
  \<open>src/source/vm/vm.go\<close>. A handler \<open>func(db, parameters) []string\<close> is a function of
  type \<open>'s handler\<close>: it receives the environment (the clock reading \<open>time.Now().Unix()\<close>
  and the float parser \<open>strconv.ParseFloat\<close>, an external library function kept as a
  parameter with any linearly ordered score type), the database and the parameters, and
  returns the result strings with the new database, or a Go panic.

  Handlers hold a \<open>*SortedSet\<close> obtained from the database and mutate it
  (\<open>AddEntry\<close>, and the re-sort inside \<open>Get\<close>/\<open>GetRank\<close>); the set object is shared with
  the database's value, so the model writes the mutated set back into the key's value
  (\<open>db_write_set\<close>): the sequential effect of the pointer write.
\<close>

record 's env =
  env_now :: int64
  env_parse_float :: "string \<Rightarrow> 's option"

type_synonym 's handler = "'s env \<Rightarrow> 's database \<Rightarrow> string list \<Rightarrow> (string list \<times> 's database) go"

subsection \<open>Results\<close>

definition nil_message :: string where "nil_message = ''(nil)''"
definition ok_message :: string where "ok_message = ''OK''"
definition unknown_command_error_message :: string where
  "unknown_command_error_message = ''Error: unknown command or invalid parameters for command''"
definition invalid_command_line_error_message :: string where
  "invalid_command_line_error_message = ''Error: invalid command line''"
definition invalid_parameters_error_message :: string where
  "invalid_parameters_error_message = ''Error: invalid parameters''"
definition invalid_parameter_value_error_message :: string where
  "invalid_parameter_value_error_message = ''Error: invalid parameter value''"
definition invalid_data_type_error_message :: string where
  "invalid_data_type_error_message = ''Error: invalid data type''"

definition empty_result :: "string list" where "empty_result = []"
definition nil_result :: "string list" where "nil_result = [nil_message]"
definition ok_result :: "string list" where "ok_result = [ok_message]"
definition unknown_command_result :: "string list" where "unknown_command_result = [unknown_command_error_message]"
definition invalid_command_line_result :: "string list" where
  "invalid_command_line_result = [invalid_command_line_error_message]"
definition invalid_parameters_result :: "string list" where
  "invalid_parameters_result = [invalid_parameters_error_message]"
definition invalid_parameter_value_result :: "string list" where
  "invalid_parameter_value_result = [invalid_parameter_value_error_message]"
definition invalid_data_type_result :: "string list" where
  "invalid_data_type_result = [invalid_data_type_error_message]"

declare nil_message_def [result_simps] ok_message_def [result_simps]
  unknown_command_error_message_def [result_simps] invalid_command_line_error_message_def [result_simps]
  invalid_parameters_error_message_def [result_simps] invalid_parameter_value_error_message_def [result_simps]
  invalid_data_type_error_message_def [result_simps] empty_result_def [result_simps] nil_result_def [result_simps]
  ok_result_def [result_simps] unknown_command_result_def [result_simps]
  invalid_command_line_result_def [result_simps] invalid_parameters_result_def [result_simps]
  invalid_parameter_value_result_def [result_simps] invalid_data_type_result_def [result_simps]

subsection \<open>Handlers\<close>

text \<open>The write through a \<open>*SortedSet\<close> obtained from the value stored at \<open>k\<close>.\<close>

definition db_write_set :: "string \<Rightarrow> 's sorted_set \<Rightarrow> 's database \<Rightarrow> 's database" where
  "db_write_set k s db = (case db_lookup db k of
       Some v \<Rightarrow> db_store k (v\<lparr>value_data := SortedSetData s\<rparr>) db
     | None \<Rightarrow> db)"

definition std_set :: "'s handler" where
  "std_set env db ps =
     (if length ps \<noteq> 2 then Inr (invalid_parameters_result, db)
      else Inr (ok_result, db_set_single_value (ps ! 0) (ps ! 1) 0 db))"

definition std_set_ex :: "'s handler" where
  "std_set_ex env db ps =
     (if length ps \<noteq> 4 \<or> ps ! 2 \<noteq> ''EX'' then Inr (invalid_parameters_result, db)
      else (case parse_int (ps ! 3) of
              Some secs \<Rightarrow> Inr (ok_result, db_set_single_value (ps ! 0) (ps ! 1) (env_now env + secs) db)
            | None \<Rightarrow> Inr (invalid_parameter_value_result, db)))"

definition std_get :: "'s handler" where
  "std_get env db ps =
     (if length ps \<noteq> 1 then Inr (invalid_parameters_result, db)
      else if \<not> db_has (env_now env) db (ps ! 0) then Inr (nil_result, db)
      else (case db_get_single_value (env_now env) db (ps ! 0) of
              Inl p \<Rightarrow> Inl p
            | Inr d \<Rightarrow> Inr ([d], db)))"

text \<open>The loop of DEL: \<open>Unset\<close> each parameter, counting the keys that were present.\<close>

fun del_loop :: "string list \<Rightarrow> int64 \<Rightarrow> 's database \<Rightarrow> int64 \<times> 's database" where
  "del_loop [] c db = (c, db)"
| "del_loop (k # ks) c db = (let (had, db') = db_unset k db in del_loop ks (if had then c + 1 else c) db')"

definition std_del :: "'s handler" where
  "std_del env db ps =
     (if length ps < 1 then Inr (invalid_parameters_result, db)
      else (let (c, db') = del_loop ps 0 db in Inr ([format_int c], db')))"

definition std_db_size :: "'s handler" where
  "std_db_size env db ps =
     (if length ps \<noteq> 0 then Inr (invalid_parameters_result, db)
      else Inr ([format_int (word_of_nat (db_size (env_now env) db))], db))"

definition std_incr :: "'s handler" where
  "std_incr env db ps =
     (if length ps \<noteq> 1 then Inr (invalid_parameters_result, db)
      else (case db_increment_single_value (ps ! 0) db of
              Inl p \<Rightarrow> Inl p
            | Inr ((nv, ok), db') \<Rightarrow>
                (if ok then Inr ([format_int nv], db') else Inr (invalid_data_type_result, db'))))"

text \<open>ZADD, first part: find the set at the key, creating and storing an empty one when
  the key is absent or expired; \<open>None\<close> when the live value is not a set.\<close>

definition zadd_target :: "int64 \<Rightarrow> string \<Rightarrow> 's database \<Rightarrow> ('s sorted_set \<times> 's database) option go" where
  "zadd_target now k db = (case db_get now db k of
       None \<Rightarrow> Inr (Some (create_sorted_set, db_set_sorted_set k create_sorted_set 0 db))
     | Some v \<Rightarrow>
         (if value_get_type v \<noteq> SortedSetValue then Inr None
          else (case value_get v of SortedSetData s \<Rightarrow> Inr (Some (s, db)) | StringData _ \<Rightarrow> Inl TypeAssertionPanic)))"

text \<open>ZADD, second part: parse every score (\<open>ParseFloat\<close>) before adding anything.\<close>

fun parse_entries :: "(string \<Rightarrow> 's option) \<Rightarrow> string list \<Rightarrow> 's sorted_set_entry list option" where
  "parse_entries pf (sc # m # rest) =
     (case pf sc of
        None \<Rightarrow> None
      | Some v \<Rightarrow> map_option (Cons (create_sorted_set_entry m v)) (parse_entries pf rest))"
| "parse_entries pf _ = Some []"

text \<open>ZADD, third part: \<open>AddEntry\<close> each entry, counting the new members.\<close>

fun add_entries :: "'s sorted_set_entry list \<Rightarrow> int64 \<Rightarrow> 's sorted_set \<Rightarrow> int64 \<times> 's sorted_set" where
  "add_entries [] c s = (c, s)"
| "add_entries (e # es) c s = (let (added, s') = ss_add_entry e s in add_entries es (if added then c + 1 else c) s')"

definition std_zadd :: "'s handler" where
  "std_zadd env db ps =
     (if length ps < 3 \<or> even (length ps) then Inr (invalid_parameters_result, db)
      else (case zadd_target (env_now env) (ps ! 0) db of
              Inl p \<Rightarrow> Inl p
            | Inr None \<Rightarrow> Inr (invalid_data_type_result, db)
            | Inr (Some (s, db1)) \<Rightarrow>
                (case parse_entries (env_parse_float env) (drop 1 ps) of
                   None \<Rightarrow> Inr (invalid_parameter_value_result, db1)
                 | Some es \<Rightarrow>
                     (let (c, s') = add_entries es 0 s in Inr ([format_int c], db_write_set (ps ! 0) s' db1)))))"

definition std_zcard :: "'s handler" where
  "std_zcard env db ps =
     (if length ps \<noteq> 1 then Inr (invalid_parameters_result, db)
      else (case db_get_sorted_set (env_now env) db (ps ! 0) of
              Inl p \<Rightarrow> Inl p
            | Inr (Some s) \<Rightarrow> Inr ([format_int (word_of_nat (ss_len s))], db)
            | Inr None \<Rightarrow> Inr ([''0''], db)))"

definition std_zrank :: "'s::linorder handler" where
  "std_zrank env db ps =
     (if length ps \<noteq> 2 then Inr (invalid_parameters_result, db)
      else (case db_get_sorted_set (env_now env) db (ps ! 0) of
              Inl p \<Rightarrow> Inl p
            | Inr (Some s) \<Rightarrow>
                (let (r, s') = ss_get_rank (ps ! 1) s; db' = db_write_set (ps ! 0) s' db
                 in if 0 \<le> sint r then Inr ([format_int r], db') else Inr (nil_result, db'))
            | Inr None \<Rightarrow> Inr (nil_result, db)))"

text \<open>The loop of ZRANGE, \<open>for index := start; index <= stop; index++\<close>, run for its
  \<open>stop - start + 1\<close> iterations; \<open>GetMember\<close> on a \<open>nil\<close> entry panics.\<close>

fun zrange_loop :: "int64 \<Rightarrow> nat \<Rightarrow> 's::linorder sorted_set \<Rightarrow> (string list \<times> 's sorted_set) go" where
  "zrange_loop i 0 s = Inr ([], s)"
| "zrange_loop i (Suc n) s =
     (case ss_get (sint i) s of
        Inl p \<Rightarrow> Inl p
      | Inr (None, s') \<Rightarrow> Inl NilDereferencePanic
      | Inr (Some e, s') \<Rightarrow>
          (case zrange_loop (i + 1) n s' of
             Inl p \<Rightarrow> Inl p
           | Inr (ms, s'') \<Rightarrow> Inr (entry_member e # ms, s'')))"

text \<open>The loop of ZRANGE as Go writes it, \<open>for index := start; index <= stop; index++\<close> over
  int64, where \<open>index++\<close> wraps: a loop that a priori need not end, so its value is
  \<open>None\<close> when it runs forever. The model of the handler uses the counted loop
  \<open>zrange_loop\<close>; the lemmas show that this loop always ends and equals the counted loop
  for every \<open>stop\<close> that the clamping can produce.\<close>

partial_function (option) zrange_while ::
  "int64 \<Rightarrow> int64 \<Rightarrow> 's::linorder sorted_set \<Rightarrow> (string list \<times> 's sorted_set) go option" where
  "zrange_while i stop s =
     (if sint stop < sint i then Some (Inr ([], s))
      else (case ss_get (sint i) s of
              Inl p \<Rightarrow> Some (Inl p)
            | Inr (None, s') \<Rightarrow> Some (Inl NilDereferencePanic)
            | Inr (Some e, s') \<Rightarrow>
                Option.bind (zrange_while (i + 1) stop s')
                  (\<lambda>r. Some (case r of Inl p \<Rightarrow> Inl p | Inr (ms, s'') \<Rightarrow> Inr (entry_member e # ms, s'')))))"

text \<open>The index arithmetic of ZRANGE on int64. A negative \<open>start\<close> is set to 0 without the
  \<open>start > stop\<close> test, and \<open>make([]string, stop-start+1)\<close> panics on a negative length.\<close>

definition zrange_range :: "string \<Rightarrow> int64 \<Rightarrow> int64 \<Rightarrow> 's::linorder sorted_set \<Rightarrow> 's database \<Rightarrow>
    (string list \<times> 's database) go" where
  "zrange_range k start stop s db =
     (let size = word_of_nat (ss_len s) :: int64;
          stop' = (if sint stop < 0 then stop + size else if sint size \<le> sint stop then size - 1 else stop)
      in if 0 \<le> sint start \<and> sint stop' < sint start then Inr (empty_result, db)
         else (let start' = (if sint start < 0 then 0 else start); len = stop' - start' + 1
               in if sint len < 0 then Inl MakeSliceLenPanic
                  else (case zrange_loop start' (nat (sint len)) s of
                          Inl p \<Rightarrow> Inl p
                        | Inr (ms, s') \<Rightarrow> Inr (ms, db_write_set k s' db))))"

definition std_zrange :: "'s::linorder handler" where
  "std_zrange env db ps =
     (if length ps \<noteq> 3 then Inr (invalid_parameters_result, db)
      else (case db_get_sorted_set (env_now env) db (ps ! 0) of
              Inl p \<Rightarrow> Inl p
            | Inr (Some s) \<Rightarrow>
                (case (parse_int (ps ! 1), parse_int (ps ! 2)) of
                   (Some start, Some stop) \<Rightarrow> zrange_range (ps ! 0) start stop s db
                 | _ \<Rightarrow> Inr (invalid_parameter_value_result, db))
            | Inr None \<Rightarrow> Inr (empty_result, db)))"

declare std_set_def [handler_simps] std_set_ex_def [handler_simps] std_get_def [handler_simps]
  std_del_def [handler_simps] std_db_size_def [handler_simps] std_incr_def [handler_simps]
  std_zadd_def [handler_simps] std_zcard_def [handler_simps] std_zrank_def [handler_simps]
  std_zrange_def [handler_simps]

subsection \<open>Command sequences and the abstract sorted-set view\<close>

text \<open>A client issuing \<open>INCR key\<close> \<open>n\<close> times; the run stops at a panic.\<close>

fun incr_times :: "nat \<Rightarrow> 's env \<Rightarrow> string \<Rightarrow> 's database \<Rightarrow> 's database go" where
  "incr_times 0 env k db = Inr db"
| "incr_times (Suc n) env k db = (case std_incr env db [k] of Inl p \<Rightarrow> Inl p | Inr (_, db') \<Rightarrow> incr_times n env k db')"

text \<open>The sorted set a key denotes for the Z-commands of the spec: the empty set when the
  key is absent or expired, the members' scores when it holds a set, nothing otherwise.\<close>

definition spec_zset :: "int64 \<Rightarrow> 's database \<Rightarrow> string \<Rightarrow> (string \<rightharpoonup> 's) option" where
  "spec_zset now db k = (case db_get now db k of
       None \<Rightarrow> Some Map.empty
     | Some v \<Rightarrow> (case value_data v of SortedSetData s \<Rightarrow> Some (ss_abs s) | StringData _ \<Rightarrow> None))"

definition add_scores :: "(string \<rightharpoonup> 's) \<Rightarrow> 's sorted_set_entry list \<Rightarrow> (string \<rightharpoonup> 's)" where
  "add_scores A es = foldl (\<lambda>A e. A(entry_member e \<mapsto> entry_score e)) A es"

text \<open>The interval of positions ZRANGE answers according to the spec, for a set of
  \<open>n\<close> members: a negative \<open>stop\<close> counts from the end, a \<open>stop\<close> past the end is the last
  position, a negative \<open>start\<close> is 0, and an empty interval gives no members.\<close>

definition clamp_stop :: "int \<Rightarrow> int \<Rightarrow> int" where
  "clamp_stop n stop = (if stop < 0 then stop + n else if n \<le> stop then n - 1 else stop)"

definition spec_zrange :: "('s \<times> string) list \<Rightarrow> int \<Rightarrow> int \<Rightarrow> string list" where
  "spec_zrange R start stop =
     (let stop' = clamp_stop (int (length R)) stop; start' = max start 0
      in if stop' < start' then [] else map snd (take (nat (stop' - start' + 1)) (drop (nat start') R)))"

subsection \<open>Store facts the handlers use\<close>

text \<open>\<open>Value.Set\<close> replaces all three fields of a value, so storing into a present key
  gives the same value as storing a new one.\<close>

lemma value_set_all: "value_set t d e v = \<lparr>value_data_type = t, value_expire_time = e, value_data = d\<rparr>"
  by (cases v) (simp add: value_set_def)

lemma db_set_single_value_store:
  "db_set_single_value k d e db = db_store k \<lparr>value_data_type = SingleValue, value_expire_time = e, value_data = StringData d\<rparr> db"
  by (simp add: db_set_single_value_def value_set_all split: option.splits)

lemma db_set_sorted_set_store:
  "db_set_sorted_set k s e db = db_store k \<lparr>value_data_type = SortedSetValue, value_expire_time = e, value_data = SortedSetData s\<rparr> db"
  by (simp add: db_set_sorted_set_def value_set_all split: option.splits)

lemma db_write_set_lookup [simp]:
  "db_lookup (db_write_set k s db) k' =
     (if k' = k then map_option (\<lambda>v. v\<lparr>value_data := SortedSetData s\<rparr>) (db_lookup db k) else db_lookup db k')"
  by (simp add: db_write_set_def split: option.splits)

lemma db_write_set_inv:
  assumes "db_inv db" "db_lookup db k = Some v" "value_data_type v = SortedSetValue" "ss_inv s"
  shows "db_inv (db_write_set k s db)"
  using assms by (auto simp: db_write_set_def value_wf_def intro!: db_store_inv)

lemma db_get_sorted_set_some:
  assumes "db_inv db" "db_get_sorted_set now db k = Inr (Some s)"
  shows "\<exists>v. db_lookup db k = Some v \<and> value_data v = SortedSetData s \<and> value_data_type v = SortedSetValue \<and> ss_inv s"
proof -
  obtain v where v: "db_lookup db k = Some v" "value_data v = SortedSetData s"
    using assms(2) by (auto simp: db_get_sorted_set_def split: option.splits if_splits value_data.splits)
  moreover have "value_wf v" using db_lookup_wf [OF assms(1) v(1)] .
  ultimately show ?thesis by (simp add: value_wf_def)
qed

lemma del_loop_result:
  "del_loop ks c db =
     (c + word_of_nat (card (set ks \<inter> fst ` set (db_data db))),
      db\<lparr>db_data := filter (\<lambda>(k, v). k \<notin> set ks) (db_data db)\<rparr>)"
proof (induction ks arbitrary: c db)
  case Nil
  then show ?case by simp
next
  case (Cons k ks)
  let ?K = "fst ` set (db_data db)"
  have had: "(db_lookup db k \<noteq> None) = (k \<in> ?K)"
    by (simp add: db_lookup_def map_of_eq_None_iff)
  have keys: "fst ` set (AList.delete k (db_data db)) = ?K - {k}"
    by (auto simp: AList.delete_eq)
  have card: "card (set (k # ks) \<inter> ?K) = (if k \<in> ?K then Suc (card (set ks \<inter> (?K - {k}))) else card (set ks \<inter> (?K - {k})))"
  proof -
    have "set (k # ks) \<inter> ?K = (if k \<in> ?K then insert k (set ks \<inter> (?K - {k})) else set ks \<inter> (?K - {k}))"
      by auto
    then show ?thesis by (simp add: card_insert_if)
  qed
  have filt: "filter (\<lambda>(k', v). k' \<notin> set ks) (AList.delete k (db_data db)) = filter (\<lambda>(k', v). k' \<notin> set (k # ks)) (db_data db)"
    by (auto simp: AList.delete_eq intro: filter_cong)
  show ?case
    using Cons.IH had keys card filt by (simp add: db_unset_def split: if_splits)
qed


lemma incr_times_from:
  assumes "db_inv db" "db_lookup db k = Some v" "value_data v = StringData d" "parse_int d = Some w"
  shows "\<exists>db' d'. incr_times n env k db = Inr db' \<and> db_inv db' \<and> db_lookup db' k = Some (v\<lparr>value_data := StringData d'\<rparr>) \<and>
           parse_int d' = Some (w + word_of_nat n) \<and> (0 < n \<longrightarrow> d' = format_int (w + word_of_nat n))"
  using assms
proof (induction n arbitrary: db v d w)
  case 0
  then show ?case by (intro exI [of _ db] exI [of _ d]) simp
next
  case (Suc n)
  let ?v1 = "v\<lparr>value_data := StringData (format_int (w + 1))\<rparr>"
  let ?db1 = "db_store k ?v1 db"
  have wf: "value_wf v" by (rule db_lookup_wf [OF Suc.prems(1,2)])
  have step: "std_incr env db [k] = Inr ([format_int (w + 1)], ?db1)"
    using db_increment_eq [OF Suc.prems(1), of k] Suc.prems(2-4) by (simp add: std_incr_def)
  have inv1: "db_inv ?db1"
    using wf Suc.prems(3) by (intro db_store_inv [OF Suc.prems(1)]) (simp add: value_wf_def)
  obtain db' d' where IH: "incr_times n env k ?db1 = Inr db'" "db_inv db'"
      "db_lookup db' k = Some (?v1\<lparr>value_data := StringData d'\<rparr>)" "parse_int d' = Some (w + 1 + word_of_nat n)"
      "0 < n \<longrightarrow> d' = format_int (w + 1 + word_of_nat n)"
    using Suc.IH [OF inv1, of ?v1 "format_int (w + 1)" "w + 1"] by auto
  have "d' = format_int (w + word_of_nat (Suc n))"
  proof (cases n)
    case 0
    then have "db' = ?db1"
      using IH(1) by simp
    then have a: "db_lookup db' k = Some ?v1"
      by simp
    have "value_data (the (db_lookup db' k)) = StringData d'"
      using IH(3) by simp
    with a 0 show ?thesis by simp
  next
    case (Suc m)
    then show ?thesis using IH(5) by (simp add: ac_simps)
  qed
  then show ?case
    using step IH(1-4) by (intro exI [of _ db'] exI [of _ d']) (simp add: ac_simps)
qed

lemma add_entries_spec:
  "ss_inv s \<Longrightarrow>
   fst (add_entries es c s) = c + word_of_nat (card (set (map entry_member es) - dom (ss_abs s))) \<and>
   ss_inv (snd (add_entries es c s)) \<and> ss_abs (snd (add_entries es c s)) = add_scores (ss_abs s) es"
proof (induction es arbitrary: c s)
  case Nil
  then show ?case by (simp add: add_scores_def)
next
  case (Cons e es)
  obtain added s1 where a: "ss_add_entry e s = (added, s1)" by (cases "ss_add_entry e s")
  let ?m = "entry_member e" and ?D = "dom (ss_abs s)" and ?X = "set (map entry_member es)"
  have abs1: "ss_abs s1 = (ss_abs s)(?m \<mapsto> entry_score e)" and added: "added = (?m \<notin> ?D)"
    using ss_add_entry_abs_fst [of e s] a by simp_all
  have inv1: "ss_inv s1"
    using ss_add_entry_inv [OF Cons.prems, of e] a by simp
  have card: "card (insert ?m ?X - ?D) = (if added then Suc (card (?X - insert ?m ?D)) else card (?X - insert ?m ?D))"
  proof (cases added)
    case True
    then have "insert ?m ?X - ?D = insert ?m (?X - insert ?m ?D)" using added by auto
    then show ?thesis using True by simp
  next
    case False
    then have "insert ?m ?X - ?D = ?X - insert ?m ?D" using added by auto
    then show ?thesis using False by simp
  qed
  let ?c1 = "if added then c + 1 else c"
  have dom1: "dom (ss_abs s1) = insert ?m ?D"
    by (simp add: abs1)
  have IH: "fst (add_entries es ?c1 s1) = ?c1 + word_of_nat (card (?X - insert ?m ?D))"
    "ss_inv (snd (add_entries es ?c1 s1))" "ss_abs (snd (add_entries es ?c1 s1)) = add_scores (ss_abs s1) es"
    using Cons.IH [OF inv1, of ?c1] dom1 by simp_all
  have "?c1 + word_of_nat (card (?X - insert ?m ?D)) = c + word_of_nat (card (insert ?m ?X - ?D))"
    using card by (simp add: ac_simps)
  moreover have "add_scores (ss_abs s1) es = add_scores (ss_abs s) (e # es)"
    by (simp add: add_scores_def abs1)
  ultimately show ?case
    using IH a by simp
qed

lemma zadd_target_cases:
  fixes db :: "'s::linorder database"
  assumes "db_inv db" "spec_zset now db k = Some A"
  shows "\<exists>s db1. zadd_target now k db = Inr (Some (s, db1)) \<and> ss_inv s \<and> ss_abs s = A \<and> db_inv db1 \<and>
           (\<exists>v. db_lookup db1 k = Some v \<and> value_data_type v = SortedSetValue \<and> is_live now v) \<and>
           (\<forall>k'. k' \<noteq> k \<longrightarrow> db_lookup db1 k' = db_lookup db k')"
proof (cases "db_get now db k")
  case None
  have "ss_abs (create_sorted_set :: 's sorted_set) = Map.empty"
    by (simp add: ss_abs_def create_sorted_set_def)
  moreover have "db_inv (db_set_sorted_set k (create_sorted_set :: 's sorted_set) 0 db)"
    using db_set_sorted_set_inv [OF assms(1) ss_inv_create] .
  ultimately show ?thesis
    using None assms(2) ss_inv_create
    by (simp add: zadd_target_def spec_zset_def db_set_sorted_set_store is_live_def)
next
  case (Some v)
  then have lv: "db_lookup db k = Some v" "is_live now v" by (simp_all add: db_get_live)
  obtain s where s: "value_data v = SortedSetData s" "ss_abs s = A"
    using Some assms(2) by (auto simp: spec_zset_def split: value_data.splits)
  have "value_wf v" by (rule db_lookup_wf [OF assms(1) lv(1)])
  with s have "value_data_type v = SortedSetValue" "ss_inv s" by (simp_all add: value_wf_def)
  with Some s lv assms(1) show ?thesis
    by (auto simp: zadd_target_def value_get_type_def value_get_def)
qed


lemma zrange_loop_ranking:
  assumes "ss_inv s" "0 \<le> sint i" "sint i + int n \<le> int (ss_len s)" "ss_len s < 2 ^ 63"
  shows "\<exists>s'. zrange_loop i n s = Inr (map snd (take n (drop (nat (sint i)) (ranking (ss_abs s)))), s') \<and>
           ss_inv s' \<and> ss_abs s' = ss_abs s"
  using assms
proof (induction n arbitrary: i s)
  case 0
  then show ?case by simp
next
  case (Suc n)
  let ?R = "ranking (ss_abs s)" and ?j = "nat (sint i)"
  obtain e s1 where g: "ss_get (sint i) s = Inr (Some e, s1)" "?R ! ?j = (entry_score e, entry_member e)"
      "ss_inv s1" "ss_abs s1 = ss_abs s"
    using ss_get_nth [OF Suc.prems(1,2)] Suc.prems(3) by auto
  have len1: "ss_len s1 = ss_len s"
    using ss_len_ranking [OF g(3)] ss_len_ranking [OF Suc.prems(1)] g(4) by simp
  have j: "?j < length ?R"
    using Suc.prems(2,3) ss_len_ranking [OF Suc.prems(1)] by simp
  have i1: "sint (i + 1) = sint i + 1"
    using Suc.prems(3,4) by (simp add: sint_incr)
  obtain s' where r: "zrange_loop (i + 1) n s1 = Inr (map snd (take n (drop (nat (sint (i + 1))) (ranking (ss_abs s1)))), s')"
      "ss_inv s'" "ss_abs s' = ss_abs s1"
    using Suc.IH [OF g(3), of "i + 1"] i1 len1 Suc.prems(2-4) by auto
  have "drop ?j ?R = ?R ! ?j # drop (Suc ?j) ?R"
    using j by (simp add: Cons_nth_drop_Suc)
  moreover have "nat (sint (i + 1)) = Suc ?j"
    using i1 Suc.prems(2) by simp
  ultimately show ?case
    using g r by simp
qed

lemma ss_get_length:
  "ss_get i s = Inr (x, s') \<Longrightarrow> length (sorted_seq s') = length (sorted_seq s)"
  by (auto simp: ss_get_def Let_def split: if_splits)

text \<open>The Go loop and the counted loop agree while \<open>index++\<close> does not wrap, and the Go
  loop ends on every input: past the end of the sequence \<open>GetByRank\<close> answers \<open>nil\<close>
  and the loop panics, and a wrapped index is negative and panics.\<close>

lemma zrange_while_counted_aux:
  "sint stop < 2 ^ 63 - 1 \<Longrightarrow> nat (sint stop - sint i + 1) = n \<Longrightarrow>
   zrange_while i stop s = Some (zrange_loop i n s)"
proof (induction n arbitrary: i s)
  case 0
  then show ?case by (simp add: zrange_while.simps)
next
  case (Suc n)
  then have le: "sint i \<le> sint stop" by simp
  then have inc: "sint (i + 1) = sint i + 1" using Suc.prems(1) by (simp add: sint_incr)
  have n: "nat (sint stop - sint (i + 1) + 1) = n" using Suc.prems(2) inc by simp
  show ?case
    using le by (simp add: zrange_while.simps [of i] Suc.IH [OF Suc.prems(1) n]
        split: sum.split option.split prod.split)
qed

lemma zrange_while_terminates_aux:
  "nat (int (length (sorted_seq s)) - sint i) = m \<Longrightarrow> \<exists>r. zrange_while i stop s = Some r"
proof (induction m arbitrary: i s rule: less_induct)
  case (less m)
  show ?case
  proof (cases "sint stop < sint i")
    case True
    then show ?thesis by (simp add: zrange_while.simps [of i])
  next
    case False
    show ?thesis
    proof (cases "ss_get (sint i) s")
      case (Inl p)
      then show ?thesis using False by (simp add: zrange_while.simps [of i])
    next
      case (Inr x)
      obtain eo s' where x: "x = (eo, s')" by fastforce
      show ?thesis
      proof (cases eo)
        case None
        then show ?thesis using False Inr x by (simp add: zrange_while.simps [of i])
      next
        case (Some e)
        then have lt: "0 \<le> sint i" "sint i < int (length (sorted_seq s))"
          using Inr x by (auto simp: ss_get_def Let_def split: if_splits)
        have len: "length (sorted_seq s') = length (sorted_seq s)"
          using Inr x ss_get_length by blast
        have "\<exists>r. zrange_while (i + 1) stop s' = Some r"
        proof (cases "sint i = 2 ^ 63 - 1")
          case True
          then have "sint (i + 1) < 0" by (simp add: sint_incr)
          then show ?thesis
            using False True by (simp add: zrange_while.simps [of "i + 1"] ss_get_def Let_def)
        next
          case max: False
          then have "sint (i + 1) = sint i + 1" by (simp add: sint_incr)
          then have "nat (int (length (sorted_seq s')) - sint (i + 1)) < m"
            using less.prems lt len by simp
          then show ?thesis using less.IH by blast
        qed
        then show ?thesis using False Inr x Some by (auto simp: zrange_while.simps [of i])
      qed
    qed
  qed
qed

lemma clamp_stop_word:
  fixes stop :: int64
  assumes "n < 2 ^ 63"
  shows "sint (if sint stop < 0 then stop + word_of_nat n
               else if sint (word_of_nat n :: int64) \<le> sint stop then word_of_nat n - 1 else stop) =
         clamp_stop (int n) (sint stop)"
proof -
  have N: "sint (word_of_nat n :: int64) = int n" by (rule sint_of_nat_exact [OF assms])
  have r: "- (2 ^ 63) \<le> sint stop" "sint stop < 2 ^ 63" using sint_range [of stop] by simp_all
  show ?thesis
  proof (cases "sint stop < 0")
    case True
    then show ?thesis using N r assms by (simp add: clamp_stop_def sint_add_exact)
  next
    case False
    then show ?thesis
      using N r assms by (simp add: clamp_stop_def sint_diff_exact)
  qed
qed

lemma clamp_stop_bounds: "n < 2 ^ 63 \<Longrightarrow> clamp_stop (int n) stop < int n \<and> (0 \<le> stop \<longrightarrow> -1 \<le> clamp_stop (int n) stop)"
  by (simp add: clamp_stop_def)


lemma zrange_range_panic:
  assumes "ss_len s < 2 ^ 63" "sint start < 0" "clamp_stop (int (ss_len s)) (sint stop) < -1"
  shows "zrange_range k start stop s db = Inl MakeSliceLenPanic"
proof -
  let ?size = "word_of_nat (ss_len s) :: int64"
  let ?stop' = "if sint stop < 0 then stop + ?size else if sint ?size \<le> sint stop then ?size - 1 else stop"
  have S1: "sint ?stop' = clamp_stop (int (ss_len s)) (sint stop)"
    by (rule clamp_stop_word [OF assms(1)])
  have "sint (?stop' - 0) = sint ?stop'" by simp
  moreover have "sint (?stop' + 1) = sint ?stop' + 1"
    using S1 assms(3) sint_range [of ?stop'] sint_add_exact [of ?stop' 1] by simp
  ultimately have "sint (?stop' - 0 + 1) < 0"
    using S1 assms(3) by simp
  then show ?thesis
    using assms(2) by (simp add: zrange_range_def Let_def)
qed

lemma zrange_range_members:
  assumes inv: "ss_inv s" and n: "ss_len s < 2 ^ 63"
    and ok: "\<not> (sint start < 0 \<and> clamp_stop (int (ss_len s)) (sint stop) < -1)"
  shows "\<exists>s'. ss_inv s' \<and> ss_abs s' = ss_abs s \<and>
           (zrange_range k start stop s db = Inr (spec_zrange (ranking (ss_abs s)) (sint start) (sint stop), db) \<or>
            zrange_range k start stop s db = Inr (spec_zrange (ranking (ss_abs s)) (sint start) (sint stop), db_write_set k s' db))"
proof -
  let ?N = "int (ss_len s)" and ?R = "ranking (ss_abs s)"
  let ?size = "word_of_nat (ss_len s) :: int64"
  let ?stop' = "if sint stop < 0 then stop + ?size else if sint ?size \<le> sint stop then ?size - 1 else stop"
  let ?start' = "if sint start < 0 then 0 else start :: int64"
  let ?S1 = "clamp_stop ?N (sint stop)" and ?T = "max (sint start) 0"
  have lenR: "length ?R = ss_len s" by (rule ss_len_ranking [OF inv])
  have S1: "sint ?stop' = ?S1" by (rule clamp_stop_word [OF n])
  have S1N: "?S1 < ?N" using clamp_stop_bounds [OF n] by blast
  have T: "sint ?start' = ?T" by simp
  show ?thesis
  proof (cases "0 \<le> sint start \<and> ?S1 < sint start")
    case True
    then have "zrange_range k start stop s db = Inr ([], db)"
      using S1 by (simp add: zrange_range_def Let_def empty_result_def)
    moreover have "spec_zrange ?R (sint start) (sint stop) = []"
      using True lenR by (simp add: spec_zrange_def Let_def)
    ultimately show ?thesis using inv by auto
  next
    case False
    have TS1: "?T \<le> ?S1 + 1"
      using False ok by auto
    define st where "st = ?stop'"
    define sa where "sa = ?start'"
    have st: "sint st = ?S1" and sa: "sint sa = ?T"
      using S1 T by (simp_all add: st_def sa_def)
    have unf: "zrange_range k start stop s db =
        (if 0 \<le> sint start \<and> sint st < sint start then Inr (empty_result, db)
         else if sint (st - sa + 1) < 0 then Inl MakeSliceLenPanic
         else (case zrange_loop sa (nat (sint (st - sa + 1))) s of
                 Inl p \<Rightarrow> Inl p
               | Inr (ms, s') \<Rightarrow> Inr (ms, db_write_set k s' db)))"
      unfolding zrange_range_def Let_def st_def sa_def ..
    have l: "sint (st - sa + 1) = ?S1 - ?T + 1"
      using sint_diff_add1_exact [of st sa] st sa TS1 S1N n sint_range [of st] by simp
    obtain s' where loop: "zrange_loop sa (nat (?S1 - ?T + 1)) s =
          Inr (map snd (take (nat (?S1 - ?T + 1)) (drop (nat ?T) ?R)), s')" "ss_inv s'" "ss_abs s' = ss_abs s"
      using zrange_loop_ranking [OF inv, of sa "nat (?S1 - ?T + 1)"] sa TS1 S1N n by auto
    have "map snd (take (nat (?S1 - ?T + 1)) (drop (nat ?T) ?R)) = spec_zrange ?R (sint start) (sint stop)"
      using TS1 lenR by (auto simp: spec_zrange_def Let_def)
    then have "zrange_range k start stop s db = Inr (spec_zrange ?R (sint start) (sint stop), db_write_set k s' db)"
      using unf False st l TS1 loop(1) by simp
    then show ?thesis using loop(2,3) by blast
  qed
qed

subsection \<open>Properties of the handlers\<close>

text \<open>After \<open>SET key value\<close>, \<open>GET key\<close> answers \<open>[value]\<close> at any later
  time (round trip, spec section 8).\<close>

theorem std_set_get:
  "\<exists>db'. std_set env db [k, v] = Inr (ok_result, db') \<and> std_get env' db' [k] = Inr ([v], db')"
  by (simp add: std_set_def std_get_def db_set_single_value_store db_has_def is_live_def
      db_get_single_value_def)

text \<open>C16: after \<open>SET key value EX seconds\<close> at time \<open>now\<close>, the key is live
  at time \<open>t\<close> exactly when \<open>t < now + seconds\<close> in int64 arithmetic, or when that sum is
  0 (never). At \<open>t = now + seconds\<close> the key is already gone, while the spec keeps it for
  every clock reading up to \<open>now + seconds\<close>; a sum that wraps or is 0 is not covered by
  the spec.\<close>

theorem std_set_ex_expiry:
  assumes "parse_int secs = Some S"
  shows "\<exists>db'. std_set_ex env db [k, v, ''EX'', secs] = Inr (ok_result, db') \<and>
           (db_has t db' k \<longleftrightarrow> sint t < sint (env_now env + S) \<or> env_now env + S = 0)"
  using assms by (simp add: std_set_ex_def db_set_single_value_store db_has_def is_live_def)

text \<open>\<open>DEL k1 ... kn\<close> removes every listed key, expired or not, and
  answers the number of distinct listed keys that were physically present.\<close>

theorem std_del_count:
  "ks \<noteq> [] \<Longrightarrow>
   std_del env db ks = Inr ([format_int (word_of_nat (card (set ks \<inter> fst ` set (db_data db))))],
                            db\<lparr>db_data := filter (\<lambda>(k, v). k \<notin> set ks) (db_data db)\<rparr>)"
  by (simp add: std_del_def del_loop_result)

text \<open>\<open>DEL key\<close> a second time answers \<open>0\<close> (idempotence, spec section 8).\<close>

theorem std_del_twice:
  "\<exists>r db' db''. std_del env db [k] = Inr (r, db') \<and> std_del env db' [k] = Inr ([''0''], db'')"
  by (simp add: std_del_def del_loop_result image_def)

text \<open>\<open>ZCARD key\<close> on a string stored without expiry, and
  \<open>GET key\<close> on a sorted set stored without expiry, panic in the type assertion of the
  store's typed getter.\<close>

theorem std_typed_handlers_panic:
  "std_zcard env (db_set_single_value k d 0 db) [k] = Inl TypeAssertionPanic \<and>
   std_get env (db_set_sorted_set k s 0 db) [k] = Inl TypeAssertionPanic"
  by (simp add: std_zcard_def std_get_def db_set_single_value_store db_set_sorted_set_store
      db_get_sorted_set_def db_get_single_value_def db_has_def is_live_def)

text \<open>\<open>n\<close> INCRs of a key holding \<open>"0"\<close> (for \<open>0 < n < 2^63\<close>)
  leave the decimal text of \<open>n\<close>, which GET answers (spec section 8).\<close>

theorem std_incr_sequence:
  assumes "db_inv db" "db_lookup db k = Some \<lparr>value_data_type = SingleValue, value_expire_time = 0, value_data = StringData ''0''\<rparr>"
    and "0 < n" "n < 2 ^ 63"
  shows "\<exists>db'. incr_times n env k db = Inr db' \<and> std_get env db' [k] = Inr ([nat_digits n], db')"
proof -
  have "parse_int ''0'' = Some 0" by (simp add: go_lib_simps)
  then obtain db' d' where r: "incr_times n env k db = Inr db'"
      "db_lookup db' k = Some \<lparr>value_data_type = SingleValue, value_expire_time = 0, value_data = StringData d'\<rparr>"
      "d' = format_int (word_of_nat n)"
    using incr_times_from [OF assms(1,2), of "''0''" 0 n env] assms(3) by auto
  have "d' = nat_digits n" using r(3) format_int_of_nat [OF assms(4)] by simp
  then show ?thesis
    using r by (simp add: std_get_def db_has_def is_live_def db_get_single_value_def)
qed

text \<open>C9: when the key is absent, expired or holds a set, and every score
  parses, ZADD sets each listed member's score (later pairs win), answers the number of
  listed members that were not in the set, and changes no other key.\<close>

theorem std_zadd_adds:
  assumes inv: "db_inv db" and zs: "spec_zset (env_now env) db k = Some A"
    and len: "2 \<le> length rest" "even (length rest)"
    and parse: "parse_entries (env_parse_float env) rest = Some es"
  shows "\<exists>s' db'. std_zadd env db (k # rest) =
             Inr ([format_int (word_of_nat (card (set (map entry_member es) - dom A)))], db') \<and>
           db_inv db' \<and> (\<exists>v. db_lookup db' k = Some v \<and> value_data v = SortedSetData s' \<and> is_live (env_now env) v) \<and>
           ss_abs s' = add_scores A es \<and> (\<forall>k'. k' \<noteq> k \<longrightarrow> db_lookup db' k' = db_lookup db k')"
proof -
  obtain s db1 v where t: "zadd_target (env_now env) k db = Inr (Some (s, db1))" "ss_inv s" "ss_abs s = A"
      "db_inv db1" "db_lookup db1 k = Some v" "value_data_type v = SortedSetValue" "is_live (env_now env) v"
      "\<forall>k'. k' \<noteq> k \<longrightarrow> db_lookup db1 k' = db_lookup db k'"
    using zadd_target_cases [OF inv zs] by blast
  obtain c s' where a: "add_entries es 0 s = (c, s')" by (cases "add_entries es 0 s")
  have sp: "c = word_of_nat (card (set (map entry_member es) - dom A))" "ss_inv s'" "ss_abs s' = add_scores A es"
    using add_entries_spec [OF t(2), of es 0] a t(3) by simp_all
  have "db_inv (db_write_set k s' db1)"
    by (rule db_write_set_inv [OF t(4,5,6) sp(2)])
  moreover have "std_zadd env db (k # rest) = Inr ([format_int c], db_write_set k s' db1)"
    using len t(1) parse a by (simp add: std_zadd_def)
  ultimately show ?thesis
    using sp t(5,7,8) by (intro exI [of _ s'] exI [of _ "db_write_set k s' db1"]) (simp add: is_live_def)
qed

text \<open>C29: ZADD creates the empty set at an absent key before it
  parses the scores, so a ZADD with an invalid score answers \<open>invalid parameter value\<close>
  but leaves a live empty sorted set behind; the spec says validation failure is a no-op.\<close>

theorem std_zadd_invalid_creates:
  assumes "db_get (env_now env) db k = None" "2 \<le> length rest" "even (length rest)"
    and "parse_entries (env_parse_float env) rest = None"
  shows "\<exists>db'. std_zadd env db (k # rest) = Inr (invalid_parameter_value_result, db') \<and>
           db_has (env_now env) db' k \<and> std_zcard env db' [k] = Inr ([''0''], db')"
  using assms
  by (simp add: std_zadd_def zadd_target_def db_set_sorted_set_store db_has_def is_live_def std_zcard_def
      db_get_sorted_set_def ss_len_def create_sorted_set_def)

text \<open>C10: ZRANGE on a set answers the members at the positions of the
  spec's interval (negative stop counts from the end, stop clamped to the last position,
  negative start raised to 0, empty when start is past stop), in score order, whenever it
  does not panic.\<close>

theorem std_zrange_spec:
  assumes inv: "db_inv db" and get: "db_get_sorted_set (env_now env) db k = Inr (Some s)"
    and n: "ss_len s < 2 ^ 63" and p: "parse_int a = Some start" "parse_int b = Some stop"
    and ok: "\<not> (sint start < 0 \<and> clamp_stop (int (ss_len s)) (sint stop) < -1)"
  shows "\<exists>db'. std_zrange env db [k, a, b] = Inr (spec_zrange (ranking (ss_abs s)) (sint start) (sint stop), db') \<and>
           db_inv db'"
proof -
  obtain v where v: "db_lookup db k = Some v" "value_data_type v = SortedSetValue" "ss_inv s"
    using db_get_sorted_set_some [OF inv get] by blast
  obtain s' where s': "ss_inv s'"
    "zrange_range k start stop s db = Inr (spec_zrange (ranking (ss_abs s)) (sint start) (sint stop), db) \<or>
     zrange_range k start stop s db = Inr (spec_zrange (ranking (ss_abs s)) (sint start) (sint stop), db_write_set k s' db)"
    using zrange_range_members [OF v(3) n ok, of k db] by blast
  have std: "std_zrange env db [k, a, b] = zrange_range k start stop s db"
    using get p by (simp add: std_zrange_def)
  have "db_inv (db_write_set k s' db)"
    by (rule db_write_set_inv [OF inv v(1,2) s'(1)])
  with s'(2) std inv show ?thesis by auto
qed

text \<open>C11: with a negative start and a negative stop that lies more than
  one position before the first member (for example \<open>ZRANGE s -3 -10\<close> on a set of five),
  ZRANGE panics in \<open>make([]string, stop-start+1)\<close>; the spec answers the empty sequence.\<close>

theorem std_zrange_panics:
  assumes get: "db_get_sorted_set (env_now env) db k = Inr (Some s)" and n: "ss_len s < 2 ^ 63"
    and p: "parse_int a = Some start" "parse_int b = Some stop"
    and neg: "sint start < 0" "sint stop < 0" "sint stop + int (ss_len s) < -1"
  shows "std_zrange env db [k, a, b] = Inl MakeSliceLenPanic"
proof -
  have "clamp_stop (int (ss_len s)) (sint stop) < -1"
    using neg by (simp add: clamp_stop_def)
  then have "zrange_range k start stop s db = Inl MakeSliceLenPanic"
    using zrange_range_panic [OF n neg(1)] by blast
  then show ?thesis
    using get p by (simp add: std_zrange_def)
qed

text \<open>ZRANK of a present member answers its position in the set's
  score order.\<close>

theorem std_zrank_spec:
  assumes inv: "db_inv db" and get: "db_get_sorted_set (env_now env) db k = Inr (Some s)"
    and n: "ss_len s < 2 ^ 63" and m: "ss_abs s m = Some sc"
  shows "\<exists>j db'. std_zrank env db [k, m] = Inr ([format_int (word_of_nat j)], db') \<and>
           ranking (ss_abs s) ! j = (sc, m) \<and> db_inv db'"
proof -
  obtain v where v: "db_lookup db k = Some v" "value_data_type v = SortedSetValue" "ss_inv s"
    using db_get_sorted_set_some [OF inv get] by blast
  obtain j where j: "j < length (ranking (ss_abs s))" "ranking (ss_abs s) ! j = (sc, m)"
      "fst (ss_get_rank m s) = word_of_nat j"
    using ss_get_rank_pos [OF v(3) m] by blast
  obtain s' where r: "ss_get_rank m s = (word_of_nat j, s')"
    using j(3) by (cases "ss_get_rank m s") simp
  have "ss_inv s'"
    using r v(3) ss_check_sort_inv [OF v(3)] by (auto simp: ss_get_rank_def Let_def split: option.splits)
  then have inv': "db_inv (db_write_set k s' db)"
    by (rule db_write_set_inv [OF inv v(1,2)])
  have "0 \<le> sint (word_of_nat j :: int64)"
    using j(1) n ss_len_ranking [OF v(3)] by (simp add: sint_of_nat_exact)
  then have "std_zrank env db [k, m] = Inr ([format_int (word_of_nat j)], db_write_set k s' db)"
    using get r by (simp add: std_zrank_def)
  with j(2) inv' show ?thesis by blast
qed

text \<open>The ZRANGE loop of the source, \<open>for index := start; index <= stop;
  index++\<close> over wrapping int64, ends on every start, stop and sorted set: its value is never
  the \<open>None\<close> of a loop that runs forever.\<close>

theorem zrange_while_terminates: "\<exists>r. zrange_while i stop s = Some r"
  using zrange_while_terminates_aux by blast

text \<open>While \<open>stop\<close> is below the largest int64 (so \<open>index++\<close> cannot wrap
  before the test fails), the Go loop computes exactly the counted loop of
  \<open>stop - start + 1\<close> iterations that the model of ZRANGE uses.\<close>

theorem zrange_while_counted:
  "sint stop < 2 ^ 63 - 1 \<Longrightarrow>
   zrange_while i stop s = Some (zrange_loop i (nat (sint stop - sint i + 1)) s)"
  using zrange_while_counted_aux by blast

subsection \<open>Witnesses\<close>

text \<open>An environment at time 100 whose float parser reads decimal integers, and a
  database holding the example set (members \<open>a\<close> with score 2, \<open>b\<close> with score 1).\<close>

abbreviation example_env :: "int env" where
  "example_env \<equiv> \<lparr>env_now = 100, env_parse_float = parse_decimal\<rparr>"

abbreviation example_zdb :: "int database" where
  "example_zdb \<equiv> db_store ''s'' \<lparr>value_data_type = SortedSetValue, value_expire_time = 0, value_data = SortedSetData example_set\<rparr> db_create"

lemma example_zdb_inv: "db_inv example_zdb"
  using example_set_inv by (simp add: db_inv_def db_store_def db_create_def value_wf_def)

lemma example_zdb_get: "db_get_sorted_set 100 example_zdb ''s'' = Inr (Some example_set)"
  by (simp add: db_get_sorted_set_def db_lookup_def db_store_def db_create_def)

lemma example_set_len: "ss_len example_set < 2 ^ 63"
  by (simp add: ss_len_def ss_add_def create_sorted_set_def)

theorem std_set_ex_expiry_witness:
  "parse_int ''2'' = Some 2 \<and>
   (\<exists>db'. std_set_ex example_env example_db [''k'', ''v'', ''EX'', ''2''] = Inr (ok_result, db') \<and>
      (db_has 102 db' ''k'' \<longleftrightarrow> sint (102 :: int64) < sint (env_now example_env + 2) \<or> env_now example_env + 2 = 0))"
proof -
  have h: "parse_int ''2'' = Some 2" by (simp add: go_lib_simps)
  show ?thesis using std_set_ex_expiry [OF h, of example_env example_db "''k''" "''v''" 102] h by blast
qed

theorem std_del_count_witness:
  "[''n'', ''x''] \<noteq> [] \<and>
   std_del example_env example_db [''n'', ''x''] =
     Inr ([format_int (word_of_nat (card (set [''n'', ''x''] \<inter> fst ` set (db_data example_db))))],
          example_db\<lparr>db_data := filter (\<lambda>(k, v). k \<notin> set [''n'', ''x'']) (db_data example_db)\<rparr>)"
  using std_del_count [of "[''n'', ''x'']" example_env example_db] by simp

theorem std_incr_sequence_witness:
  "db_inv (db_store ''race'' \<lparr>value_data_type = SingleValue, value_expire_time = 0, value_data = StringData ''0''\<rparr> (db_create :: int database)) \<and>
   db_lookup (db_store ''race'' \<lparr>value_data_type = SingleValue, value_expire_time = 0, value_data = StringData ''0''\<rparr> (db_create :: int database)) ''race'' =
     Some \<lparr>value_data_type = SingleValue, value_expire_time = 0, value_data = StringData ''0''\<rparr> \<and>
   0 < (3::nat) \<and> (3::nat) < 2 ^ 63 \<and>
   (\<exists>db'. incr_times 3 example_env ''race''
             (db_store ''race'' \<lparr>value_data_type = SingleValue, value_expire_time = 0, value_data = StringData ''0''\<rparr> db_create) = Inr db' \<and>
          std_get example_env db' [''race''] = Inr ([nat_digits 3], db'))"
proof -
  have h: "db_inv (db_store ''race'' \<lparr>value_data_type = SingleValue, value_expire_time = 0, value_data = StringData ''0''\<rparr> (db_create :: int database))"
    "db_lookup (db_store ''race'' \<lparr>value_data_type = SingleValue, value_expire_time = 0, value_data = StringData ''0''\<rparr> (db_create :: int database)) ''race'' =
     Some \<lparr>value_data_type = SingleValue, value_expire_time = 0, value_data = StringData ''0''\<rparr>"
    "0 < (3::nat)" "(3::nat) < 2 ^ 63"
    by (simp_all add: db_inv_def db_store_def db_create_def db_lookup_def value_wf_def)
  show ?thesis using std_incr_sequence [OF h, of example_env] h by blast
qed

theorem std_zadd_adds_witness:
  "db_inv (db_create :: int database) \<and> spec_zset 100 (db_create :: int database) ''z'' = Some Map.empty \<and>
   2 \<le> length [''1'', ''one'', ''2'', ''two''] \<and> even (length [''1'', ''one'', ''2'', ''two'']) \<and>
   parse_entries parse_decimal [''1'', ''one'', ''2'', ''two''] =
     Some [create_sorted_set_entry ''one'' 1, create_sorted_set_entry ''two'' 2] \<and>
   (\<exists>s' db'. std_zadd example_env db_create [''z'', ''1'', ''one'', ''2'', ''two''] =
       Inr ([format_int (word_of_nat (card (set (map entry_member [create_sorted_set_entry ''one'' (1::int), create_sorted_set_entry ''two'' 2]) - dom Map.empty)))], db') \<and>
     db_inv db' \<and> (\<exists>v. db_lookup db' ''z'' = Some v \<and> value_data v = SortedSetData s' \<and> is_live 100 v) \<and>
     ss_abs s' = add_scores Map.empty [create_sorted_set_entry ''one'' 1, create_sorted_set_entry ''two'' 2] \<and>
     db_lookup db' ''y'' = None)"
proof -
  have h: "db_inv (db_create :: int database)" "spec_zset 100 (db_create :: int database) ''z'' = Some Map.empty"
    "2 \<le> length [''1'', ''one'', ''2'', ''two'']" "even (length [''1'', ''one'', ''2'', ''two''])"
    "parse_entries parse_decimal [''1'', ''one'', ''2'', ''two''] =
       Some [create_sorted_set_entry ''one'' 1, create_sorted_set_entry ''two'' 2]"
    by (simp_all add: db_inv_def db_create_def spec_zset_def db_get_def db_lookup_def go_lib_simps)
  have "db_inv (db_create :: int database)" "spec_zset (env_now example_env) (db_create :: int database) ''z'' = Some Map.empty"
    "parse_entries (env_parse_float example_env) [''1'', ''one'', ''2'', ''two''] =
       Some [create_sorted_set_entry ''one'' 1, create_sorted_set_entry ''two'' 2]"
    using h by simp_all
  from std_zadd_adds [OF this(1,2) h(3,4) this(3)] h show ?thesis by (auto simp: db_lookup_def db_create_def)
qed

theorem std_zadd_invalid_creates_witness:
  "db_get 100 (db_create :: int database) ''z'' = None \<and> 2 \<le> length [''x'', ''m''] \<and> even (length [''x'', ''m'']) \<and>
   parse_entries parse_decimal [''x'', ''m''] = None \<and>
   (\<exists>db'. std_zadd example_env db_create [''z'', ''x'', ''m''] = Inr (invalid_parameter_value_result, db') \<and>
      db_has 100 db' ''z'' \<and> std_zcard example_env db' [''z''] = Inr ([''0''], db'))"
proof -
  have h: "db_get (env_now example_env) (db_create :: int database) ''z'' = None" "2 \<le> length [''x'', ''m'']"
    "even (length [''x'', ''m''])" "parse_entries (env_parse_float example_env) [''x'', ''m''] = None"
    by (simp_all add: db_get_def db_lookup_def db_create_def go_lib_simps)
  show ?thesis using std_zadd_invalid_creates [OF h] h by simp
qed

theorem std_zrange_spec_witness:
  "db_inv example_zdb \<and> db_get_sorted_set 100 example_zdb ''s'' = Inr (Some example_set) \<and>
   ss_len example_set < 2 ^ 63 \<and> parse_int ''0'' = Some 0 \<and> parse_int ''-1'' = Some (-1) \<and>
   \<not> (sint (0 :: int64) < 0 \<and> clamp_stop (int (ss_len example_set)) (sint (-1 :: int64)) < -1) \<and>
   (\<exists>db'. std_zrange example_env example_zdb [''s'', ''0'', ''-1''] =
      Inr (spec_zrange (ranking (ss_abs example_set)) (sint (0 :: int64)) (sint (-1 :: int64)), db') \<and> db_inv db')"
proof -
  have p: "parse_int ''0'' = Some 0" "parse_int ''-1'' = Some (-1)"
    by (simp_all add: go_lib_simps)
  have ok: "\<not> (sint (0 :: int64) < 0 \<and> clamp_stop (int (ss_len example_set)) (sint (-1 :: int64)) < -1)"
    by simp
  show ?thesis
    using std_zrange_spec [OF example_zdb_inv _ example_set_len p ok, of example_env] example_zdb_get
      example_zdb_inv example_set_len p ok
    by simp
qed

theorem std_zrange_panics_witness:
  "db_get_sorted_set 100 example_zdb ''s'' = Inr (Some example_set) \<and> ss_len example_set < 2 ^ 63 \<and>
   parse_int ''-3'' = Some (-3) \<and> parse_int ''-10'' = Some (-10) \<and>
   sint (-3 :: int64) < 0 \<and> sint (-10 :: int64) < 0 \<and> sint (-10 :: int64) + int (ss_len example_set) < -1 \<and>
   std_zrange example_env example_zdb [''s'', ''-3'', ''-10''] = Inl MakeSliceLenPanic"
proof -
  have h: "parse_int ''-3'' = Some (-3)" "parse_int ''-10'' = Some (-10)"
    "sint (-3 :: int64) < 0" "sint (-10 :: int64) < 0" "sint (-10 :: int64) + int (ss_len example_set) < -1"
    by (simp_all add: go_lib_simps ss_len_def ss_add_def create_sorted_set_def)
  show ?thesis
    using std_zrange_panics [OF _ example_set_len h, of example_env example_zdb "''s''"] example_zdb_get example_set_len h
    by simp
qed

theorem std_zrank_spec_witness:
  "db_inv example_zdb \<and> db_get_sorted_set 100 example_zdb ''s'' = Inr (Some example_set) \<and>
   ss_len example_set < 2 ^ 63 \<and> ss_abs example_set ''a'' = Some 2 \<and>
   (\<exists>j db'. std_zrank example_env example_zdb [''s'', ''a''] = Inr ([format_int (word_of_nat j)], db') \<and>
      ranking (ss_abs example_set) ! j = (2, ''a'') \<and> db_inv db')"
  using std_zrank_spec [OF example_zdb_inv _ example_set_len example_set_abs_a, of example_env] example_zdb_get
    example_zdb_inv example_set_len example_set_abs_a
  by simp

theorem zrange_while_counted_witness:
  "zrange_while 0 1 example_set = Some (zrange_loop 0 2 example_set)"
  using zrange_while_counted [of 1 0 example_set] by simp

end
