(* ===== verification/Parser.thy ===== *)
theory Parser
  imports Prelude
begin

text \<open>
  The command-line tokenizer \<open>Runtime.parseCommand\<close> of \<open>src/source/vm/runtime.go\<close>. The Go
  function appends a space to the line and runs one loop over its runes with four local
  variables (\<open>inString\<close>, \<open>escapeChar\<close>, \<open>identifierOK\<close>, \<open>currentValue\<close>) and the command
  under construction; the model keeps all of them in the record \<open>parse_state\<close>, one
  iteration is \<open>parse_step\<close> (\<open>None\<close> is an early \<open>return nil\<close>), the loop is
  \<open>parse_loop\<close>, and \<open>parse_command\<close> adds the final test.

  Proved here: a backslash anywhere in a line makes the parse fail (the flag \<open>escapeChar\<close>
  is never reset, so the escapes the spec describes never work); blank lines fail; plain
  tokens separated by spaces, and parameters written between double quotes, are read
  back exactly (round trips with the printers \<open>print_plain\<close> and \<open>print_quoted\<close>); a
  parsed identifier is non-empty and upper-case.
\<close>

abbreviation space_char :: char where "space_char \<equiv> CHR '' ''"
abbreviation quote_char :: char where "quote_char \<equiv> CHR 0x22"
abbreviation backslash_char :: char where "backslash_char \<equiv> CHR 0x5C"

text \<open>The \<open>command\<close> struct of \<open>vm.go\<close>.\<close>

record command =
  cmd_identifier :: string
  cmd_parameters :: "string list"

record parse_state =
  ps_in_string :: bool
  ps_escape :: bool
  ps_identifier_ok :: bool
  ps_current :: string
  ps_identifier :: string
  ps_parameters :: "string list"

definition parse_init :: parse_state where
  "parse_init = \<lparr>ps_in_string = False, ps_escape = False, ps_identifier_ok = False, ps_current = [],
                 ps_identifier = [], ps_parameters = []\<rparr>"

text \<open>One iteration of the \<open>for _, currentChar := range line\<close> loop.\<close>

definition parse_step :: "parse_state \<Rightarrow> char \<Rightarrow> parse_state option" where
  "parse_step st c =
     (if ps_escape st then
        (if \<not> ps_identifier_ok st then None else Some (st\<lparr>ps_current := ps_current st @ [c]\<rparr>))
      else if c = quote_char then
        (if \<not> ps_identifier_ok st then None
         else (let st' = (if ps_in_string st
                          then st\<lparr>ps_parameters := ps_parameters st @ [ps_current st], ps_current := []\<rparr>
                          else st)
               in Some (st'\<lparr>ps_in_string := \<not> ps_in_string st\<rparr>)))
      else if c = space_char then
        (if ps_in_string st then Some (st\<lparr>ps_current := ps_current st @ [c]\<rparr>)
         else if ps_current st = [] then Some st
         else if \<not> ps_identifier_ok st then
           Some (st\<lparr>ps_identifier := to_upper (ps_current st), ps_identifier_ok := True, ps_current := []\<rparr>)
         else Some (st\<lparr>ps_parameters := ps_parameters st @ [ps_current st], ps_current := []\<rparr>))
      else if c = backslash_char then
        (if \<not> ps_in_string st then None else Some (st\<lparr>ps_escape := True\<rparr>))
      else Some (st\<lparr>ps_current := ps_current st @ [c]\<rparr>))"

fun parse_loop :: "string \<Rightarrow> parse_state \<Rightarrow> parse_state option" where
  "parse_loop [] st = Some st"
| "parse_loop (c # cs) st = (case parse_step st c of None \<Rightarrow> None | Some st' \<Rightarrow> parse_loop cs st')"

definition parse_command :: "string \<Rightarrow> command option" where
  "parse_command line =
     (case parse_loop (line @ [space_char]) parse_init of
        None \<Rightarrow> None
      | Some st \<Rightarrow>
          (if ps_in_string st \<or> \<not> ps_identifier_ok st then None
           else Some \<lparr>cmd_identifier = ps_identifier st, cmd_parameters = ps_parameters st\<rparr>))"

subsection \<open>Printers\<close>

text \<open>Two ways to write a command: tokens separated by single spaces, and the identifier
  followed by every parameter between double quotes.\<close>

definition plain_char :: "char \<Rightarrow> bool" where
  "plain_char c \<longleftrightarrow> c \<noteq> space_char \<and> c \<noteq> quote_char \<and> c \<noteq> backslash_char"

definition plain_token :: "string \<Rightarrow> bool" where
  "plain_token w \<longleftrightarrow> w \<noteq> [] \<and> list_all plain_char w"

definition quotable :: "string \<Rightarrow> bool" where
  "quotable w \<longleftrightarrow> list_all (\<lambda>c. c \<noteq> quote_char \<and> c \<noteq> backslash_char) w"

definition print_plain :: "string \<Rightarrow> string list \<Rightarrow> string" where
  "print_plain i ps = i @ concat (map (\<lambda>p. space_char # p) ps)"

definition print_quoted :: "string \<Rightarrow> string list \<Rightarrow> string" where
  "print_quoted i ps = i @ concat (map (\<lambda>p. space_char # quote_char # p @ [quote_char]) ps)"

text \<open>What every state reached by the loop satisfies: an escape happens inside a string, and
  a committed identifier is non-empty and upper-case.\<close>

definition parse_inv :: "parse_state \<Rightarrow> bool" where
  "parse_inv st \<longleftrightarrow> (ps_escape st \<longrightarrow> ps_in_string st) \<and>
     (ps_identifier_ok st \<longrightarrow> ps_identifier st \<noteq> [] \<and> to_upper (ps_identifier st) = ps_identifier st)"

text \<open>The state of the loop after the identifier is committed, between tokens.\<close>

definition parse_ready :: "string \<Rightarrow> string list \<Rightarrow> parse_state" where
  "parse_ready i qs = \<lparr>ps_in_string = False, ps_escape = False, ps_identifier_ok = True, ps_current = [],
                       ps_identifier = i, ps_parameters = qs\<rparr>"

subsection \<open>The loop\<close>

lemma parse_loop_append:
  "parse_loop (xs @ ys) st = (case parse_loop xs st of None \<Rightarrow> None | Some st' \<Rightarrow> parse_loop ys st')"
  by (induction xs arbitrary: st) (simp_all split: option.split)

lemma parse_step_plain:
  "plain_char c \<Longrightarrow> \<not> ps_escape st \<Longrightarrow> parse_step st c = Some (st\<lparr>ps_current := ps_current st @ [c]\<rparr>)"
  by (simp add: parse_step_def plain_char_def)

lemma parse_loop_plain:
  "list_all plain_char w \<Longrightarrow> \<not> ps_escape st \<Longrightarrow>
   parse_loop (w @ cs) st = parse_loop cs (st\<lparr>ps_current := ps_current st @ w\<rparr>)"
  by (induction w arbitrary: st) (simp_all add: parse_step_plain)

lemma parse_loop_in_string:
  "quotable w \<Longrightarrow> ps_in_string st \<Longrightarrow> \<not> ps_escape st \<Longrightarrow>
   parse_loop (w @ cs) st = parse_loop cs (st\<lparr>ps_current := ps_current st @ w\<rparr>)"
  by (induction w arbitrary: st) (simp_all add: quotable_def parse_step_def)

text \<open>Once \<open>escapeChar\<close> is set it stays set, and so does \<open>inString\<close>: every later rune is
  appended to the current value, and no quote can close the string.\<close>

lemma parse_loop_escaped:
  "ps_escape st \<Longrightarrow> parse_loop cs st = None \<or> (\<exists>st'. parse_loop cs st = Some st' \<and> ps_in_string st' = ps_in_string st)"
proof (induction cs arbitrary: st)
  case Nil
  then show ?case by simp
next
  case (Cons c cs)
  show ?case
  proof (cases "ps_identifier_ok st")
    case True
    have "ps_escape (st\<lparr>ps_current := ps_current st @ [c]\<rparr>)" using Cons.prems by simp
    from Cons.IH [OF this] True Cons.prems show ?thesis by (simp add: parse_step_def)
  next
    case False
    with Cons.prems show ?thesis by (simp add: parse_step_def)
  qed
qed

lemma parse_inv_init: "parse_inv parse_init"
  by (simp add: parse_inv_def parse_init_def)

lemma parse_step_inv: "parse_step st c = Some st' \<Longrightarrow> parse_inv st \<Longrightarrow> parse_inv st'"
  by (auto simp: parse_step_def parse_inv_def to_upper_def Let_def split: if_splits)

lemma parse_loop_inv: "parse_loop cs st = Some st' \<Longrightarrow> parse_inv st \<Longrightarrow> parse_inv st'"
  by (induction cs arbitrary: st) (auto split: option.splits dest: parse_step_inv)

lemma parse_loop_backslash:
  assumes "parse_inv st"
  shows "parse_loop (backslash_char # cs) st = None \<or>
         (\<exists>st'. parse_loop (backslash_char # cs) st = Some st' \<and> ps_in_string st')"
proof (cases "ps_escape st")
  case True
  then have "ps_in_string st" using assms by (simp add: parse_inv_def)
  with True show ?thesis using parse_loop_escaped [of st "backslash_char # cs"] by auto
next
  case False
  show ?thesis
  proof (cases "ps_in_string st")
    case True
    then have "ps_escape (st\<lparr>ps_escape := True\<rparr>)" "ps_in_string (st\<lparr>ps_escape := True\<rparr>)" by simp_all
    then show ?thesis
      using False True parse_loop_escaped [of "st\<lparr>ps_escape := True\<rparr>" cs] by (auto simp: parse_step_def)
  next
    case False
    with \<open>\<not> ps_escape st\<close> show ?thesis by (simp add: parse_step_def)
  qed
qed

lemma parse_loop_spaces:
  "set cs \<subseteq> {space_char} \<Longrightarrow> \<not> ps_in_string st \<Longrightarrow> \<not> ps_escape st \<Longrightarrow> ps_current st = [] \<Longrightarrow>
   parse_loop cs st = Some st"
  by (induction cs) (simp_all add: parse_step_def)

lemma concat_map_cons_snoc:
  "concat (map (\<lambda>p. x # p) ps) @ [x] = x # concat (map (\<lambda>p. p @ [x]) ps)"
  by (induction ps) simp_all

lemma parse_loop_identifier:
  "plain_token i \<Longrightarrow>
   parse_loop (i @ space_char # cs) parse_init = parse_loop cs (parse_ready (to_upper i) [])"
  by (simp add: plain_token_def parse_loop_plain parse_init_def parse_step_def parse_ready_def)

lemma parse_loop_plain_params:
  "list_all plain_token ps \<Longrightarrow>
   parse_loop (concat (map (\<lambda>p. p @ [space_char]) ps)) (parse_ready i qs) = Some (parse_ready i (qs @ ps))"
proof (induction ps arbitrary: qs)
  case Nil
  then show ?case by simp
next
  case (Cons p ps)
  then have "p \<noteq> []" "list_all plain_char p" by (simp_all add: plain_token_def)
  with Cons show ?case by (simp add: parse_loop_plain parse_step_def parse_ready_def)
qed

lemma parse_loop_quoted_params:
  "list_all quotable ps \<Longrightarrow>
   parse_loop (concat (map (\<lambda>p. space_char # quote_char # p @ [quote_char]) ps) @ cs) (parse_ready i qs) =
   parse_loop cs (parse_ready i (qs @ ps))"
proof (induction ps arbitrary: qs)
  case Nil
  then show ?case by simp
next
  case (Cons p ps)
  then show ?case by (simp add: parse_loop_in_string parse_step_def parse_ready_def)
qed

lemma parse_command_some:
  "parse_command line = Some c \<Longrightarrow>
   \<exists>st. parse_loop (line @ [space_char]) parse_init = Some st \<and> \<not> ps_in_string st \<and> ps_identifier_ok st \<and>
        c = \<lparr>cmd_identifier = ps_identifier st, cmd_parameters = ps_parameters st\<rparr>"
  by (auto simp: parse_command_def split: option.splits if_splits)

lemma parse_command_print_plain:
  assumes "plain_token i" "list_all plain_token ps"
  shows "parse_command (print_plain i ps) = Some \<lparr>cmd_identifier = to_upper i, cmd_parameters = ps\<rparr>"
proof -
  have "print_plain i ps @ [space_char] = i @ space_char # concat (map (\<lambda>p. p @ [space_char]) ps)"
    by (simp add: print_plain_def concat_map_cons_snoc)
  then have "parse_loop (print_plain i ps @ [space_char]) parse_init = Some (parse_ready (to_upper i) ps)"
    using parse_loop_plain_params [OF assms(2), of "to_upper i" "[]"]
    by (simp add: parse_loop_identifier [OF assms(1)])
  then show ?thesis by (simp add: parse_command_def parse_ready_def)
qed

text \<open>A backslash makes the line invalid: before it the loop keeps its invariant, and from
  the backslash on it either fails or stays inside a string to the end.\<close>

lemma parse_command_backslash_none:
  assumes "backslash_char \<in> set line"
  shows "parse_command line = None"
proof -
  obtain xs ys where line: "line = xs @ backslash_char # ys"
    using split_list [OF assms] by blast
  show ?thesis
  proof (cases "parse_loop xs parse_init")
    case None
    then show ?thesis by (simp add: parse_command_def line parse_loop_append)
  next
    case (Some st)
    then have "parse_inv st" using parse_loop_inv parse_inv_init by blast
    from parse_loop_backslash [OF this, of "ys @ [space_char]"] Some show ?thesis
      by (auto simp: parse_command_def line parse_loop_append split: option.splits)
  qed
qed

subsection \<open>Properties of the tokenizer\<close>

text \<open>C4: a line containing a backslash anywhere never parses: outside a
  string it is rejected at once, and inside a string \<open>escapeChar\<close> is set and never reset,
  so the closing quote is swallowed and the line ends inside the string. The spec
  (section 4.3.1) says a backslash inside quotes escapes the next character, so that
  \<open>SET x "a\"b"\<close> has the parameters \<open>x\<close> and \<open>a"b\<close>.\<close>

theorem parse_command_backslash:
  assumes "backslash_char \<in> set line"
  shows "parse_command line = None"
  using assms by (rule parse_command_backslash_none)

text \<open>An empty line, or a line of spaces only, does not parse.\<close>

theorem parse_command_blank:
  assumes "set line \<subseteq> {space_char}"
  shows "parse_command line = None"
proof -
  have "parse_loop (line @ [space_char]) parse_init = Some parse_init"
    using assms by (intro parse_loop_spaces) (simp_all add: parse_init_def)
  then show ?thesis by (simp add: parse_command_def parse_init_def)
qed

text \<open>A command written as plain tokens (non-empty, without space, quote
  or backslash) separated by single spaces parses to the upper-cased identifier and the
  parameters, exactly.\<close>

theorem parse_print_plain:
  assumes "plain_token i" "list_all plain_token ps"
  shows "parse_command (print_plain i ps) = Some \<lparr>cmd_identifier = to_upper i, cmd_parameters = ps\<rparr>"
  using assms by (rule parse_command_print_plain)

text \<open>C22: a command whose parameters are each written between double quotes
  parses to exactly those parameters, whatever spaces they contain and even when empty,
  as long as they contain no quote or backslash.\<close>

theorem parse_print_quoted:
  assumes "plain_token i" "list_all quotable ps"
  shows "parse_command (print_quoted i ps) = Some \<lparr>cmd_identifier = to_upper i, cmd_parameters = ps\<rparr>"
proof -
  have "parse_loop (print_quoted i ps @ [space_char]) parse_init =
        parse_loop (concat (map (\<lambda>p. space_char # quote_char # p @ [quote_char]) ps) @ [space_char])
          (parse_ready (to_upper i) [])"
  proof (cases ps)
    case Nil
    then show ?thesis using parse_loop_identifier [OF assms(1), of "[]"]
      by (simp add: print_quoted_def parse_step_def parse_ready_def)
  next
    case (Cons p ps')
    then show ?thesis using parse_loop_identifier [OF assms(1)]
      by (simp add: print_quoted_def parse_step_def parse_ready_def)
  qed
  also have "\<dots> = Some (parse_ready (to_upper i) ps)"
    using parse_loop_quoted_params [OF assms(2), of "[space_char]" "to_upper i" "[]"]
    by (simp add: parse_step_def parse_ready_def)
  finally show ?thesis by (simp add: parse_command_def parse_ready_def)
qed

text \<open>The identifier of every parsed command is non-empty and
  upper-case, so dispatch never sees an empty or lower-case command name.\<close>

theorem parse_command_identifier:
  assumes "parse_command line = Some c"
  shows "cmd_identifier c \<noteq> [] \<and> to_upper (cmd_identifier c) = cmd_identifier c"
proof -
  obtain st where st: "parse_loop (line @ [space_char]) parse_init = Some st" "ps_identifier_ok st"
      "c = \<lparr>cmd_identifier = ps_identifier st, cmd_parameters = ps_parameters st\<rparr>"
    using parse_command_some [OF assms] by blast
  have "parse_inv st" using parse_loop_inv [OF st(1) parse_inv_init] .
  with st(2,3) show ?thesis by (simp add: parse_inv_def)
qed

subsection \<open>Witnesses\<close>

text \<open>The spec's example \<open>SET x "a\"b"\<close>.\<close>

theorem parse_command_backslash_witness:
  "backslash_char \<in> set (''SET x '' @ [quote_char, CHR ''a'', backslash_char, quote_char, CHR ''b'', quote_char]) \<and>
   parse_command (''SET x '' @ [quote_char, CHR ''a'', backslash_char, quote_char, CHR ''b'', quote_char]) = None"
  using parse_command_backslash [of "''SET x '' @ [quote_char, CHR ''a'', backslash_char, quote_char, CHR ''b'', quote_char]"]
  by simp

theorem parse_command_blank_witness:
  "set ''   '' \<subseteq> {space_char} \<and> parse_command ''   '' = None"
  using parse_command_blank [of "''   ''"] by simp

theorem parse_print_plain_witness:
  "plain_token ''set'' \<and> list_all plain_token [''k'', ''v''] \<and>
   parse_command (print_plain ''set'' [''k'', ''v'']) = Some \<lparr>cmd_identifier = to_upper ''set'', cmd_parameters = [''k'', ''v'']\<rparr>"
proof -
  have h: "plain_token ''set''" "list_all plain_token [''k'', ''v'']"
    by (simp_all add: plain_token_def plain_char_def)
  show ?thesis using parse_print_plain [OF h] h by simp
qed

theorem parse_print_quoted_witness:
  "plain_token ''set'' \<and> list_all quotable [''k'', ''a b'', []] \<and>
   parse_command (print_quoted ''set'' [''k'', ''a b'', []]) =
     Some \<lparr>cmd_identifier = to_upper ''set'', cmd_parameters = [''k'', ''a b'', []]\<rparr>"
proof -
  have h: "plain_token ''set''" "list_all quotable [''k'', ''a b'', []]"
    by (simp_all add: plain_token_def plain_char_def quotable_def)
  show ?thesis using parse_print_quoted [OF h] h by simp
qed

theorem parse_command_identifier_witness:
  "parse_command ''get k'' = Some \<lparr>cmd_identifier = ''GET'', cmd_parameters = [''k'']\<rparr> \<and>
   cmd_identifier \<lparr>cmd_identifier = ''GET'', cmd_parameters = [''k'']\<rparr> \<noteq> [] \<and>
   to_upper (cmd_identifier \<lparr>cmd_identifier = ''GET'', cmd_parameters = [''k'']\<rparr>) =
     cmd_identifier \<lparr>cmd_identifier = ''GET'', cmd_parameters = [''k'']\<rparr>"
proof -
  have h: "parse_command ''get k'' = Some \<lparr>cmd_identifier = ''GET'', cmd_parameters = [''k'']\<rparr>"
    by code_simp
  show ?thesis using parse_command_identifier [OF h] h by simp
qed

end
