(* ===== verification/Runtime.thy ===== *)
theory Runtime
  imports Stdlib Parser
begin

text \<open>
  Dispatch and execution of \<open>src/source/vm/runtime.go\<close> and \<open>vm.go\<close>. A library is a list
  of \<open>library_function\<close> records (command name, declared number of parameters with \<open>-1\<close>
  for variadic, handler, help text); \<open>standard_library\<close> is \<open>vm.StandardLibrary\<close>.
  \<open>createLibraryCache\<close> stores every function under the key \<open>getFunctionKey\<close> computes
  (the upper-cased name, followed by \<open>_n\<close> when \<open>n > 0\<close>), and \<open>Execute\<close> parses the line,
  looks up the key of the identifier and the actual number of parameters, and calls
  the handler on the runtime's database. The runtime is the record \<open>runtime\<close>; an
  execution returns the results and the runtime with the new database, or the panic
  of the handler (which ends the process in the shell of \<open>arc.go\<close>, and the request in
  the HTTP server). \<open>reachable\<close> is the set of runtimes that a sequence of executed
  command lines produces from a fresh runtime over an empty database.
\<close>

record 's library_function =
  lf_command :: string
  lf_number_of_parameters :: int
  lf_call :: "'s handler"
  lf_help :: string

type_synonym 's library = "'s library_function list"

definition standard_library :: "'s::linorder library" where
  "standard_library =
     [\<lparr>lf_command = ''SET'', lf_number_of_parameters = 2, lf_call = std_set, lf_help = ''SET key value''\<rparr>,
      \<lparr>lf_command = ''SET'', lf_number_of_parameters = 4, lf_call = std_set_ex, lf_help = ''SET key value EX seconds''\<rparr>,
      \<lparr>lf_command = ''GET'', lf_number_of_parameters = 1, lf_call = std_get, lf_help = ''GET key''\<rparr>,
      \<lparr>lf_command = ''DEL'', lf_number_of_parameters = -1, lf_call = std_del, lf_help = ''DEL key [key...]''\<rparr>,
      \<lparr>lf_command = ''DBSIZE'', lf_number_of_parameters = 0, lf_call = std_db_size, lf_help = ''DBSIZE''\<rparr>,
      \<lparr>lf_command = ''INCR'', lf_number_of_parameters = 1, lf_call = std_incr, lf_help = ''INCR key''\<rparr>,
      \<lparr>lf_command = ''ZADD'', lf_number_of_parameters = -1, lf_call = std_zadd,
         lf_help = ''ZADD key score member [score member...]''\<rparr>,
      \<lparr>lf_command = ''ZCARD'', lf_number_of_parameters = 1, lf_call = std_zcard, lf_help = ''ZCARD key''\<rparr>,
      \<lparr>lf_command = ''ZRANK'', lf_number_of_parameters = 2, lf_call = std_zrank, lf_help = ''ZRANK key member''\<rparr>,
      \<lparr>lf_command = ''ZRANGE'', lf_number_of_parameters = 3, lf_call = std_zrange, lf_help = ''ZRANGE key start stop''\<rparr>]"

definition get_function_key :: "string \<Rightarrow> int \<Rightarrow> string" where
  "get_function_key c n =
     (if n \<le> 0 then to_upper c else to_upper c @ ''_'' @ format_int (word_of_int n))"

text \<open>The loop of \<open>createLibraryCache\<close>: a later function overwrites an earlier one stored
  under the same key.\<close>

definition create_library_cache :: "'s library \<Rightarrow> (string \<rightharpoonup> 's library_function)" where
  "create_library_cache lib =
     foldl (\<lambda>cache f. cache(get_function_key (lf_command f) (lf_number_of_parameters f) \<mapsto> f)) Map.empty lib"

record 's runtime =
  rt_db :: "'s database"
  rt_library :: "'s library"
  rt_library_cache :: "string \<rightharpoonup> 's library_function"

definition create_runtime :: "'s library \<Rightarrow> 's database \<Rightarrow> 's runtime" where
  "create_runtime lib db = \<lparr>rt_db = db, rt_library = lib, rt_library_cache = create_library_cache lib\<rparr>"

definition execute :: "'s env \<Rightarrow> string \<Rightarrow> 's runtime \<Rightarrow> (string list \<times> 's runtime) go" where
  "execute env line rt =
     (case parse_command line of
        None \<Rightarrow> Inr (invalid_command_line_result, rt)
      | Some cmd \<Rightarrow>
          (case rt_library_cache rt (get_function_key (cmd_identifier cmd) (int (length (cmd_parameters cmd)))) of
             None \<Rightarrow> Inr (unknown_command_result, rt)
           | Some f \<Rightarrow>
               (case lf_call f env (rt_db rt) (cmd_parameters cmd) of
                  Inl p \<Rightarrow> Inl p
                | Inr (r, db') \<Rightarrow> Inr (r, rt\<lparr>rt_db := db'\<rparr>))))"

text \<open>A session: command lines executed one after the other, each at its own clock
  reading; it stops at the first panic.\<close>

fun execute_lines :: "('s env \<times> string) list \<Rightarrow> 's runtime \<Rightarrow> (string list list \<times> 's runtime) go" where
  "execute_lines [] rt = Inr ([], rt)"
| "execute_lines ((env, line) # ls) rt =
     (case execute env line rt of
        Inl p \<Rightarrow> Inl p
      | Inr (r, rt') \<Rightarrow>
          (case execute_lines ls rt' of
             Inl p \<Rightarrow> Inl p
           | Inr (rs, rt'') \<Rightarrow> Inr (r # rs, rt'')))"

inductive reachable :: "'s::linorder runtime \<Rightarrow> bool" where
  init: "reachable (create_runtime standard_library db_create)"
| step: "reachable rt \<Longrightarrow> execute env line rt = Inr (r, rt') \<Longrightarrow> reachable rt'"

text \<open>Every stored value is a string: the state space the standard library can reach
  through \<open>Execute\<close>.\<close>

definition db_strings_only :: "'s database \<Rightarrow> bool" where
  "db_strings_only db \<longleftrightarrow> list_all (\<lambda>(k, v). value_data_type v = SingleValue) (db_data db)"

definition rt_inv :: "'s::linorder runtime \<Rightarrow> bool" where
  "rt_inv rt \<longleftrightarrow> rt_library_cache rt = create_library_cache standard_library \<and> db_inv (rt_db rt) \<and>
     db_strings_only (rt_db rt)"

subsection \<open>The library cache\<close>

lemma create_library_cache_foldl:
  "foldl (\<lambda>cache f. cache(key f \<mapsto> f)) m lib = m ++ map_of (rev (map (\<lambda>f. (key f, f)) lib))"
  by (induction lib arbitrary: m) (simp_all add: map_add_upd [symmetric] map_add_assoc)

lemma map_pair_zip: "map (\<lambda>x. (g x, x)) xs = zip (map g xs) xs"
  by (induction xs) simp_all

lemma standard_library_keys:
  "map (\<lambda>f. get_function_key (lf_command f) (lf_number_of_parameters f)) (standard_library :: 's::linorder library) =
   [''SET_2'', ''SET_4'', ''GET_1'', ''DEL'', ''DBSIZE'', ''INCR_1'', ''ZADD'', ''ZCARD_1'', ''ZRANK_2'', ''ZRANGE_3'']"
proof -
  have "map (\<lambda>f. get_function_key (lf_command f) (lf_number_of_parameters f)) (standard_library :: 's library) =
        map (\<lambda>(c, n). get_function_key c n)
          [(''SET'', 2), (''SET'', 4), (''GET'', 1), (''DEL'', -1), (''DBSIZE'', 0), (''INCR'', 1), (''ZADD'', -1),
           (''ZCARD'', 1), (''ZRANK'', 2), (''ZRANGE'', 3)]"
    by (simp add: standard_library_def)
  also have "\<dots> = [''SET_2'', ''SET_4'', ''GET_1'', ''DEL'', ''DBSIZE'', ''INCR_1'', ''ZADD'', ''ZCARD_1'', ''ZRANK_2'', ''ZRANGE_3'']"
    by code_simp
  finally show ?thesis .
qed

lemma standard_library_cache:
  "create_library_cache (standard_library :: 's::linorder library) =
   map_of (zip [''SET_2'', ''SET_4'', ''GET_1'', ''DEL'', ''DBSIZE'', ''INCR_1'', ''ZADD'', ''ZCARD_1'', ''ZRANK_2'', ''ZRANGE_3'']
               standard_library)"
proof -
  let ?key = "\<lambda>f. get_function_key (lf_command f) (lf_number_of_parameters f)"
  have "map fst (zip (map ?key (standard_library :: 's library)) (standard_library :: 's library)) =
        map ?key (standard_library :: 's library)"
    by (rule map_fst_zip) simp
  then have d: "distinct (map fst (zip (map ?key (standard_library :: 's library)) (standard_library :: 's library)))"
    by (simp only: standard_library_keys) simp
  show ?thesis
    unfolding create_library_cache_def create_library_cache_foldl map_pair_zip map_of_rev_distinct [OF d]
    by (simp add: standard_library_keys)
qed

lemma get_function_key_underscore: "0 < n \<Longrightarrow> CHR ''_'' \<in> set (get_function_key c n)"
  by (simp add: get_function_key_def)

subsection \<open>Databases holding strings only\<close>

lemma db_strings_only_lookup:
  "db_strings_only db \<Longrightarrow> db_lookup db k = Some v \<Longrightarrow> value_data_type v = SingleValue"
  by (auto simp: db_strings_only_def db_lookup_def list_all_iff dest: map_of_SomeD)

lemma db_strings_only_store:
  "db_strings_only db \<Longrightarrow> value_data_type v = SingleValue \<Longrightarrow> db_strings_only (db_store k v db)"
  using set_update_subset [of k v "db_data db"]
  by (auto simp: db_strings_only_def db_store_def list_all_iff)

lemma db_strings_only_create: "db_strings_only db_create"
  by (simp add: db_strings_only_def db_create_def)

lemma db_strings_only_set_single_value: "db_strings_only db \<Longrightarrow> db_strings_only (db_set_single_value k d e db)"
  by (simp add: db_set_single_value_store db_strings_only_store)

lemma db_strings_only_increment:
  assumes "db_strings_only db" "db_increment_single_value k db = Inr (r, db')"
  shows "db_strings_only db'"
proof -
  have "incr_value k v dbx = Inr (r, db') \<Longrightarrow> db_strings_only dbx \<Longrightarrow> db_strings_only db'" for v dbx
    by (auto simp: incr_value_def intro!: db_strings_only_store split: value_data.splits option.splits)
  moreover have "db_strings_only (db_store k \<lparr>value_data_type = SingleValue, value_expire_time = 0,
                   value_data = StringData ''0''\<rparr> db)"
    using assms(1) by (simp add: db_strings_only_store)
  ultimately show ?thesis
    using assms by (auto simp: db_increment_single_value_def Let_def split: option.splits if_splits)
qed

lemma db_strings_only_no_set:
  "db_inv db \<Longrightarrow> db_strings_only db \<Longrightarrow> db_get_sorted_set now db k \<noteq> Inr (Some s)"
  using db_get_sorted_set_some db_strings_only_lookup by fastforce

lemma db_strings_only_get_sorted_set:
  assumes "db_inv db" "db_strings_only db"
  shows "db_get_sorted_set now db k = Inr None \<or> db_get_sorted_set now db k = Inl TypeAssertionPanic"
proof (cases "db_get_sorted_set now db k")
  case (Inl p)
  then show ?thesis by (auto simp: db_get_sorted_set_def split: option.splits if_splits value_data.splits)
next
  case (Inr x)
  then show ?thesis using db_strings_only_no_set [OF assms, of now k] by (cases x) auto
qed

text \<open>Each handler the standard library reaches keeps a string-only database well formed
  and string-only; the set handlers do not change it at all.\<close>

lemma std_set_strings:
  "db_inv db \<Longrightarrow> db_strings_only db \<Longrightarrow> std_set env db ps = Inr (r, db') \<Longrightarrow> db_inv db' \<and> db_strings_only db'"
  by (auto simp: std_set_def db_set_single_value_inv db_strings_only_set_single_value split: if_splits)

lemma std_set_ex_strings:
  "db_inv db \<Longrightarrow> db_strings_only db \<Longrightarrow> std_set_ex env db ps = Inr (r, db') \<Longrightarrow> db_inv db' \<and> db_strings_only db'"
  by (auto simp: std_set_ex_def db_set_single_value_inv db_strings_only_set_single_value split: if_splits option.splits)

lemma std_get_unchanged: "std_get env db ps = Inr (r, db') \<Longrightarrow> db' = db"
  by (auto simp: std_get_def split: if_splits sum.splits)

lemma std_db_size_unchanged: "std_db_size env db ps = Inr (r, db') \<Longrightarrow> db' = db"
  by (auto simp: std_db_size_def split: if_splits)

lemma std_incr_strings:
  "db_inv db \<Longrightarrow> db_strings_only db \<Longrightarrow> std_incr env db ps = Inr (r, db') \<Longrightarrow> db_inv db' \<and> db_strings_only db'"
  by (auto simp: std_incr_def db_increment_single_value_inv db_strings_only_increment
      split: if_splits sum.splits prod.splits bool.splits)

lemma std_zcard_strings:
  "db_inv db \<Longrightarrow> db_strings_only db \<Longrightarrow> std_zcard env db ps = Inr (r, db') \<Longrightarrow>
   db' = db \<and> (r = [''0''] \<or> r = invalid_parameters_result)"
  using db_strings_only_no_set [of db "env_now env" "ps ! 0"]
  by (auto simp: std_zcard_def split: if_splits sum.splits option.splits)

lemma std_zrank_strings:
  "db_inv db \<Longrightarrow> db_strings_only db \<Longrightarrow> std_zrank env db ps = Inr (r, db') \<Longrightarrow>
   db' = db \<and> (r = nil_result \<or> r = invalid_parameters_result)"
  using db_strings_only_no_set [of db "env_now env" "ps ! 0"]
  by (auto simp: std_zrank_def split: if_splits sum.splits option.splits)

lemma std_zrange_strings:
  "db_inv db \<Longrightarrow> db_strings_only db \<Longrightarrow> std_zrange env db ps = Inr (r, db') \<Longrightarrow>
   db' = db \<and> (r = empty_result \<or> r = invalid_parameters_result)"
  using db_strings_only_no_set [of db "env_now env" "ps ! 0"]
  by (auto simp: std_zrange_def split: if_splits sum.splits option.splits)

lemma std_del_no_params: "std_del env db [] = Inr (invalid_parameters_result, db)"
  by (simp add: std_del_def)

lemma std_zadd_no_params: "std_zadd env db [] = Inr (invalid_parameters_result, db)"
  by (simp add: std_zadd_def)

subsection \<open>Dispatch\<close>

lemma standard_library_cache_cases:
  assumes "create_library_cache (standard_library :: 's::linorder library) k = Some f"
  shows "(k = ''SET_2'' \<and> lf_call f = std_set) \<or> (k = ''SET_4'' \<and> lf_call f = std_set_ex) \<or>
         (k = ''GET_1'' \<and> lf_call f = std_get) \<or> (k = ''DEL'' \<and> lf_call f = std_del) \<or>
         (k = ''DBSIZE'' \<and> lf_call f = std_db_size) \<or> (k = ''INCR_1'' \<and> lf_call f = std_incr) \<or>
         (k = ''ZADD'' \<and> lf_call f = std_zadd) \<or> (k = ''ZCARD_1'' \<and> lf_call f = std_zcard) \<or>
         (k = ''ZRANK_2'' \<and> lf_call f = std_zrank) \<or> (k = ''ZRANGE_3'' \<and> lf_call f = std_zrange)"
proof -
  have "(k, f) \<in> set (zip [''SET_2'', ''SET_4'', ''GET_1'', ''DEL'', ''DBSIZE'', ''INCR_1'', ''ZADD'', ''ZCARD_1'', ''ZRANK_2'', ''ZRANGE_3'']
               (standard_library :: 's library))"
    using assms unfolding standard_library_cache by (rule map_of_SomeD)
  then have "(k, lf_call f) \<in> set (zip [''SET_2'', ''SET_4'', ''GET_1'', ''DEL'', ''DBSIZE'', ''INCR_1'', ''ZADD'', ''ZCARD_1'', ''ZRANK_2'', ''ZRANGE_3'']
               [std_set, std_set_ex, std_get, std_del, std_db_size, std_incr, std_zadd, std_zcard, std_zrank, std_zrange])"
    unfolding standard_library_def by (simp only: zip_Cons_Cons zip_Nil list.set insert_iff empty_iff) (elim disjE; simp)
  then show ?thesis by (simp only: zip_Cons_Cons zip_Nil list.set insert_iff empty_iff prod.inject simp_thms)
qed
lemma get_function_key_prefix: "\<exists>s. get_function_key c n = to_upper c @ s"
  by (simp add: get_function_key_def)

lemma get_function_key_set_get: "get_function_key ''SET'' 2 = ''SET_2''" "get_function_key ''GET'' 1 = ''GET_1''"
  by code_simp+

lemma get_function_key_bare: "CHR ''_'' \<notin> set k \<Longrightarrow> get_function_key c (int n) = k \<Longrightarrow> n = 0"
  using get_function_key_underscore [of "int n" c] by auto

lemma execute_dispatch:
  assumes "execute env line rt = Inr (r, rt')"
  shows "rt' = rt \<or>
    (\<exists>c f db'. parse_command line = Some c \<and>
       rt_library_cache rt (get_function_key (cmd_identifier c) (int (length (cmd_parameters c)))) = Some f \<and>
       lf_call f env (rt_db rt) (cmd_parameters c) = Inr (r, db') \<and> rt' = rt\<lparr>rt_db := db'\<rparr>)"
  using assms by (auto simp: execute_def split: option.splits sum.splits)

lemma rt_inv_create: "rt_inv (create_runtime standard_library db_create)"
  using db_strings_only_create by (simp add: rt_inv_def create_runtime_def db_inv_def db_create_def)

lemma rt_inv_execute:
  assumes inv: "rt_inv rt" and ex: "execute env line rt = Inr (r, rt')"
  shows "rt_inv rt'"
  using execute_dispatch [OF ex]
proof
  assume "rt' = rt"
  with inv show ?thesis by simp
next
  assume "\<exists>c f db'. parse_command line = Some c \<and>
       rt_library_cache rt (get_function_key (cmd_identifier c) (int (length (cmd_parameters c)))) = Some f \<and>
       lf_call f env (rt_db rt) (cmd_parameters c) = Inr (r, db') \<and> rt' = rt\<lparr>rt_db := db'\<rparr>"
  then obtain c f db' where c: "parse_command line = Some c"
    and f: "create_library_cache standard_library (get_function_key (cmd_identifier c) (int (length (cmd_parameters c)))) = Some f"
    and call: "lf_call f env (rt_db rt) (cmd_parameters c) = Inr (r, db')" and rt': "rt' = rt\<lparr>rt_db := db'\<rparr>"
    using inv by (auto simp: rt_inv_def)
  have db: "db_inv (rt_db rt)" "db_strings_only (rt_db rt)" using inv by (simp_all add: rt_inv_def)
  have "db_inv db' \<and> db_strings_only db'"
    using standard_library_cache_cases [OF f]
  proof (elim disjE conjE)
    assume "get_function_key (cmd_identifier c) (int (length (cmd_parameters c))) = ''DEL''" "lf_call f = std_del"
    moreover have "length (cmd_parameters c) = 0"
      using calculation get_function_key_bare [of "''DEL''" "cmd_identifier c" "length (cmd_parameters c)"] by simp
    ultimately show ?thesis using call db by (simp add: std_del_no_params)
  next
    assume "get_function_key (cmd_identifier c) (int (length (cmd_parameters c))) = ''ZADD''" "lf_call f = std_zadd"
    moreover have "length (cmd_parameters c) = 0"
      using calculation get_function_key_bare [of "''ZADD''" "cmd_identifier c" "length (cmd_parameters c)"] by simp
    ultimately show ?thesis using call db by (simp add: std_zadd_no_params)
  qed (use call db in \<open>auto dest: std_set_strings std_set_ex_strings std_get_unchanged std_db_size_unchanged
         std_incr_strings std_zcard_strings std_zrank_strings std_zrange_strings\<close>)
  with inv rt' show ?thesis by (simp add: rt_inv_def)
qed

lemma reachable_rt_inv: "reachable rt \<Longrightarrow> rt_inv rt"
  by (induction rule: reachable.induct) (auto intro: rt_inv_create rt_inv_execute)

text \<open>On a well-formed string-only database the only panic a handler of the standard library
  can raise is the type assertion of \<open>GetSortedSet\<close>, before the handler writes anything.\<close>

lemma db_strings_only_value:
  "db_inv db \<Longrightarrow> db_strings_only db \<Longrightarrow> db_lookup db k = Some v \<Longrightarrow> \<exists>d. value_data v = StringData d"
  using db_lookup_wf db_strings_only_lookup value_wf_string by blast

lemma std_get_panic:
  "db_inv db \<Longrightarrow> db_strings_only db \<Longrightarrow> std_get env db ps = Inl p \<Longrightarrow> False"
  by (auto simp: std_get_def db_get_single_value_def dest!: db_strings_only_value
      split: if_splits sum.splits option.splits value_data.splits)

lemma std_incr_panic:
  "db_inv db \<Longrightarrow> db_strings_only db \<Longrightarrow> std_incr env db ps = Inl p \<Longrightarrow> False"
  by (auto simp: std_incr_def db_increment_single_value_def incr_value_def Let_def dest!: db_strings_only_value
      split: if_splits sum.splits option.splits value_data.splits prod.splits)

lemma std_zcard_panic:
  "db_inv db \<Longrightarrow> db_strings_only db \<Longrightarrow> std_zcard env db ps = Inl p \<Longrightarrow> p = TypeAssertionPanic"
  using db_strings_only_get_sorted_set [of db "env_now env" "ps ! 0"]
  by (auto simp: std_zcard_def split: if_splits)

lemma std_zrank_panic:
  "db_inv db \<Longrightarrow> db_strings_only db \<Longrightarrow> std_zrank env db ps = Inl p \<Longrightarrow> p = TypeAssertionPanic"
  using db_strings_only_get_sorted_set [of db "env_now env" "ps ! 0"]
  by (auto simp: std_zrank_def split: if_splits)

lemma std_zrange_panic:
  "db_inv db \<Longrightarrow> db_strings_only db \<Longrightarrow> std_zrange env db ps = Inl p \<Longrightarrow> p = TypeAssertionPanic"
  using db_strings_only_get_sorted_set [of db "env_now env" "ps ! 0"]
  by (auto simp: std_zrange_def split: if_splits)

lemma rt_inv_execute_panic:
  assumes inv: "rt_inv rt" and ex: "execute env line rt = Inl p"
  shows "p = TypeAssertionPanic"
proof -
  obtain c f where c: "parse_command line = Some c"
    and f: "create_library_cache standard_library (get_function_key (cmd_identifier c) (int (length (cmd_parameters c)))) = Some f"
    and call: "lf_call f env (rt_db rt) (cmd_parameters c) = Inl p"
    using inv ex by (auto simp: execute_def rt_inv_def split: option.splits sum.splits)
  have db: "db_inv (rt_db rt)" "db_strings_only (rt_db rt)" using inv by (simp_all add: rt_inv_def)
  show ?thesis
    using standard_library_cache_cases [OF f]
  proof (elim disjE conjE)
    assume "get_function_key (cmd_identifier c) (int (length (cmd_parameters c))) = ''ZADD''" "lf_call f = std_zadd"
    moreover have "length (cmd_parameters c) = 0"
      using calculation get_function_key_bare [of "''ZADD''" "cmd_identifier c" "length (cmd_parameters c)"] by simp
    ultimately show ?thesis using call by (simp add: std_zadd_no_params)
  qed (use call db in \<open>auto dest: std_get_panic std_incr_panic std_zcard_panic std_zrank_panic std_zrange_panic
      simp: std_set_def std_set_ex_def std_del_def std_db_size_def split: if_splits option.splits prod.splits\<close>)
qed

lemma reachable_execute_panic: "reachable rt \<Longrightarrow> execute env line rt = Inl p \<Longrightarrow> p = TypeAssertionPanic"
  using reachable_rt_inv rt_inv_execute_panic by blast

lemma execute_params_unknown:
  assumes cache: "rt_library_cache rt = create_library_cache standard_library"
    and c: "parse_command line = Some c" and i: "cmd_identifier c = ''DEL'' \<or> cmd_identifier c = ''ZADD''"
    and ps: "cmd_parameters c \<noteq> []"
  shows "execute env line rt = Inr (unknown_command_result, rt)"
proof -
  let ?n = "int (length (cmd_parameters c))"
  have "to_upper (cmd_identifier c) = cmd_identifier c"
    using i by (auto simp: to_upper_def upper_char_def less_eq_char_def)
  then have k: "get_function_key (cmd_identifier c) ?n = cmd_identifier c @ ''_'' @ format_int (word_of_int ?n)"
    using ps by (simp add: get_function_key_def)
  have "get_function_key (cmd_identifier c) ?n \<notin>
        set [''SET_2'', ''SET_4'', ''GET_1'', ''DEL'', ''DBSIZE'', ''INCR_1'', ''ZADD'', ''ZCARD_1'', ''ZRANK_2'', ''ZRANGE_3'']"
    using i unfolding k by auto
  then have "create_library_cache (standard_library :: 'a library) (get_function_key (cmd_identifier c) ?n) = None"
    unfolding standard_library_cache by (simp add: map_of_zip_is_None standard_library_def)
  then show ?thesis using cache c by (simp add: execute_def)
qed

lemma execute_set_then_get:
  assumes cache: "rt_library_cache rt = create_library_cache standard_library"
    and k: "plain_token k" and v: "plain_token v"
  shows "\<exists>rt'. execute env (print_plain ''SET'' [k, v]) rt = Inr (ok_result, rt') \<and>
           execute env' (print_plain ''GET'' [k]) rt' = Inr ([v], rt')"
proof -
  have t: "plain_token ''SET''" "plain_token ''GET''" "to_upper ''SET'' = ''SET''" "to_upper ''GET'' = ''GET''"
    by (simp_all add: plain_token_def plain_char_def to_upper_def upper_char_def less_eq_char_def)
  have p1: "parse_command (print_plain ''SET'' [k, v]) = Some \<lparr>cmd_identifier = ''SET'', cmd_parameters = [k, v]\<rparr>"
    using parse_command_print_plain [OF t(1), of "[k, v]"] k v t(3) by simp
  have p2: "parse_command (print_plain ''GET'' [k]) = Some \<lparr>cmd_identifier = ''GET'', cmd_parameters = [k]\<rparr>"
    using parse_command_print_plain [OF t(2), of "[k]"] k t(4) by simp
  have cache': "rt_library_cache rt =
    map_of (zip [''SET_2'', ''SET_4'', ''GET_1'', ''DEL'', ''DBSIZE'', ''INCR_1'', ''ZADD'', ''ZCARD_1'', ''ZRANK_2'', ''ZRANGE_3'']
               standard_library)"
    using cache by (simp only: standard_library_cache)
  let ?rt' = "rt\<lparr>rt_db := db_set_single_value k v 0 (rt_db rt)\<rparr>"
  have "execute env (print_plain ''SET'' [k, v]) rt = Inr (ok_result, ?rt')"
    using p1 by (simp add: execute_def get_function_key_set_get cache' standard_library_def
        std_set_def)
  moreover have "execute env' (print_plain ''GET'' [k]) ?rt' = Inr ([v], ?rt')"
    using p2 by (simp add: execute_def get_function_key_set_get cache' standard_library_def
        std_get_def db_set_single_value_store db_has_def is_live_def db_get_single_value_def)
  ultimately show ?thesis by blast
qed

subsection \<open>The scenarios of the spec\<close>

subsection \<open>Properties of dispatch and execution\<close>

text \<open>C1: DEL and ZADD with one or more parameters are answered
  \<open>unknown command\<close> without touching the database: \<open>createLibraryCache\<close> stores the
  variadic entries under the bare name, \<open>Execute\<close> looks up the name followed by \<open>_n\<close>, and
  there is no fallback. The spec (section 4.3.2) dispatches such a call to the variadic
  handler.\<close>

theorem execute_variadic_unknown:
  assumes cache: "rt_library_cache rt = create_library_cache standard_library"
    and c: "parse_command line = Some c" and i: "cmd_identifier c = ''DEL'' \<or> cmd_identifier c = ''ZADD''"
    and ps: "cmd_parameters c \<noteq> []"
  shows "execute env line rt = Inr (unknown_command_result, rt)"
  using assms by (rule execute_params_unknown)

text \<open>C2: in every runtime reachable from a fresh one over an
  empty database by executing command lines, the database is well formed and holds
  strings only: no sequence of commands can create a sorted set, since ZADD is only
  reachable without parameters.\<close>

theorem reachable_strings_only:
  assumes "reachable rt"
  shows "db_inv (rt_db rt) \<and> (\<forall>k v. db_lookup (rt_db rt) k = Some v \<longrightarrow> value_data_type v = SingleValue)"
  using reachable_rt_inv [OF assms] db_strings_only_lookup by (auto simp: rt_inv_def)

text \<open>Consequently, in a reachable runtime the sorted-set
  commands ZADD, ZCARD, ZRANK and ZRANGE never change the state and answer only \<open>0\<close>, the
  empty result, \<open>(nil)\<close> or an error (or panic, for ZCARD on a string without expiry).\<close>

theorem reachable_set_commands_inert:
  assumes "reachable rt" and c: "parse_command line = Some c"
    and i: "cmd_identifier c \<in> {''ZADD'', ''ZCARD'', ''ZRANK'', ''ZRANGE''}"
    and ex: "execute env line rt = Inr (r, rt')"
  shows "rt' = rt \<and> r \<in> {[''0''], empty_result, nil_result, unknown_command_result, invalid_parameters_result}"
proof -
  have inv: "rt_inv rt" by (rule reachable_rt_inv [OF assms(1)])
  then have db: "db_inv (rt_db rt)" "db_strings_only (rt_db rt)" by (simp_all add: rt_inv_def)
  let ?k = "get_function_key (cmd_identifier c) (int (length (cmd_parameters c)))"
  have up: "to_upper (cmd_identifier c) = cmd_identifier c"
    using i by (auto simp: to_upper_def upper_char_def less_eq_char_def)
  obtain s where ks: "?k = cmd_identifier c @ s"
    using get_function_key_prefix [of "cmd_identifier c"] up by auto
  show ?thesis
  proof (cases "create_library_cache (standard_library :: 'a library) ?k")
    case None
    then show ?thesis using ex c inv by (simp add: execute_def rt_inv_def)
  next
    case (Some f)
    then have call: "lf_call f env (rt_db rt) (cmd_parameters c) = Inr (r, rt_db rt') \<and> rt' = rt\<lparr>rt_db := rt_db rt'\<rparr>"
      using ex c inv by (auto simp: execute_def rt_inv_def split: sum.splits)
    have "rt_db rt' = rt_db rt \<and> r \<in> {[''0''], empty_result, nil_result, unknown_command_result, invalid_parameters_result}"
      using standard_library_cache_cases [OF Some]
    proof (elim disjE conjE)
      assume "?k = ''ZADD''" "lf_call f = std_zadd"
      moreover have "length (cmd_parameters c) = 0"
        using calculation get_function_key_bare [of "''ZADD''" "cmd_identifier c" "length (cmd_parameters c)"] by simp
      ultimately show ?thesis using call by (simp add: std_zadd_no_params)
    qed (use call db i ks in \<open>auto dest: std_zcard_strings std_zrank_strings std_zrange_strings\<close>)
    with call show ?thesis by auto
  qed
qed

text \<open>C3: in every reachable runtime the only panic \<open>Execute\<close> can raise is the
  type assertion of \<open>GetSortedSet\<close> (ZCARD, ZRANK or ZRANGE on a live string), which happens
  before any write: GET and INCR never find a set, ZADD is never reached with parameters,
  and ZRANGE never reaches its slice or loop.\<close>

theorem reachable_panics_typed:
  assumes "reachable rt" and "execute env line rt = Inl p"
  shows "p = TypeAssertionPanic"
  using reachable_execute_panic [OF assms] .

text \<open>C17: through the whole pipeline (tokenizer, dispatch, handlers),
  \<open>SET k v\<close> answers \<open>OK\<close> and a later \<open>GET k\<close> answers \<open>v\<close>, for plain tokens \<open>k\<close> and \<open>v\<close>.\<close>

theorem execute_set_get:
  assumes cache: "rt_library_cache rt = create_library_cache standard_library"
    and k: "plain_token k" and v: "plain_token v"
  shows "\<exists>rt'. execute env (print_plain ''SET'' [k, v]) rt = Inr (ok_result, rt') \<and>
           execute env' (print_plain ''GET'' [k]) rt' = Inr ([v], rt')"
  using assms by (rule execute_set_then_get)

text \<open>Runs from a fresh runtime over an empty database with the environment of
  \<open>Stdlib\<close> (clock at 100, decimal scores); only the answers are compared.\<close>

text \<open>Spec scenario 1 (\<open>SET foo bar\<close>, \<open>GET foo\<close>, \<open>DEL foo\<close>,
  \<open>GET foo\<close>, \<open>DEL foo\<close>): the code answers \<open>unknown command\<close> to both DELs and \<open>bar\<close> to
  the second GET, where the spec expects \<open>1\<close>, \<open>(nil)\<close> and \<open>0\<close>.\<close>

theorem execute_scenario_basic:
  "map_sum id fst (execute_lines (map (\<lambda>l. (example_env, l)) [''SET foo bar'', ''GET foo'', ''DEL foo'', ''GET foo'', ''DEL foo''])
     (create_runtime standard_library db_create)) =
   Inr [ok_result, [''bar''], unknown_command_result, [''bar''], unknown_command_result]"
  by code_simp

text \<open>Spec scenario 2 runs as the spec says: \<open>SET n 41\<close>,
  \<open>INCR n\<close>, \<open>INCR n\<close>, \<open>GET n\<close>, \<open>SET n hello\<close>, \<open>INCR n\<close> answer \<open>OK\<close>, \<open>42\<close>, \<open>43\<close>,
  \<open>43\<close>, \<open>OK\<close> and \<open>invalid data type\<close>.\<close>

theorem execute_scenario_incr:
  "map_sum id fst (execute_lines (map (\<lambda>l. (example_env, l))
       [''SET n 41'', ''INCR n'', ''INCR n'', ''GET n'', ''SET n hello'', ''INCR n''])
     (create_runtime standard_library db_create)) =
   Inr [ok_result, [''42''], [''43''], [''43''], ok_result, invalid_data_type_result]"
  by code_simp

text \<open>Spec scenario 3 with the clock: \<open>SET k v EX 2\<close> at 100;
  at 101 GET answers \<open>v\<close> and DBSIZE \<open>1\<close>; at 102 (set time + 2, still live for the spec)
  GET answers \<open>(nil)\<close> and DBSIZE \<open>0\<close>.\<close>

theorem execute_scenario_expiry:
  "map_sum id fst (execute_lines
       [(example_env, ''SET k v EX 2''),
        (\<lparr>env_now = 101, env_parse_float = parse_decimal\<rparr>, ''GET k''),
        (\<lparr>env_now = 101, env_parse_float = parse_decimal\<rparr>, ''DBSIZE''),
        (\<lparr>env_now = 102, env_parse_float = parse_decimal\<rparr>, ''GET k''),
        (\<lparr>env_now = 102, env_parse_float = parse_decimal\<rparr>, ''DBSIZE'')]
     (create_runtime standard_library db_create)) =
   Inr [ok_result, [''v''], [''1''], nil_result, [''0'']]"
  by code_simp

text \<open>Spec scenario 4 (\<open>ZADD s 1 one 2 two 5 five 4 four 3 three\<close>,
  \<open>ZRANGE s 0 -1\<close>, \<open>ZRANK s three\<close>, \<open>ZCARD s\<close>): ZADD answers \<open>unknown command\<close>, so the
  set is never created and the reads answer the empty result, \<open>(nil)\<close> and \<open>0\<close>, where the
  spec expects \<open>5\<close>, the five members in score order, \<open>2\<close> and \<open>5\<close>.\<close>

theorem execute_scenario_zset:
  "map_sum id fst (execute_lines (map (\<lambda>l. (example_env, l))
       [''ZADD s 1 one 2 two 5 five 4 four 3 three'', ''ZRANGE s 0 -1'', ''ZRANK s three'', ''ZCARD s''])
     (create_runtime standard_library db_create)) =
   Inr [unknown_command_result, empty_result, nil_result, [''0'']]"
  by code_simp

subsection \<open>Witnesses\<close>

abbreviation example_runtime :: "int runtime" where
  "example_runtime \<equiv> create_runtime standard_library db_create"

lemma example_runtime_cache: "rt_library_cache example_runtime = create_library_cache standard_library"
  by (simp add: create_runtime_def)

lemma parse_del_foo: "parse_command ''DEL foo'' = Some \<lparr>cmd_identifier = ''DEL'', cmd_parameters = [''foo'']\<rparr>"
  by code_simp

lemma parse_zcard_s: "parse_command ''ZCARD s'' = Some \<lparr>cmd_identifier = ''ZCARD'', cmd_parameters = [''s'']\<rparr>"
  by code_simp

lemma example_runtime_zcard: "execute example_env ''ZCARD s'' example_runtime = Inr ([''0''], example_runtime)"
proof -
  have "get_function_key ''ZCARD'' 1 = ''ZCARD_1''" by code_simp
  then show ?thesis
    unfolding execute_def parse_zcard_s create_runtime_def standard_library_cache
    by (simp add: standard_library_def std_zcard_def db_get_sorted_set_def db_lookup_def db_create_def)
qed

lemma example_runtime_set:
  "execute example_env ''SET foo bar'' example_runtime =
   Inr (ok_result, example_runtime\<lparr>rt_db := db_set_single_value ''foo'' ''bar'' 0 db_create\<rparr>)"
proof -
  have "parse_command ''SET foo bar'' = Some \<lparr>cmd_identifier = ''SET'', cmd_parameters = [''foo'', ''bar'']\<rparr>"
    by code_simp
  then show ?thesis
    unfolding execute_def create_runtime_def standard_library_cache
    by (simp add: get_function_key_set_get standard_library_def std_set_def)
qed

lemma example_runtime_zcard_string:
  "execute example_env ''ZCARD foo'' (example_runtime\<lparr>rt_db := db_set_single_value ''foo'' ''bar'' 0 db_create\<rparr>) =
   Inl TypeAssertionPanic"
proof -
  have "get_function_key ''ZCARD'' 1 = ''ZCARD_1''" by code_simp
  moreover have "parse_command ''ZCARD foo'' = Some \<lparr>cmd_identifier = ''ZCARD'', cmd_parameters = [''foo'']\<rparr>"
    by code_simp
  ultimately show ?thesis
    unfolding execute_def create_runtime_def standard_library_cache
    by (simp add: standard_library_def std_zcard_def db_get_sorted_set_def db_set_single_value_store)
qed

theorem reachable_panics_typed_witness:
  "reachable (example_runtime\<lparr>rt_db := db_set_single_value ''foo'' ''bar'' 0 db_create\<rparr>) \<and>
   execute example_env ''ZCARD foo'' (example_runtime\<lparr>rt_db := db_set_single_value ''foo'' ''bar'' 0 db_create\<rparr>) =
     Inl TypeAssertionPanic"
proof -
  have r: "reachable (example_runtime\<lparr>rt_db := db_set_single_value ''foo'' ''bar'' 0 db_create\<rparr>)"
    using reachable.init example_runtime_set by (rule reachable.step)
  show ?thesis using reachable_panics_typed [OF r example_runtime_zcard_string] r example_runtime_zcard_string
    by simp
qed

theorem execute_variadic_unknown_witness:
  "rt_library_cache example_runtime = create_library_cache standard_library \<and>
   parse_command ''DEL foo'' = Some \<lparr>cmd_identifier = ''DEL'', cmd_parameters = [''foo'']\<rparr> \<and>
   execute example_env ''DEL foo'' example_runtime = Inr (unknown_command_result, example_runtime)"
  using execute_variadic_unknown [OF example_runtime_cache parse_del_foo] example_runtime_cache parse_del_foo
  by simp

theorem reachable_strings_only_witness:
  "reachable (example_runtime\<lparr>rt_db := db_set_single_value ''foo'' ''bar'' 0 db_create\<rparr>) \<and>
   db_inv (db_set_single_value ''foo'' ''bar'' 0 (db_create :: int database)) \<and>
   db_lookup (db_set_single_value ''foo'' ''bar'' 0 (db_create :: int database)) ''foo'' =
     Some \<lparr>value_data_type = SingleValue, value_expire_time = 0, value_data = StringData ''bar''\<rparr> \<and>
   value_data_type \<lparr>value_data_type = SingleValue, value_expire_time = 0, value_data = StringData ''bar''\<rparr> = SingleValue"
proof -
  have r: "reachable (example_runtime\<lparr>rt_db := db_set_single_value ''foo'' ''bar'' 0 db_create\<rparr>)"
    using reachable.init example_runtime_set by (rule reachable.step)
  have l: "db_lookup (db_set_single_value ''foo'' ''bar'' 0 (db_create :: int database)) ''foo'' =
     Some \<lparr>value_data_type = SingleValue, value_expire_time = 0, value_data = StringData ''bar''\<rparr>"
    by (simp add: db_set_single_value_store)
  show ?thesis using reachable_strings_only [OF r] r l by (simp add: create_runtime_def)
qed

theorem reachable_set_commands_inert_witness:
  "reachable example_runtime \<and> parse_command ''ZCARD s'' = Some \<lparr>cmd_identifier = ''ZCARD'', cmd_parameters = [''s'']\<rparr> \<and>
   execute example_env ''ZCARD s'' example_runtime = Inr ([''0''], example_runtime) \<and>
   example_runtime = example_runtime \<and>
   [''0''] \<in> {[''0''], empty_result, nil_result, unknown_command_result, invalid_parameters_result}"
  using reachable_set_commands_inert [OF reachable.init parse_zcard_s _ example_runtime_zcard]
    reachable.init parse_zcard_s example_runtime_zcard
  by simp

theorem execute_set_get_witness:
  "rt_library_cache example_runtime = create_library_cache standard_library \<and> plain_token ''foo'' \<and> plain_token ''bar'' \<and>
   (\<exists>rt'. execute example_env (print_plain ''SET'' [''foo'', ''bar'']) example_runtime = Inr (ok_result, rt') \<and>
      execute example_env (print_plain ''GET'' [''foo'']) rt' = Inr ([''bar''], rt'))"
proof -
  have h: "plain_token ''foo''" "plain_token ''bar''" by (simp_all add: plain_token_def plain_char_def)
  show ?thesis using execute_set_get [OF example_runtime_cache h, of example_env example_env] example_runtime_cache h
    by blast
qed

end
