(* ===== verification/Server.thy ===== *)
theory Server
  imports Runtime
begin

text \<open>
  The HTTP front-end of \<open>src/source/server/\<close>: the REST translator of \<open>rest.go\<close>
  (\<open>buildCommandLineFromREST\<close> and the three builders of \<open>validRequests\<close>) and the
  request handler \<open>httpServer.ServeHTTP\<close> of \<open>http.go\<close>. A request is the record
  \<open>http_request\<close>: method, escaped path, the query as a list of names with their values
  in the order in which Go's map iteration visits them (Go randomises this order, so
  the properties quantify over it), and the body. \<open>strings.Split\<close> with a one-character
  separator is \<open>split_on\<close> and \<open>strings.Join\<close> is \<open>join_with\<close>. The request id, the log
  lines and the socket listener are not modelled; the query is taken after URL decoding.
  The \<open>Server\<close> object of \<open>server.go\<close> is the record \<open>server\<close>, and \<open>Run\<close> is \<open>server_run\<close>
  over the sequence of requests the listener accepts.

  \<open>ServeHTTP\<close> writes 400 for an empty command line, and otherwise the space-joined
  result of \<open>Execute\<close> when it is not \<open>nil\<close>, and 500 else. Every result \<open>Execute\<close> can
  return is a non-nil slice (a composite literal of \<open>vm.go\<close>, a \<open>[]string{...}\<close>
  literal or a \<open>make\<close>), so the model has no nil result and the 500 branch is the dead
  branch of \<open>serve_http\<close>. A panic of a handler is the \<open>Inl\<close> value (\<open>net/http\<close>
  recovers it and closes the connection without a response).
\<close>

subsection \<open>Library functions\<close>

fun split_on :: "char \<Rightarrow> string \<Rightarrow> string list" where
  "split_on c [] = [[]]"
| "split_on c (x # xs) =
     (if x = c then [] # split_on c xs
      else (case split_on c xs of w # ws \<Rightarrow> (x # w) # ws | [] \<Rightarrow> [[x]]))"

fun join_with :: "string \<Rightarrow> string list \<Rightarrow> string" where
  "join_with sep [] = []"
| "join_with sep [x] = x"
| "join_with sep (x # y # xs) = x @ sep @ join_with sep (y # xs)"

definition lower_char :: "char \<Rightarrow> char" where
  "lower_char c = (if CHR ''A'' \<le> c \<and> c \<le> CHR ''Z'' then char_of (of_char c + (32::nat)) else c)"

definition to_lower :: "string \<Rightarrow> string" where
  "to_lower s = map lower_char s"

subsection \<open>The REST translator\<close>

definition db_builder :: "string \<Rightarrow> string list \<Rightarrow> string" where
  "db_builder method ps = (if length ps = 1 \<and> to_lower (ps ! 0) = ''size'' then ''DBSIZE'' else [])"

definition values_builder :: "string \<Rightarrow> string list \<Rightarrow> string" where
  "values_builder method ps =
     (if method = ''GET'' then (if length ps = 1 then ''GET '' @ ps ! 0 else [])
      else if method = ''PUT'' then
        (if length ps = 2 then ''SET '' @ ps ! 0 @ '' '' @ ps ! 1
         else if length ps = 3 then ''SET '' @ ps ! 0 @ '' '' @ ps ! 1 @ '' EX '' @ ps ! 2
         else [])
      else if method = ''PATCH'' then (if length ps = 1 then ''INCR '' @ ps ! 0 else [])
      else if method = ''DELETE'' then (if length ps = 1 then ''DEL '' @ ps ! 0 else [])
      else [])"

definition sets_builder :: "string \<Rightarrow> string list \<Rightarrow> string" where
  "sets_builder method ps =
     (if method = ''GET'' then
        (if length ps = 1 then ''ZRANGE '' @ ps ! 0 @ '' 0 -1''
         else if length ps = 2 then (if ps ! 1 = ''size'' then ''ZCARD '' @ ps ! 0 else [])
         else if length ps = 3 then
           (if ps ! 1 = ''rank'' then ''ZRANK '' @ ps ! 0 @ '' '' @ ps ! 2
            else if ps ! 1 = ''start'' then ''ZRANGE '' @ ps ! 0 @ '' '' @ ps ! 2 @ '' -1''
            else if ps ! 1 = ''stop'' then ''ZRANGE '' @ ps ! 0 @ '' 0 '' @ ps ! 2
            else [])
         else if length ps = 5 then
           (if (ps ! 1 = ''start'' \<and> ps ! 3 = ''stop'') \<or> (ps ! 1 = ''stop'' \<and> ps ! 3 = ''start'') then
              (let (si, ti) = (if ps ! 1 = ''stop'' then (4::nat, 2::nat) else (2, 4))
               in ''ZRANGE '' @ ps ! 0 @ '' '' @ ps ! si @ '' '' @ ps ! ti)
            else [])
         else [])
      else if method = ''PUT'' then
        (if 3 \<le> length ps \<and> odd (length ps) then ''ZADD '' @ join_with '' '' ps else [])
      else [])"

record request_interpreter =
  valid_methods :: "string list"
  builder :: "string \<Rightarrow> string list \<Rightarrow> string"

definition valid_requests :: "string \<rightharpoonup> request_interpreter" where
  "valid_requests =
     [''db'' \<mapsto> \<lparr>valid_methods = [''GET''], builder = db_builder\<rparr>,
      ''values'' \<mapsto> \<lparr>valid_methods = [''GET'', ''PUT'', ''PATCH'', ''DELETE''], builder = values_builder\<rparr>,
      ''sets'' \<mapsto> \<lparr>valid_methods = [''GET'', ''PUT''], builder = sets_builder\<rparr>]"

record http_request =
  req_method :: string
  req_escaped_path :: string
  req_query :: "(string \<times> string list) list"
  req_body :: string

definition request_parts :: "http_request \<Rightarrow> string list" where
  "request_parts req =
     tl (split_on CHR ''/'' (req_escaped_path req)) @
     concat (map (\<lambda>(n, vs). [n, hd vs]) (req_query req)) @
     (if req_body req \<noteq> [] then split_on CHR '' '' (req_body req) else [])"

definition build_command_line_from_rest :: "http_request \<Rightarrow> string" where
  "build_command_line_from_rest req =
     (let parts = request_parts req
      in if length parts < 1 then []
         else (case valid_requests (hd parts) of
                 None \<Rightarrow> []
               | Some i \<Rightarrow> (if req_method req \<in> set (valid_methods i) then builder i (req_method req) (tl parts)
                           else [])))"

subsection \<open>ServeHTTP\<close>

text \<open>\<open>request.URL.Query().Get("cmd")\<close>: the first value of \<open>cmd\<close>, or the empty string.\<close>

definition query_get :: "(string \<times> string list) list \<Rightarrow> string \<Rightarrow> string" where
  "query_get q n = (case map_of q n of Some (v # _) \<Rightarrow> v | _ \<Rightarrow> [])"

definition serve_http :: "'s::linorder env \<Rightarrow> http_request \<Rightarrow> 's runtime \<Rightarrow> ((nat \<times> string) \<times> 's runtime) go" where
  "serve_http env req rt =
     (let line = (if req_method req = ''GET'' \<and> req_escaped_path req = ''/'' then query_get (req_query req) ''cmd''
                  else build_command_line_from_rest req)
      in if line = [] then Inr ((400, []), rt)
         else (case execute env line rt of
                 Inl p \<Rightarrow> Inl p
               | Inr (r, rt') \<Rightarrow> Inr ((200, join_with '' '' r), rt')))"

subsection \<open>The server object\<close>

text \<open>\<open>Server\<close> of \<open>server.go\<close> and its constructor.\<close>

record 's server =
  srv_address :: string
  srv_runtime :: "'s runtime"

definition server_create :: "string \<Rightarrow> 's runtime \<Rightarrow> 's server" where
  "server_create address rt = \<lparr>srv_address = address, srv_runtime = rt\<rparr>"

text \<open>\<open>Run\<close>: \<open>http.ListenAndServe\<close> hands every accepted request to \<open>ServeHTTP\<close> on the one
  runtime the server holds. The listener is modelled by the sequence of requests in the order
  their handlers run (one at a time: the interleaving of handlers is the subject of the theory
  \<open>Concurrency\<close>). \<open>net/http\<close> recovers a panicking handler and drops its connection: the
  response is the \<open>Inl\<close> panic and the server serves on with the runtime it had, which is
  exact for the panics the reachable runtimes raise (the type assertion of
  \<open>GetSortedSet\<close>, raised before any write; \<open>Runtime.reachable_panics_typed\<close>).\<close>

fun server_run :: "('s::linorder env \<times> http_request) list \<Rightarrow> 's server \<Rightarrow> (nat \<times> string) go list \<times> 's server" where
  "server_run [] srv = ([], srv)"
| "server_run ((env, req) # reqs) srv =
     (case serve_http env req (srv_runtime srv) of
        Inl p \<Rightarrow> (let (rs, srv') = server_run reqs srv in (Inl p # rs, srv'))
      | Inr (resp, rt') \<Rightarrow> (let (rs, srv') = server_run reqs (srv\<lparr>srv_runtime := rt'\<rparr>) in (Inr resp # rs, srv')))"

subsection \<open>Splitting and joining\<close>

lemma split_on_no_sep: "c \<notin> set w \<Longrightarrow> split_on c w = [w]"
  by (induction w) auto

lemma split_on_append: "c \<notin> set w \<Longrightarrow> split_on c (w @ c # rest) = w # split_on c rest"
  by (induction w) (auto split: list.split)

lemma plain_token_no_space: "plain_token w \<Longrightarrow> CHR '' '' \<notin> set w"
  by (auto simp: plain_token_def plain_char_def list_all_iff)

lemma values_path_parts:
  "CHR ''/'' \<notin> set k \<Longrightarrow> tl (split_on CHR ''/'' (''/values/'' @ k)) = [''values'', k]"
  by (simp add: split_on_no_sep)

lemma sets_path_parts:
  "CHR ''/'' \<notin> set k \<Longrightarrow> tl (split_on CHR ''/'' (''/sets/'' @ k)) = [''sets'', k]"
  by (simp add: split_on_no_sep)

lemma body_parts:
  "plain_token k \<Longrightarrow> plain_token v \<Longrightarrow> split_on CHR '' '' (k @ '' '' @ v) = [k, v]"
  by (simp add: split_on_append split_on_no_sep plain_token_no_space)

text \<open>The translations of the REST requests for GET, SET and DEL on \<open>/values\<close>.\<close>

lemma rest_values_get:
  "CHR ''/'' \<notin> set k \<Longrightarrow>
   build_command_line_from_rest \<lparr>req_method = ''GET'', req_escaped_path = ''/values/'' @ k, req_query = [], req_body = []\<rparr> =
   print_plain ''GET'' [k]"
  unfolding build_command_line_from_rest_def request_parts_def
  by (simp only: http_request.simps values_path_parts not_False_eq_True) (simp add: valid_requests_def values_builder_def print_plain_def)

lemma rest_values_delete:
  "CHR ''/'' \<notin> set k \<Longrightarrow>
   build_command_line_from_rest \<lparr>req_method = ''DELETE'', req_escaped_path = ''/values/'' @ k, req_query = [], req_body = []\<rparr> =
   print_plain ''DEL'' [k]"
  unfolding build_command_line_from_rest_def request_parts_def
  by (simp only: http_request.simps values_path_parts not_False_eq_True) (simp add: valid_requests_def values_builder_def print_plain_def)

lemma rest_values_put:
  "plain_token k \<Longrightarrow> plain_token v \<Longrightarrow>
   build_command_line_from_rest \<lparr>req_method = ''PUT'', req_escaped_path = ''/values'', req_query = [], req_body = k @ '' '' @ v\<rparr> =
   print_plain ''SET'' [k, v]"
  unfolding build_command_line_from_rest_def request_parts_def
  by (simp only: http_request.simps body_parts) (simp add: valid_requests_def values_builder_def print_plain_def plain_token_def)

lemma print_plain_nonempty: "print_plain i ps = [] \<longleftrightarrow> i = [] \<and> (ps = [])"
  by (simp add: print_plain_def)

lemma serve_http_rest:
  assumes "req_method req = ''GET'' \<longrightarrow> req_escaped_path req \<noteq> ''/''" "build_command_line_from_rest req = line" "line \<noteq> []"
  shows "serve_http env req rt =
         (case execute env line rt of Inl p \<Rightarrow> Inl p | Inr (r, rt') \<Rightarrow> Inr ((200, join_with '' '' r), rt'))"
  using assms by (auto simp: serve_http_def Let_def)

lemma join_with_single: "join_with sep [x] = x"
  by simp

lemma to_upper_del: "to_upper ''DEL'' = ''DEL''"
  by (simp add: to_upper_def upper_char_def less_eq_char_def)

text \<open>A body whose value has no space, translated; and \<open>GET /sets/k\<close>, translated to
  \<open>ZRANGE k 0 -1\<close>.\<close>

lemma body_parts_spaceless:
  "plain_token k \<Longrightarrow> CHR '' '' \<notin> set v \<Longrightarrow> split_on CHR '' '' (k @ CHR '' '' # v) = [k, v]"
  by (simp add: split_on_append split_on_no_sep plain_token_no_space)

lemma rest_values_put_raw:
  "plain_token k \<Longrightarrow> CHR '' '' \<notin> set v \<Longrightarrow>
   build_command_line_from_rest \<lparr>req_method = ''PUT'', req_escaped_path = ''/values'', req_query = [], req_body = k @ '' '' @ v\<rparr> =
   ''SET '' @ k @ '' '' @ v"
  unfolding build_command_line_from_rest_def request_parts_def
  by (simp add: body_parts_spaceless valid_requests_def values_builder_def)



text \<open>A server whose runtime is reachable stays reachable through any sequence of requests,
  answers each request once, and drops a connection only on a type-assertion panic.\<close>

lemma serve_http_reachable:
  "reachable rt \<Longrightarrow> serve_http env req rt = Inr (x, rt') \<Longrightarrow> reachable rt'"
  by (auto simp: serve_http_def Let_def intro: reachable.step split: if_splits sum.splits prod.splits)

lemma serve_http_panic:
  "reachable rt \<Longrightarrow> serve_http env req rt = Inl p \<Longrightarrow> p = TypeAssertionPanic"
  by (auto simp: serve_http_def Let_def dest: reachable_execute_panic split: if_splits sum.splits prod.splits)

lemma server_run_reachable:
  "reachable (srv_runtime srv) \<Longrightarrow>
   reachable (srv_runtime (snd (server_run reqs srv))) \<and>
   set (fst (server_run reqs srv)) \<subseteq> range Inr \<union> {Inl TypeAssertionPanic} \<and>
   length (fst (server_run reqs srv)) = length reqs \<and> srv_address (snd (server_run reqs srv)) = srv_address srv"
proof (induction reqs arbitrary: srv)
  case Nil
  then show ?case by simp
next
  case (Cons a reqs)
  obtain env req where a: "a = (env, req)" by fastforce
  show ?case
  proof (cases "serve_http env req (srv_runtime srv)")
    case (Inl p)
    then show ?thesis using Cons.IH [OF Cons.prems] serve_http_panic [OF Cons.prems Inl] a
      by (simp add: case_prod_beta)
  next
    case (Inr x)
    obtain resp rt' where x: "x = (resp, rt')" by fastforce
    have "reachable (srv_runtime (srv\<lparr>srv_runtime := rt'\<rparr>))"
      using serve_http_reachable [OF Cons.prems] Inr x by simp
    then show ?thesis using Cons.IH [of "srv\<lparr>srv_runtime := rt'\<rparr>"] Inr x a by (simp add: case_prod_beta)
  qed
qed

subsection \<open>Properties of the HTTP front-end\<close>

text \<open>C18: \<open>PUT /values\<close> with the body \<open>k v\<close> answers 200 \<open>OK\<close>, and a later
  \<open>GET /values/k\<close> answers 200 with the body \<open>v\<close>, for plain tokens \<open>k\<close> (without \<open>/\<close>)
  and \<open>v\<close>: the REST translation, the tokenizer, dispatch and the handlers agree.\<close>

theorem rest_put_get:
  assumes cache: "rt_library_cache rt = create_library_cache standard_library"
    and k: "plain_token k" "CHR ''/'' \<notin> set k" and v: "plain_token v"
  shows "\<exists>rt'. serve_http env \<lparr>req_method = ''PUT'', req_escaped_path = ''/values'', req_query = [],
                               req_body = k @ '' '' @ v\<rparr> rt = Inr ((200, ok_message), rt') \<and>
               serve_http env' \<lparr>req_method = ''GET'', req_escaped_path = ''/values/'' @ k, req_query = [],
                               req_body = []\<rparr> rt' = Inr ((200, v), rt')"
proof -
  obtain rt' where r: "execute env (print_plain ''SET'' [k, v]) rt = Inr (ok_result, rt')"
      "execute env' (print_plain ''GET'' [k]) rt' = Inr ([v], rt')"
    using execute_set_then_get [OF cache k(1) v] by blast
  have "serve_http env \<lparr>req_method = ''PUT'', req_escaped_path = ''/values'', req_query = [],
          req_body = k @ '' '' @ v\<rparr> rt = Inr ((200, ok_message), rt')"
  proof -
    have "serve_http env \<lparr>req_method = ''PUT'', req_escaped_path = ''/values'', req_query = [],
            req_body = k @ '' '' @ v\<rparr> rt =
          (case execute env (print_plain ''SET'' [k, v]) rt of
             Inl p \<Rightarrow> Inl p | Inr (r, rt') \<Rightarrow> Inr ((200, join_with '' '' r), rt'))"
      by (rule serve_http_rest) (simp, rule rest_values_put [OF k(1) v], simp add: print_plain_def)
    then show ?thesis using r(1) by (simp add: ok_result_def)
  qed
  moreover have "serve_http env' \<lparr>req_method = ''GET'', req_escaped_path = ''/values/'' @ k, req_query = [],
          req_body = []\<rparr> rt' = Inr ((200, v), rt')"
  proof -
    have "serve_http env' \<lparr>req_method = ''GET'', req_escaped_path = ''/values/'' @ k, req_query = [],
            req_body = []\<rparr> rt' =
          (case execute env' (print_plain ''GET'' [k]) rt' of
             Inl p \<Rightarrow> Inl p | Inr (r, rt'') \<Rightarrow> Inr ((200, join_with '' '' r), rt''))"
      by (rule serve_http_rest) (simp, rule rest_values_get [OF k(2)], simp add: print_plain_def)
    then show ?thesis using r(2) by simp
  qed
  ultimately show ?thesis by blast
qed

text \<open>C27: \<open>DELETE /values/k\<close> is translated to \<open>DEL k\<close>, which dispatch
  does not find: the answer is 200 with the unknown-command message and the key stays.\<close>

theorem rest_delete_unknown:
  assumes cache: "rt_library_cache rt = create_library_cache standard_library"
    and k: "plain_token k" "CHR ''/'' \<notin> set k"
  shows "serve_http env \<lparr>req_method = ''DELETE'', req_escaped_path = ''/values/'' @ k, req_query = [],
                         req_body = []\<rparr> rt = Inr ((200, unknown_command_error_message), rt)"
proof -
  have t: "plain_token ''DEL''" by (simp add: plain_token_def plain_char_def)
  have p: "parse_command (print_plain ''DEL'' [k]) = Some \<lparr>cmd_identifier = ''DEL'', cmd_parameters = [k]\<rparr>"
    using parse_command_print_plain [OF t, of "[k]"] k(1) to_upper_del by simp
  have "execute env (print_plain ''DEL'' [k]) rt = Inr (unknown_command_result, rt)"
    using execute_params_unknown [OF cache p] by simp
  moreover have "serve_http env \<lparr>req_method = ''DELETE'', req_escaped_path = ''/values/'' @ k, req_query = [],
            req_body = []\<rparr> rt =
          (case execute env (print_plain ''DEL'' [k]) rt of
             Inl p \<Rightarrow> Inl p | Inr (r, rt') \<Rightarrow> Inr ((200, join_with '' '' r), rt'))"
    by (rule serve_http_rest) (simp, rule rest_values_delete [OF k(2)], simp add: print_plain_def)
  ultimately show ?thesis by (simp add: unknown_command_result_def)
qed

text \<open>\<open>GET /sets/k?start=a&stop=b\<close> is translated to
  \<open>ZRANGE k a b\<close> whichever order Go's map iteration gives the two query parameters.\<close>

theorem rest_range_query_order:
  assumes "CHR ''/'' \<notin> set k"
  shows "build_command_line_from_rest \<lparr>req_method = ''GET'', req_escaped_path = ''/sets/'' @ k,
            req_query = [(''start'', a # as), (''stop'', b # bs)], req_body = []\<rparr> = ''ZRANGE '' @ k @ '' '' @ a @ '' '' @ b \<and>
         build_command_line_from_rest \<lparr>req_method = ''GET'', req_escaped_path = ''/sets/'' @ k,
            req_query = [(''stop'', b # bs), (''start'', a # as)], req_body = []\<rparr> = ''ZRANGE '' @ k @ '' '' @ a @ '' '' @ b"
  using assms unfolding build_command_line_from_rest_def request_parts_def
  by (simp only: http_request.simps sets_path_parts not_False_eq_True) (simp add: valid_requests_def sets_builder_def)

text \<open>C31: the spec asks the REST translator to produce valid command lines,
  but the body of \<open>PUT /values\<close> is pasted into the line unchecked: for any plain key \<open>k\<close>
  and any value \<open>v\<close> without spaces that contains a backslash, the body \<open>k v\<close> becomes
  \<open>SET k v\<close>, which the tokenizer rejects, and the server answers 200 with the
  invalid-command-line message, leaving the runtime unchanged.\<close>

theorem rest_translation_invalid:
  assumes k: "plain_token k" and v: "CHR '' '' \<notin> set v" "backslash_char \<in> set v"
  shows "build_command_line_from_rest \<lparr>req_method = ''PUT'', req_escaped_path = ''/values'', req_query = [],
            req_body = k @ '' '' @ v\<rparr> = ''SET '' @ k @ '' '' @ v \<and>
         serve_http env \<lparr>req_method = ''PUT'', req_escaped_path = ''/values'', req_query = [],
            req_body = k @ '' '' @ v\<rparr> rt = Inr ((200, invalid_command_line_error_message), rt)"
proof -
  have b: "build_command_line_from_rest \<lparr>req_method = ''PUT'', req_escaped_path = ''/values'', req_query = [],
            req_body = k @ '' '' @ v\<rparr> = ''SET '' @ k @ '' '' @ v"
    by (rule rest_values_put_raw [OF k v(1)])
  have "parse_command (''SET '' @ k @ '' '' @ v) = None"
    using v(2) by (intro parse_command_backslash_none) simp
  then have "execute env (''SET '' @ k @ '' '' @ v) rt = Inr (invalid_command_line_result, rt)"
    by (simp add: execute_def)
  moreover have "serve_http env \<lparr>req_method = ''PUT'', req_escaped_path = ''/values'', req_query = [],
            req_body = k @ '' '' @ v\<rparr> rt =
          (case execute env (''SET '' @ k @ '' '' @ v) rt of
             Inl p \<Rightarrow> Inl p | Inr (r, rt') \<Rightarrow> Inr ((200, join_with '' '' r), rt'))"
    by (rule serve_http_rest) (simp, rule b, simp)
  ultimately show ?thesis using b by (simp add: invalid_command_line_result_def)
qed


text \<open>\<open>GET /?cmd=line\<close> executes the line as it is and answers 200
  with the space-joined result (or the handler's panic); other query parameters and the
  body are ignored.\<close>

theorem http_cmd_passthrough:
  assumes "map_of q ''cmd'' = Some (line # vs)" "line \<noteq> []"
  shows "serve_http env \<lparr>req_method = ''GET'', req_escaped_path = ''/'', req_query = q, req_body = b\<rparr> rt =
         (case execute env line rt of Inl p \<Rightarrow> Inl p | Inr (r, rt') \<Rightarrow> Inr ((200, join_with '' '' r), rt'))"
  using assms by (simp add: serve_http_def query_get_def)

subsection \<open>Witnesses\<close>

theorem rest_put_get_witness:
  "rt_library_cache example_runtime = create_library_cache standard_library \<and> plain_token ''foo'' \<and>
   CHR ''/'' \<notin> set ''foo'' \<and> plain_token ''bar'' \<and>
   (\<exists>rt'. serve_http example_env \<lparr>req_method = ''PUT'', req_escaped_path = ''/values'', req_query = [],
                               req_body = ''foo'' @ '' '' @ ''bar''\<rparr> example_runtime = Inr ((200, ok_message), rt') \<and>
          serve_http example_env \<lparr>req_method = ''GET'', req_escaped_path = ''/values/'' @ ''foo'', req_query = [],
                               req_body = []\<rparr> rt' = Inr ((200, ''bar''), rt'))"
proof -
  have h: "plain_token ''foo''" "CHR ''/'' \<notin> set ''foo''" "plain_token ''bar''"
    by (simp_all add: plain_token_def plain_char_def)
  show ?thesis using rest_put_get [OF example_runtime_cache h, of example_env example_env] example_runtime_cache h
    by blast
qed

theorem rest_delete_unknown_witness:
  "rt_library_cache example_runtime = create_library_cache standard_library \<and> plain_token ''foo'' \<and>
   CHR ''/'' \<notin> set ''foo'' \<and>
   serve_http example_env \<lparr>req_method = ''DELETE'', req_escaped_path = ''/values/'' @ ''foo'', req_query = [],
                         req_body = []\<rparr> example_runtime = Inr ((200, unknown_command_error_message), example_runtime)"
proof -
  have h: "plain_token ''foo''" "CHR ''/'' \<notin> set ''foo''"
    by (simp_all add: plain_token_def plain_char_def)
  show ?thesis using rest_delete_unknown [OF example_runtime_cache h, of example_env] example_runtime_cache h
    by blast
qed

theorem rest_range_query_order_witness:
  "CHR ''/'' \<notin> set ''s'' \<and>
   build_command_line_from_rest \<lparr>req_method = ''GET'', req_escaped_path = ''/sets/'' @ ''s'',
      req_query = [(''start'', [''0'']), (''stop'', [''2''])], req_body = []\<rparr> = ''ZRANGE '' @ ''s'' @ '' '' @ ''0'' @ '' '' @ ''2'' \<and>
   build_command_line_from_rest \<lparr>req_method = ''GET'', req_escaped_path = ''/sets/'' @ ''s'',
      req_query = [(''stop'', [''2'']), (''start'', [''0''])], req_body = []\<rparr> = ''ZRANGE '' @ ''s'' @ '' '' @ ''0'' @ '' '' @ ''2''"
  using rest_range_query_order [of "''s''" "''0''" "[]" "''2''" "[]"] by simp

theorem http_cmd_passthrough_witness:
  "map_of [(''cmd'', [''DBSIZE''])] ''cmd'' = Some (''DBSIZE'' # []) \<and> ''DBSIZE'' \<noteq> [] \<and>
   serve_http example_env \<lparr>req_method = ''GET'', req_escaped_path = ''/'', req_query = [(''cmd'', [''DBSIZE''])], req_body = []\<rparr>
     example_runtime =
   (case execute example_env ''DBSIZE'' example_runtime of Inl p \<Rightarrow> Inl p | Inr (r, rt') \<Rightarrow> Inr ((200, join_with '' '' r), rt'))"
  using http_cmd_passthrough [of "[(''cmd'', [''DBSIZE''])]" "''DBSIZE''" "[]" example_env "[]" example_runtime]
  by simp

theorem rest_translation_invalid_witness:
  "plain_token ''k'' \<and> CHR '' '' \<notin> set (''a'' @ [backslash_char] @ ''b'') \<and>
   backslash_char \<in> set (''a'' @ [backslash_char] @ ''b'') \<and>
   build_command_line_from_rest \<lparr>req_method = ''PUT'', req_escaped_path = ''/values'', req_query = [],
      req_body = ''k'' @ '' '' @ (''a'' @ [backslash_char] @ ''b'')\<rparr> = ''SET '' @ ''k'' @ '' '' @ (''a'' @ [backslash_char] @ ''b'') \<and>
   serve_http example_env \<lparr>req_method = ''PUT'', req_escaped_path = ''/values'', req_query = [],
      req_body = ''k'' @ '' '' @ (''a'' @ [backslash_char] @ ''b'')\<rparr> example_runtime =
     Inr ((200, invalid_command_line_error_message), example_runtime)"
proof -
  have h: "plain_token ''k''" "CHR '' '' \<notin> set (''a'' @ [backslash_char] @ ''b'')"
    "backslash_char \<in> set (''a'' @ [backslash_char] @ ''b'')"
    by (simp_all add: plain_token_def plain_char_def)
  show ?thesis
    by (rule conjI [OF h(1) conjI [OF h(2) conjI [OF h(3) rest_translation_invalid [OF h]]]])
qed


end
