(* ===== verification/Shell.thy ===== *)
theory Shell
  imports Server
begin

text \<open>
  The entry point and the interactive shell of \<open>src/source/arc.go\<close>. \<open>main\<close> chooses a
  mode from the command-line arguments (\<open>arc_main\<close>; the outcome names what the process
  does). \<open>runClient\<close> reads lines until \<open>EXIT\<close>; \<open>HELP\<close> prints the help string of every
  library function; any other line is executed, by the runtime in standalone mode
  (\<open>run_standalone\<close>) or by the server through \<open>GET /?cmd=line\<close> in client mode
  (\<open>run_client\<close>). The output is the list of lines \<open>println\<close> writes; the prompt, the log
  and the reading of standard input are not modelled. In client mode the request goes
  through \<open>url.QueryEscape\<close> and the server's query decoding, modelled as the identity
  (their round trip), and the server's state is threaded from one request to the next.
  A panic ends the process in standalone mode (the \<open>Inl\<close> value); in client mode the
  server recovers it, the request fails, and the client prints \<open>HTTP ERROR\<close> and goes on
  (the transport error text is not modelled). \<open>arc_program\<close> composes \<open>main\<close> with the three
  modes: \<open>printUsage\<close>, \<open>runServer\<close> (over \<open>Server.server_run\<close>) and \<open>runClient\<close>.
\<close>

datatype mode = ModeClient | ModeServer | ModeStandalone

datatype main_outcome = PrintUsageExit | RunMode mode | UnknownModeExit string

text \<open>\<open>main\<close>: \<open>os.Args\<close> includes the program name.\<close>

definition arc_main :: "string list \<Rightarrow> main_outcome" where
  "arc_main args =
     (if length args \<noteq> 2 then PrintUsageExit
      else if args ! 1 = ''client'' then RunMode ModeClient
      else if args ! 1 = ''server'' then RunMode ModeServer
      else if args ! 1 = ''standalone'' then RunMode ModeStandalone
      else UnknownModeExit (args ! 1))"

text \<open>The loop over \<open>vm.StandardLibrary\<close> printing \<open>GetHelp()\<close>.\<close>

definition help_lines :: "'s library \<Rightarrow> string list" where
  "help_lines lib = map lf_help lib"

fun run_standalone :: "('s::linorder env \<times> string) list \<Rightarrow> 's runtime \<Rightarrow> (string list \<times> 's runtime) go" where
  "run_standalone [] rt = Inr ([], rt)"
| "run_standalone ((env, l) # ls) rt =
     (if to_upper l = ''EXIT'' then Inr ([], rt)
      else if to_upper l = ''HELP'' then
        (case run_standalone ls rt of Inl p \<Rightarrow> Inl p | Inr (out, rt') \<Rightarrow> Inr (help_lines (standard_library :: 's library) @ out, rt'))
      else (case execute env l rt of
              Inl p \<Rightarrow> Inl p
            | Inr (r, rt') \<Rightarrow>
                (case run_standalone ls rt' of
                   Inl p \<Rightarrow> Inl p
                 | Inr (out, rt'') \<Rightarrow> Inr (join_with '' '' r # out, rt''))))"

definition client_request :: "string \<Rightarrow> http_request" where
  "client_request l = \<lparr>req_method = ''GET'', req_escaped_path = ''/'', req_query = [(''cmd'', [l])], req_body = []\<rparr>"

fun run_client :: "('s::linorder env \<times> string) list \<Rightarrow> 's runtime \<Rightarrow> string list \<times> 's runtime" where
  "run_client [] rt = ([], rt)"
| "run_client ((env, l) # ls) rt =
     (if to_upper l = ''EXIT'' then ([], rt)
      else if to_upper l = ''HELP'' then
        (let (out, rt') = run_client ls rt in (help_lines (standard_library :: 's library) @ out, rt'))
      else (case serve_http env (client_request l) rt of
              Inl p \<Rightarrow> (let (out, rt') = run_client ls rt in (''HTTP ERROR'' # out, rt'))
            | Inr ((status, body), rt') \<Rightarrow>
                (let (out, rt'') = run_client ls rt' in ((if body \<noteq> [] then [body] else []) @ out, rt''))))"

text \<open>What the client prints for one answer of the server (\<open>runClient\<close>, client mode): the
  body when it is not empty, \<open>HTTP ERROR\<close> when the request failed; and the requests
  \<open>GET /?cmd=line\<close> it sends for its lines.\<close>

definition client_print :: "(nat \<times> string) go \<Rightarrow> string list" where
  "client_print r = (case r of Inl p \<Rightarrow> [''HTTP ERROR''] | Inr (status, body) \<Rightarrow> if body \<noteq> [] then [body] else [])"

definition client_requests :: "('s env \<times> string) list \<Rightarrow> ('s env \<times> http_request) list" where
  "client_requests ls = map (\<lambda>(env, l). (env, client_request l)) ls"

text \<open>\<open>printUsage\<close>: the lines it prints.\<close>

definition usage_lines :: "string list" where
  "usage_lines =
     [''Usage: arc [mode]'', '''', ''Available modes:'',
      ''- client: run in client mode and connect to server at <localhost:8080>'',
      ''- server: run in server mode at <localhost:8080>'', ''- standalone: run in standalone mode'']"

text \<open>\<open>runServer\<close>: a fresh database and runtime with the standard library, the server at
  \<open>:8080\<close>, and \<open>Run\<close> on the requests it receives (it never returns; \<open>log.Fatal\<close> reports the
  listener's error, which is not modelled).\<close>

definition run_server :: "('s::linorder env \<times> http_request) list \<Rightarrow> (nat \<times> string) go list \<times> 's server" where
  "run_server reqs = server_run reqs (server_create '':8080'' (create_runtime standard_library db_create))"

text \<open>\<open>runClient(standalone)\<close>: in standalone mode a fresh database and runtime execute the
  lines; in client mode the lines go to the server, whose runtime \<open>server_rt\<close> is the one a
  \<open>runServer\<close> process holds.\<close>

definition run_client_mode :: "bool \<Rightarrow> ('s::linorder env \<times> string) list \<Rightarrow> 's runtime \<Rightarrow> (string list \<times> 's runtime) go" where
  "run_client_mode standalone ls server_rt =
     (if standalone then run_standalone ls (create_runtime standard_library db_create)
      else Inr (run_client ls server_rt))"

text \<open>The whole program: what \<open>main\<close> leads to, for the arguments, the lines typed at the
  shell, the requests a server receives, and the runtime of the server a client talks to.\<close>

datatype 's arc_outcome =
    ArcUsage "string list"
  | ArcFatal string
  | ArcServing "(nat \<times> string) go list" "'s server"
  | ArcSession "string list" "'s runtime"
  | ArcCrash go_panic

definition arc_program :: "string list \<Rightarrow> ('s::linorder env \<times> string) list \<Rightarrow> ('s env \<times> http_request) list \<Rightarrow>
    's runtime \<Rightarrow> 's arc_outcome" where
  "arc_program args ls reqs server_rt =
     (case arc_main args of
        PrintUsageExit \<Rightarrow> ArcUsage usage_lines
      | UnknownModeExit m \<Rightarrow> ArcFatal (''Unknown mode: '' @ m)
      | RunMode ModeServer \<Rightarrow> (let (rs, srv) = run_server reqs in ArcServing rs srv)
      | RunMode ModeClient \<Rightarrow>
          (case run_client_mode False ls server_rt of Inl p \<Rightarrow> ArcCrash p | Inr (out, rt) \<Rightarrow> ArcSession out rt)
      | RunMode ModeStandalone \<Rightarrow>
          (case run_client_mode True ls server_rt of Inl p \<Rightarrow> ArcCrash p | Inr (out, rt) \<Rightarrow> ArcSession out rt))"

subsection \<open>Lemmas\<close>

lemma serve_http_client_request:
  "l \<noteq> [] \<Longrightarrow>
   serve_http env (client_request l) rt =
   (case execute env l rt of Inl p \<Rightarrow> Inl p | Inr (r, rt') \<Rightarrow> Inr ((200, join_with '' '' r), rt'))"
  by (simp add: serve_http_def client_request_def query_get_def)

lemma parse_command_empty: "parse_command [] = None"
  by (simp add: parse_command_def parse_init_def parse_step_def)

lemma help_lines_standard_library:
  "help_lines (standard_library :: 's::linorder library) =
   [''SET key value'', ''SET key value EX seconds'', ''GET key'', ''DEL key [key...]'', ''DBSIZE'', ''INCR key'',
    ''ZADD key score member [score member...]'', ''ZCARD key'', ''ZRANK key member'', ''ZRANGE key start stop'']"
  by (simp add: help_lines_def standard_library_def)

lemma run_client_reachable: "reachable rt \<Longrightarrow> reachable (snd (run_client ls rt))"
proof (induction ls arbitrary: rt)
  case Nil
  then show ?case by simp
next
  case (Cons a ls)
  obtain env l where a: "a = (env, l)" by fastforce
  show ?case
  proof (cases "to_upper l = ''EXIT'' \<or> to_upper l = ''HELP''")
    case True
    then show ?thesis using Cons.IH [OF Cons.prems] Cons.prems a by (auto simp: case_prod_beta)
  next
    case False
    show ?thesis
    proof (cases "serve_http env (client_request l) rt")
      case (Inl p)
      then show ?thesis using False a Cons.IH [OF Cons.prems] by (simp add: case_prod_beta)
    next
      case (Inr x)
      obtain st b rt1 where x: "x = ((st, b), rt1)" by (metis prod.collapse)
      have "reachable rt1" using serve_http_reachable [OF Cons.prems] Inr x by simp
      then show ?thesis using False a Inr x Cons.IH [of rt1] by (simp add: case_prod_beta)
    qed
  qed
qed

lemma run_standalone_reachable:
  "reachable rt \<Longrightarrow>
   (case run_standalone ls rt of Inl p \<Rightarrow> p = TypeAssertionPanic | Inr (out, rt') \<Rightarrow> reachable rt')"
proof (induction ls arbitrary: rt)
  case Nil
  then show ?case by simp
next
  case (Cons a ls)
  obtain env l where a: "a = (env, l)" by fastforce
  show ?case
  proof (cases "to_upper l = ''EXIT'' \<or> to_upper l = ''HELP''")
    case True
    then show ?thesis using Cons.IH [OF Cons.prems] Cons.prems a by (auto split: sum.split prod.split)
  next
    case False
    show ?thesis
    proof (cases "execute env l rt")
      case (Inl p)
      then show ?thesis using False a reachable_execute_panic [OF Cons.prems Inl] by simp
    next
      case (Inr x)
      obtain r rt1 where x: "x = (r, rt1)" by fastforce
      have "reachable rt1" using reachable.step [OF Cons.prems] Inr x by blast
      then show ?thesis using False a Inr x Cons.IH [of rt1] by (auto split: sum.split prod.split)
    qed
  qed
qed

lemma client_print_simps [simp]:
  "client_print (Inl p) = [''HTTP ERROR'']" "client_print (Inr (status, body)) = (if body \<noteq> [] then [body] else [])"
  by (simp_all add: client_print_def)

lemma run_client_server_run:
  assumes "\<forall>(env, l) \<in> set ls. to_upper l \<noteq> ''EXIT'' \<and> to_upper l \<noteq> ''HELP''"
  shows "run_client ls (srv_runtime srv) =
    (concat (map client_print (fst (server_run (client_requests ls) srv))),
     srv_runtime (snd (server_run (client_requests ls) srv)))"
  using assms
proof (induction ls arbitrary: srv)
  case Nil
  then show ?case by (simp add: client_requests_def)
next
  case (Cons a ls)
  obtain env l where a: "a = (env, l)" by fastforce
  have nk: "to_upper l \<noteq> ''EXIT''" "to_upper l \<noteq> ''HELP''" using Cons.prems a by auto
  have IH: "\<And>srv. run_client ls (srv_runtime srv) =
    (concat (map client_print (fst (server_run (client_requests ls) srv))),
     srv_runtime (snd (server_run (client_requests ls) srv)))"
    using Cons.IH Cons.prems by simp
  show ?case
  proof (cases "serve_http env (client_request l) (srv_runtime srv)")
    case (Inl p)
    then show ?thesis using a nk IH [of srv]
      by (simp add: client_requests_def case_prod_beta)
  next
    case (Inr x)
    obtain st b rt1 where x: "x = ((st, b), rt1)" by (metis prod.collapse)
    show ?thesis using a nk Inr x IH [of "srv\<lparr>srv_runtime := rt1\<rparr>"]
      by (simp add: client_requests_def case_prod_beta)
  qed
qed

subsection \<open>Properties of the shell\<close>

text \<open>C19: the client shell, talking to a server over HTTP, prints what
  the standalone shell prints and leaves the server's runtime where the standalone
  shell leaves its own, for every session that does not panic, has no empty line and
  prints no empty line.\<close>

theorem shell_modes_agree:
  assumes "run_standalone ls rt = Inr (out, rt')" "\<forall>(env, l) \<in> set ls. l \<noteq> []" "\<forall>x \<in> set out. x \<noteq> []"
  shows "run_client ls rt = (out, rt')"
  using assms
proof (induction ls arbitrary: rt out)
  case Nil
  then show ?case by simp
next
  case (Cons el ls)
  obtain env l where el: "el = (env, l)" by fastforce
  show ?case
  proof (cases "to_upper l = ''EXIT'' \<or> to_upper l = ''HELP''")
    case True
    with Cons el show ?thesis by (auto split: sum.splits prod.splits)
  next
    case False
    obtain r rt1 where ex: "execute env l rt = Inr (r, rt1)"
      using Cons.prems(1) el False by (auto split: sum.splits)
    obtain out' where rest: "run_standalone ls rt1 = Inr (out', rt')" "out = join_with '' '' r # out'"
      using Cons.prems(1) el False ex by (auto split: sum.splits)
    have "l \<noteq> []" using Cons.prems(2) el by auto
    then have "serve_http env (client_request l) rt = Inr ((200, join_with '' '' r), rt1)"
      using ex by (simp add: serve_http_client_request)
    moreover have "run_client ls rt1 = (out', rt')"
      using Cons.IH [OF rest(1)] Cons.prems(2,3) rest(2) by simp
    ultimately show ?thesis using el False rest(2) Cons.prems(3) by simp
  qed
qed

text \<open>On an empty line the standalone shell prints
  \<open>Error: invalid command line\<close>, while the client shell prints nothing (the server
  answers 400 with an empty body): the two modes differ.\<close>

theorem shell_empty_line:
  "run_standalone [(env, [])] rt = Inr ([invalid_command_line_error_message], rt) \<and>
   run_client [(env, [])] rt = ([], rt)"
  by (simp add: execute_def parse_command_empty invalid_command_line_result_def to_upper_def serve_http_def
      client_request_def query_get_def)

text \<open>\<open>main\<close> runs the mode named by its single argument; with another
  number of arguments it prints the usage; with an unknown mode it exits through
  \<open>log.Fatalf\<close> without printing the usage, which the spec's CLI surface asks for.\<close>

theorem arc_main_modes:
  "arc_main [p, ''client''] = RunMode ModeClient \<and> arc_main [p, ''server''] = RunMode ModeServer \<and>
   arc_main [p, ''standalone''] = RunMode ModeStandalone \<and>
   arc_main [p] = PrintUsageExit \<and> arc_main [p, ''client'', ''x''] = PrintUsageExit \<and>
   arc_main [p, ''foo''] = UnknownModeExit ''foo''"
  by (simp add: arc_main_def)

text \<open>\<open>arc server\<close> serves at \<open>:8080\<close> from a fresh runtime; after any sequence of
  requests its runtime is reachable (so holds strings only, \<open>Runtime.reachable_strings_only\<close>),
  every request gets exactly one answer, and the only dropped connections are the
  type-assertion panics of the sorted-set commands.\<close>

theorem arc_server_safe:
  "case arc_program [p, ''server''] ls reqs srt of
     ArcServing rs srv \<Rightarrow> srv_address srv = '':8080'' \<and> reachable (srv_runtime srv) \<and> length rs = length reqs \<and>
       set rs \<subseteq> range Inr \<union> {Inl TypeAssertionPanic}
   | _ \<Rightarrow> False"
  using server_run_reachable [of "server_create '':8080'' (create_runtime standard_library db_create)" reqs]
  by (simp add: arc_program_def arc_main_def run_server_def server_create_def reachable.init case_prod_beta)

text \<open>A client session against a server whose runtime is reachable, and a
  standalone session, leave a reachable runtime behind; only the standalone shell can
  crash, and only on a type-assertion panic.\<close>

theorem arc_session_safe:
  assumes "reachable srt" "m \<in> {''client'', ''standalone''}"
  shows "case arc_program [p, m] ls reqs srt of
     ArcSession out rt \<Rightarrow> reachable rt
   | ArcCrash q \<Rightarrow> q = TypeAssertionPanic \<and> m = ''standalone''
   | _ \<Rightarrow> False"
  using assms run_client_reachable [OF assms(1), of ls] run_standalone_reachable [OF reachable.init, of ls]
  by (auto simp: arc_program_def arc_main_def run_client_mode_def split: prod.split sum.split)

text \<open>A client session without EXIT or HELP is the server's \<open>Run\<close> over
  the requests \<open>GET /?cmd=line\<close> of its lines: the client prints what the server answers,
  in order, and the server's runtime ends where \<open>server_run\<close> leaves it.\<close>

theorem client_session_server_run:
  assumes "\<forall>(env, l) \<in> set ls. to_upper l \<noteq> ''EXIT'' \<and> to_upper l \<noteq> ''HELP''"
  shows "run_client ls (srv_runtime srv) =
    (concat (map client_print (fst (server_run (client_requests ls) srv))),
     srv_runtime (snd (server_run (client_requests ls) srv)))"
  by (rule run_client_server_run [OF assms])

subsection \<open>Witnesses\<close>

lemma to_upper_set_foo_bar: "to_upper ''SET foo bar'' = ''SET FOO BAR''"
  by code_simp

lemma example_standalone_set:
  "run_standalone [(example_env, ''SET foo bar'')] example_runtime =
     Inr ([''OK''], example_runtime\<lparr>rt_db := db_set_single_value ''foo'' ''bar'' 0 db_create\<rparr>)"
proof -
  show ?thesis using example_runtime_set by (simp add: to_upper_set_foo_bar ok_result_def ok_message_def)
qed

theorem shell_modes_agree_witness:
  "run_standalone [(example_env, ''SET foo bar'')] example_runtime =
     Inr ([''OK''], example_runtime\<lparr>rt_db := db_set_single_value ''foo'' ''bar'' 0 db_create\<rparr>) \<and>
   run_client [(example_env, ''SET foo bar'')] example_runtime =
     ([''OK''], example_runtime\<lparr>rt_db := db_set_single_value ''foo'' ''bar'' 0 db_create\<rparr>)"
  using shell_modes_agree [OF example_standalone_set] example_standalone_set by simp

theorem arc_session_safe_witness:
  "reachable example_runtime \<and> ''standalone'' \<in> {''client'', ''standalone''} \<and>
   arc_program [''arc'', ''standalone''] [(example_env, ''SET foo bar'')] [] example_runtime =
     ArcSession [''OK''] (example_runtime\<lparr>rt_db := db_set_single_value ''foo'' ''bar'' 0 db_create\<rparr>) \<and>
   reachable (example_runtime\<lparr>rt_db := db_set_single_value ''foo'' ''bar'' 0 db_create\<rparr>)"
proof -
  have a: "arc_program [''arc'', ''standalone''] [(example_env, ''SET foo bar'')] [] example_runtime =
     ArcSession [''OK''] (example_runtime\<lparr>rt_db := db_set_single_value ''foo'' ''bar'' 0 db_create\<rparr>)"
    by (simp add: arc_program_def arc_main_def run_client_mode_def example_standalone_set del: run_standalone.simps)
  show ?thesis
    using arc_session_safe [OF reachable.init, of "''standalone''" "''arc''" "[(example_env, ''SET foo bar'')]" "[]"] a
    by (simp add: reachable.init)
qed

theorem client_session_server_run_witness:
  "to_upper ''SET foo bar'' \<noteq> ''EXIT'' \<and> to_upper ''SET foo bar'' \<noteq> ''HELP'' \<and>
   run_client [(example_env, ''SET foo bar'')] (srv_runtime (server_create '':8080'' example_runtime)) =
    (concat (map client_print (fst (server_run (client_requests [(example_env, ''SET foo bar'')])
       (server_create '':8080'' example_runtime)))),
     srv_runtime (snd (server_run (client_requests [(example_env, ''SET foo bar'')])
       (server_create '':8080'' example_runtime))))"
proof -
  have h: "\<forall>(env, l) \<in> set [(example_env, ''SET foo bar'')]. to_upper l \<noteq> ''EXIT'' \<and> to_upper l \<noteq> ''HELP''"
    by (simp add: to_upper_set_foo_bar)
  show ?thesis
    by (rule conjI [OF _ conjI [OF _ client_session_server_run [OF h]]]) (simp_all add: to_upper_set_foo_bar)
qed

end
