(* ===== verification/Concurrency.thy ===== *)
theory Concurrency
  imports Stdlib
begin

text \<open>
  Interleavings. Each exported method of \<open>Database\<close> holds the database lock for its
  whole body, and \<open>SortedSet.Add\<close>, \<open>AddEntry\<close> and \<open>Get\<close> hold the set's lock, so each
  of them is one atomic step; the other theories model each handler as one step. This
  theory splits the handlers that make several such calls into their steps and runs
  them interleaved with the steps of another handler, under an explicit schedule:
  \<^item> \<open>stdGet\<close> calls \<open>Has\<close> and then \<open>GetSingleValue\<close>, each reading the clock (\<open>get_step\<close>);
  \<^item> \<open>stdZadd\<close> calls \<open>Get\<close>, then \<open>SetSortedSet\<close> with a new set when the key was absent,
    then \<open>AddEntry\<close> on the \<open>*SortedSet\<close> it holds (\<open>zadd_step\<close>). The set is reached
    through a pointer, so here the keyspace maps keys to references into a heap of
    sets (\<open>zheap\<close>): a set replaced in the keyspace can still be mutated by the thread
    holding its old reference. The keyspace is restricted to never-expiring set keys,
    and one score-member pair is added;
  \<^item> \<open>GetRank\<close> runs \<open>checkSort\<close> without the set's lock; its steps are the sort with the
    rank loop, then \<open>isSorted = true\<close>, then the read of the rank (\<open>rank_step\<close>).
  Each step function is shown to compose, without interference, to the atomic model of
  the other theories.
\<close>

subsection \<open>GET: Has, then GetSingleValue\<close>

datatype get_pc = GetStart | GetChecked | GetDone "string list"

definition get_step :: "int64 \<Rightarrow> string \<Rightarrow> 's database \<Rightarrow> get_pc \<Rightarrow> get_pc go" where
  "get_step now k db pc = (case pc of
       GetStart \<Rightarrow> Inr (if db_has now db k then GetChecked else GetDone nil_result)
     | GetChecked \<Rightarrow> (case db_get_single_value now db k of Inl p \<Rightarrow> Inl p | Inr d \<Rightarrow> Inr (GetDone [d]))
     | GetDone r \<Rightarrow> Inr (GetDone r))"

text \<open>A schedule for one GET on key \<open>k\<close>: its own steps, each with the clock reading it
  takes, and the atomic writes of other handlers (DEL and SET of a key).\<close>

datatype get_event = GetStepAt int64 | OtherUnset string | OtherSet string string int64

fun get_run :: "string \<Rightarrow> get_event list \<Rightarrow> 's database \<Rightarrow> get_pc \<Rightarrow> ('s database \<times> get_pc) go" where
  "get_run k [] db pc = Inr (db, pc)"
| "get_run k (GetStepAt t # evs) db pc =
     (case get_step t k db pc of Inl p \<Rightarrow> Inl p | Inr pc' \<Rightarrow> get_run k evs db pc')"
| "get_run k (OtherUnset k' # evs) db pc = get_run k evs (snd (db_unset k' db)) pc"
| "get_run k (OtherSet k' d e # evs) db pc = get_run k evs (db_set_single_value k' d e db) pc"

subsection \<open>ZADD: Get, SetSortedSet, AddEntry through the pointer\<close>

record 's zheap =
  zh_keys :: "string \<rightharpoonup> nat"
  zh_sets :: "nat \<rightharpoonup> 's sorted_set"
  zh_next :: nat

definition zheap_empty :: "'s zheap" where
  "zheap_empty = \<lparr>zh_keys = Map.empty, zh_sets = Map.empty, zh_next = 0\<rparr>"

datatype zadd_pc = ZaddLookup | ZaddCreate | ZaddAdd nat | ZaddDone int64

definition zadd_step :: "'s sorted_set_entry \<Rightarrow> string \<Rightarrow> 's zheap \<Rightarrow> zadd_pc \<Rightarrow> 's zheap \<times> zadd_pc" where
  "zadd_step e k h pc = (case pc of
       ZaddLookup \<Rightarrow> (case zh_keys h k of None \<Rightarrow> (h, ZaddCreate) | Some r \<Rightarrow> (h, ZaddAdd r))
     | ZaddCreate \<Rightarrow>
         (let r = zh_next h
          in (h\<lparr>zh_keys := (zh_keys h)(k \<mapsto> r), zh_sets := (zh_sets h)(r \<mapsto> create_sorted_set), zh_next := Suc r\<rparr>,
              ZaddAdd r))
     | ZaddAdd r \<Rightarrow>
         (let (added, s') = ss_add_entry e (the (zh_sets h r))
          in (h\<lparr>zh_sets := (zh_sets h)(r \<mapsto> s')\<rparr>, ZaddDone (if added then 1 else 0)))
     | ZaddDone c \<Rightarrow> (h, ZaddDone c))"

text \<open>Two ZADDs on the same key under a schedule: \<open>True\<close> runs a step of the first,
  \<open>False\<close> a step of the second.\<close>

fun zadd_run2 :: "bool list \<Rightarrow> 's sorted_set_entry \<Rightarrow> 's sorted_set_entry \<Rightarrow> string \<Rightarrow>
    's zheap \<times> zadd_pc \<times> zadd_pc \<Rightarrow> 's zheap \<times> zadd_pc \<times> zadd_pc" where
  "zadd_run2 [] e1 e2 k st = st"
| "zadd_run2 (b # bs) e1 e2 k (h, p1, p2) =
     (if b then (let (h', p1') = zadd_step e1 k h p1 in zadd_run2 bs e1 e2 k (h', p1', p2))
      else (let (h', p2') = zadd_step e2 k h p2 in zadd_run2 bs e1 e2 k (h', p1, p2')))"

definition zheap_abs :: "'s zheap \<Rightarrow> string \<Rightarrow> (string \<rightharpoonup> 's) option" where
  "zheap_abs h k = map_option (\<lambda>r. ss_abs (the (zh_sets h r))) (zh_keys h k)"

text \<open>An upper bound on the steps a ZADD still has to take.\<close>

fun zadd_left :: "zadd_pc \<Rightarrow> nat" where
  "zadd_left ZaddLookup = 3"
| "zadd_left ZaddCreate = 2"
| "zadd_left (ZaddAdd r) = 1"
| "zadd_left (ZaddDone c) = 0"

subsection \<open>GetRank: checkSort without the lock\<close>

datatype rank_pc = RankStart | RankSorted | RankMarked | RankDone int64

definition rank_step :: "string \<Rightarrow> 's::linorder sorted_set \<Rightarrow> rank_pc \<Rightarrow> 's sorted_set \<times> rank_pc" where
  "rank_step m s pc = (case pc of
       RankStart \<Rightarrow>
         (if entries s m = None then (s, RankDone (-1))
          else if is_sorted s then (s, RankMarked)
          else (let seq = sort_key (seq_key s) (sorted_seq s)
                in (s\<lparr>sorted_seq := seq, entries := assign_ranks 0 seq (entries s)\<rparr>, RankSorted)))
     | RankSorted \<Rightarrow> (s\<lparr>is_sorted := True\<rparr>, RankMarked)
     | RankMarked \<Rightarrow> (s, RankDone (entry_rank (the (entries s m))))
     | RankDone r \<Rightarrow> (s, RankDone r))"

text \<open>A GetRank of \<open>m\<close> interleaved with AddEntry calls of other handlers.\<close>

datatype 's rank_event = RankStep | OtherAddEntry "'s sorted_set_entry"

fun rank_run :: "string \<Rightarrow> 's rank_event list \<Rightarrow> 's::linorder sorted_set \<Rightarrow> rank_pc \<Rightarrow> 's sorted_set \<times> rank_pc" where
  "rank_run m [] s pc = (s, pc)"
| "rank_run m (RankStep # evs) s pc = (let (s', pc') = rank_step m s pc in rank_run m evs s' pc')"
| "rank_run m (OtherAddEntry e # evs) s pc = rank_run m evs (snd (ss_add_entry e s)) pc"

subsection \<open>Sequential composition\<close>

lemma zheap_abs_create:
  "zheap_abs (h\<lparr>zh_keys := (zh_keys h)(k \<mapsto> r), zh_sets := (zh_sets h)(r \<mapsto> create_sorted_set), zh_next := n\<rparr>) k =
   Some Map.empty"
  by (simp add: zheap_abs_def ss_abs_def create_sorted_set_def)

lemma zadd_steps_absent:
  assumes "zh_keys h k = None"
  shows "\<exists>h'. zadd_run2 [True, True, True] e1 e2 k (h, ZaddLookup, p2) = (h', ZaddDone 1, p2) \<and>
              zh_keys h' k = Some (zh_next h) \<and>
              zh_sets h' (zh_next h) = Some (snd (ss_add_entry e1 create_sorted_set)) \<and>
              (\<forall>r. r \<noteq> zh_next h \<longrightarrow> zh_sets h' r = zh_sets h r)"
  using assms by (simp add: zadd_step_def Let_def ss_add_entry_def create_sorted_set_def split: prod.split)

lemma zadd_serial_absent:
  assumes "zh_keys h k = None" "entry_member e1 \<noteq> entry_member e2"
  shows "\<exists>h'. zadd_run2 [True, True, True, False, False, False] e1 e2 k (h, ZaddLookup, ZaddLookup) =
                (h', ZaddDone 1, ZaddDone 1) \<and>
              zheap_abs h' k = Some [entry_member e1 \<mapsto> entry_score e1, entry_member e2 \<mapsto> entry_score e2]"
  using assms
  by (simp add: zadd_step_def Let_def zheap_abs_def ss_add_entry_def create_sorted_set_def ss_abs_def
      fun_eq_iff split: prod.split)

lemma zadd_left_step:
  "zadd_left (snd (zadd_step e k h p)) < zadd_left p \<or> (zadd_left p = 0 \<and> snd (zadd_step e k h p) = p)"
  by (cases p) (auto simp: zadd_step_def Let_def split: option.split prod.split)

lemma zadd_left_zero: "zadd_left p = 0 \<longleftrightarrow> (\<exists>c. p = ZaddDone c)"
  by (cases p) auto

lemma zadd_run2_bound:
  "zadd_left p1 \<le> count_list bs True \<Longrightarrow> zadd_left p2 \<le> count_list bs False \<Longrightarrow>
   zadd_run2 bs e1 e2 k (h, p1, p2) = (h', p1', p2') \<Longrightarrow> zadd_left p1' = 0 \<and> zadd_left p2' = 0"
proof (induction bs arbitrary: h p1 p2)
  case Nil
  then show ?case by simp
next
  case (Cons b bs)
  show ?case
  proof (cases b)
    case True
    obtain h1 q where st: "zadd_step e1 k h p1 = (h1, q)" by fastforce
    have "zadd_left q \<le> count_list bs True"
      using zadd_left_step [of e1 k h p1] st Cons.prems(1) True by auto
    moreover have "zadd_left p2 \<le> count_list bs False" using Cons.prems(2) True by simp
    moreover have "zadd_run2 bs e1 e2 k (h1, q, p2) = (h', p1', p2')" using Cons.prems(3) True st by simp
    ultimately show ?thesis by (rule Cons.IH)
  next
    case False
    obtain h2 q where st: "zadd_step e2 k h p2 = (h2, q)" by fastforce
    have "zadd_left q \<le> count_list bs False"
      using zadd_left_step [of e2 k h p2] st Cons.prems(2) False by auto
    moreover have "zadd_left p1 \<le> count_list bs True" using Cons.prems(1) False by simp
    moreover have "zadd_run2 bs e1 e2 k (h2, p1, q) = (h', p1', p2')" using Cons.prems(3) False st by simp
    ultimately show ?thesis by (intro Cons.IH)
  qed
qed

text \<open>GetRank with an AddEntry of a new member between its sort and its mark.\<close>

lemma rank_run_add_between:
  assumes "\<not> is_sorted s" "entries s m \<noteq> None" "entries s (entry_member e) = None"
  shows "rank_run m [RankStep, OtherAddEntry e, RankStep, RankStep] s RankStart =
    (let seq = sort_key (seq_key s) (sorted_seq s);
         es = (assign_ranks 0 seq (entries s))(entry_member e \<mapsto>
                \<lparr>entry_member = entry_member e, entry_score = entry_score e, entry_rank = 0\<rparr>)
     in (s\<lparr>sorted_seq := seq @ [entry_member e], entries := es, is_sorted := True\<rparr>,
         RankDone (entry_rank (the (es m)))))"
proof -
  have "assign_ranks 0 (sort_key (seq_key s) (sorted_seq s)) (entries s) (entry_member e) = None"
    using assms(3) assign_ranks_dom [of 0 "sort_key (seq_key s) (sorted_seq s)" "entries s"] by blast
  moreover obtain y where "entries s m = Some y" using assms(2) by blast
  moreover have "m \<noteq> entry_member e" using assms(2,3) by auto
  ultimately show ?thesis using assms(1,3) by (simp add: rank_step_def ss_add_entry_def Let_def)
qed

subsection \<open>Properties of the interleavings\<close>

text \<open>Run without interference and at one clock reading, the two
  steps of GET give exactly the atomic handler \<open>std_get\<close> of theory \<open>Stdlib\<close>.\<close>

theorem get_steps_refine:
  "get_run k [GetStepAt (env_now env), GetStepAt (env_now env)] db GetStart =
   map_sum id (\<lambda>(r, db'). (db', GetDone r)) (std_get env db [k])"
  by (auto simp: get_step_def std_get_def split: sum.splits)

text \<open>C13: a DEL between the two steps of a GET of a live string \<open>d\<close> makes
  the GET answer the empty string. Run atomically before or after the DEL, the GET answers
  \<open>[d]\<close> or \<open>(nil)\<close>, so the compound GET is not linearizable (and the spec's invariant
  that \<open>has(K)\<close> is followed by a live \<open>get(K)\<close> fails).\<close>

theorem get_race_unset:
  assumes "db_lookup db k = Some v" "value_data_type v = SingleValue" "value_data v = StringData d"
    and "is_live (env_now env) v"
  shows "get_run k [GetStepAt (env_now env), OtherUnset k, GetStepAt (env_now env)] db GetStart =
           Inr (snd (db_unset k db), GetDone ['''']) \<and>
         std_get env db [k] = Inr ([d], db) \<and>
         std_get env (snd (db_unset k db)) [k] = Inr (nil_result, snd (db_unset k db))"
  using assms
  by (auto simp: get_step_def std_get_def db_has_def db_get_single_value_def db_unset_def is_live_def)

text \<open>C26: without any other handler, a GET whose \<open>Has\<close> reads the
  clock before the expiry time and whose \<open>GetSingleValue\<close> reads it at or after it
  answers the empty string, neither the value nor \<open>(nil)\<close>.\<close>

theorem get_expiry_between_calls:
  assumes "db_lookup db k = Some v" "value_data_type v = SingleValue" "value_data v = StringData d"
    and "value_expire_time v \<noteq> 0" "sint t1 < sint (value_expire_time v)" "sint (value_expire_time v) \<le> sint t2"
  shows "get_run k [GetStepAt t1, GetStepAt t2] db GetStart = Inr (db, GetDone [''''])"
  using assms by (simp add: get_step_def db_has_def db_get_single_value_def is_live_def)

text \<open>C12: two ZADDs of different members creating the same absent key, in any
  heap, interleaved as lookup, lookup, create, create, add, add: both answer 1, but the
  second \<open>SetSortedSet\<close> replaced the first thread's new set, so the first member is added
  to an unreachable set and lost. The spec requires compound ZADD, key creation included,
  to be linearizable, and both serial orders keep both members.\<close>

theorem zadd_lost_update:
  assumes "zh_keys h k = None" "entry_member e1 \<noteq> entry_member e2"
  shows "(\<exists>h'. zadd_run2 [True, False, True, False, True, False] e1 e2 k (h, ZaddLookup, ZaddLookup) =
            (h', ZaddDone 1, ZaddDone 1) \<and> zheap_abs h' k = Some [entry_member e2 \<mapsto> entry_score e2]) \<and>
         (\<exists>h'. zadd_run2 [True, True, True, False, False, False] e1 e2 k (h, ZaddLookup, ZaddLookup) =
            (h', ZaddDone 1, ZaddDone 1) \<and>
            zheap_abs h' k = Some [entry_member e1 \<mapsto> entry_score e1, entry_member e2 \<mapsto> entry_score e2]) \<and>
         (\<exists>h'. zadd_run2 [False, False, False, True, True, True] e1 e2 k (h, ZaddLookup, ZaddLookup) =
            (h', ZaddDone 1, ZaddDone 1) \<and>
            zheap_abs h' k = Some [entry_member e1 \<mapsto> entry_score e1, entry_member e2 \<mapsto> entry_score e2])"
  using assms
  by (simp add: zadd_step_def Let_def zheap_abs_def ss_add_entry_def create_sorted_set_def ss_abs_def
      fun_eq_iff split: prod.split)

text \<open>No ZADD waits for another: under every schedule that gives each
  of two concurrent ZADDs at least three steps, both finish (the handler takes no lock
  across its store calls, so a schedule cannot block it).\<close>

theorem zadd_finishes:
  assumes "3 \<le> count_list bs True" "3 \<le> count_list bs False"
  shows "\<exists>h' c1 c2. zadd_run2 bs e1 e2 k (h, ZaddLookup, ZaddLookup) = (h', ZaddDone c1, ZaddDone c2)"
proof -
  obtain h' p1' p2' where r: "zadd_run2 bs e1 e2 k (h, ZaddLookup, ZaddLookup) = (h', p1', p2')"
    by (cases "zadd_run2 bs e1 e2 k (h, ZaddLookup, ZaddLookup)") auto
  then have "zadd_left p1' = 0 \<and> zadd_left p2' = 0"
    using assms by (intro zadd_run2_bound [OF _ _ r]) simp_all
  with r show ?thesis by (auto simp: zadd_left_zero)
qed

text \<open>Run without interference, the steps of GetRank give exactly the
  atomic \<open>ss_get_rank\<close> of theory \<open>SortedSet\<close>.\<close>

theorem rank_steps_refine:
  "rank_run m [RankStep, RankStep, RankStep] s RankStart = (snd (ss_get_rank m s), RankDone (fst (ss_get_rank m s)))"
  by (simp add: rank_step_def ss_get_rank_def ss_check_sort_def Let_def split: option.splits)

text \<open>C14: an AddEntry of a new member that runs between the sort of GetRank's
  \<open>checkSort\<close> and its \<open>isSorted = true\<close> corrupts any valid, unsorted set holding the
  ranked member: the new member is appended after the sort with rank 0, yet the set ends
  marked sorted, so it violates the representation invariant (its ranks are no longer the
  positions) while holding the new member's score.\<close>

theorem rank_race_breaks_order:
  assumes inv: "ss_inv s" and unsorted: "\<not> is_sorted s" and m: "entries s m \<noteq> None"
    and new: "entries s (entry_member e) = None" and len: "ss_len s < 2 ^ 64"
  shows "\<exists>s' r. rank_run m [RankStep, OtherAddEntry e, RankStep, RankStep] s RankStart = (s', RankDone r) \<and>
           is_sorted s' \<and> \<not> ss_inv s' \<and> ss_abs s' = (ss_abs s)(entry_member e \<mapsto> entry_score e)"
proof -
  let ?seq = "sort_key (seq_key s) (sorted_seq s)"
  let ?es = "(assign_ranks 0 ?seq (entries s))(entry_member e \<mapsto>
                \<lparr>entry_member = entry_member e, entry_score = entry_score e, entry_rank = 0\<rparr>)"
  let ?s' = "s\<lparr>sorted_seq := ?seq @ [entry_member e], entries := ?es, is_sorted := True\<rparr>"
  have run: "rank_run m [RankStep, OtherAddEntry e, RankStep, RankStep] s RankStart = (?s', RankDone (entry_rank (the (?es m))))"
    using rank_run_add_between [OF unsorted m new] by (simp add: Let_def)
  have n: "0 < length ?seq" "length ?seq < 2 ^ 64"
    using m inv len by (auto simp: ss_inv_def ss_len_def)
  have "\<not> ss_inv ?s'"
  proof
    assume "ss_inv ?s'"
    then have "ranks_ok ?s'" by (simp add: ss_inv_def)
    then have "map_option entry_rank (?es (entry_member e)) = Some (word_of_nat (length ?seq))"
      by (simp add: ranks_ok_def enumerate_append_eq)
    then have "(word_of_nat (length ?seq) :: int64) = 0" by simp
    with n show False by (auto simp: word_of_nat_eq_0_iff dest: dvd_imp_le)
  qed
  moreover have "ss_abs ?s' = (ss_abs s)(entry_member e \<mapsto> entry_score e)"
    by (simp add: ss_abs_def fun_eq_iff assign_ranks_score)
  ultimately show ?thesis using run by auto
qed

subsection \<open>Witnesses\<close>

abbreviation example_str_db :: "int database" where
  "example_str_db \<equiv> db_set_single_value ''k'' ''v'' 200 db_create"

theorem get_race_unset_witness:
  "db_lookup example_str_db ''k'' =
     Some \<lparr>value_data_type = SingleValue, value_expire_time = 200, value_data = StringData ''v''\<rparr> \<and>
   get_run ''k'' [GetStepAt (env_now example_env), OtherUnset ''k'', GetStepAt (env_now example_env)] example_str_db GetStart =
     Inr (snd (db_unset ''k'' example_str_db), GetDone ['''']) \<and>
   std_get example_env example_str_db [''k''] = Inr ([''v''], example_str_db)"
proof -
  have h: "db_lookup example_str_db ''k'' =
      Some \<lparr>value_data_type = SingleValue, value_expire_time = 200, value_data = StringData ''v''\<rparr>"
    "is_live (env_now example_env) \<lparr>value_data_type = SingleValue, value_expire_time = 200, value_data = StringData ''v''\<rparr>"
    by (simp_all add: db_set_single_value_store is_live_def)
  show ?thesis using get_race_unset [OF h(1) _ _ h(2)] h(1) by simp
qed

theorem get_expiry_between_calls_witness:
  "db_lookup example_str_db ''k'' =
     Some \<lparr>value_data_type = SingleValue, value_expire_time = 200, value_data = StringData ''v''\<rparr> \<and>
   sint (199 :: int64) < sint (200 :: int64) \<and> sint (200 :: int64) \<le> sint (200 :: int64) \<and>
   get_run ''k'' [GetStepAt 199, GetStepAt 200] example_str_db GetStart = Inr (example_str_db, GetDone [''''])"
proof -
  have h: "db_lookup example_str_db ''k'' =
      Some \<lparr>value_data_type = SingleValue, value_expire_time = 200, value_data = StringData ''v''\<rparr>"
    "sint (199 :: int64) < sint (200 :: int64)"
    by (simp_all add: db_set_single_value_store)
  show ?thesis using get_expiry_between_calls [OF h(1)] h by simp
qed

theorem zadd_finishes_witness:
  "3 \<le> count_list [True, False, True, False, True, False] True \<and>
   3 \<le> count_list [True, False, True, False, True, False] False \<and>
   (\<exists>h' c1 c2. zadd_run2 [True, False, True, False, True, False] (create_sorted_set_entry ''a'' (1::int))
      (create_sorted_set_entry ''b'' 2) ''k'' (zheap_empty, ZaddLookup, ZaddLookup) = (h', ZaddDone c1, ZaddDone c2))"
  using zadd_finishes [of "[True, False, True, False, True, False]"] by simp

theorem zadd_lost_update_witness:
  "zh_keys (zheap_empty :: int zheap) ''k'' = None \<and>
   entry_member (create_sorted_set_entry ''a'' (1::int)) \<noteq> entry_member (create_sorted_set_entry ''b'' (2::int)) \<and>
   (\<exists>h'. zadd_run2 [True, False, True, False, True, False] (create_sorted_set_entry ''a'' (1::int))
            (create_sorted_set_entry ''b'' 2) ''k'' (zheap_empty, ZaddLookup, ZaddLookup) =
          (h', ZaddDone 1, ZaddDone 1) \<and>
          zheap_abs h' ''k'' = Some [entry_member (create_sorted_set_entry ''b'' (2::int)) \<mapsto>
                                      entry_score (create_sorted_set_entry ''b'' (2::int))])"
proof -
  have h: "zh_keys (zheap_empty :: int zheap) ''k'' = None"
    "entry_member (create_sorted_set_entry ''a'' (1::int)) \<noteq> entry_member (create_sorted_set_entry ''b'' (2::int))"
    by (simp_all add: zheap_empty_def create_sorted_set_entry_def)
  show ?thesis using h zadd_lost_update [OF h] by blast
qed

theorem rank_race_breaks_order_witness:
  "ss_inv (snd (ss_add ''a'' (1::int) create_sorted_set)) \<and> \<not> is_sorted (snd (ss_add ''a'' (1::int) create_sorted_set)) \<and>
   entries (snd (ss_add ''a'' (1::int) create_sorted_set)) ''a'' \<noteq> None \<and>
   entries (snd (ss_add ''a'' (1::int) create_sorted_set)) (entry_member (create_sorted_set_entry ''b'' (0::int))) = None \<and>
   ss_len (snd (ss_add ''a'' (1::int) create_sorted_set)) < 2 ^ 64 \<and>
   (\<exists>s' r. rank_run ''a'' [RankStep, OtherAddEntry (create_sorted_set_entry ''b'' (0::int)), RankStep, RankStep]
              (snd (ss_add ''a'' (1::int) create_sorted_set)) RankStart = (s', RankDone r) \<and>
            is_sorted s' \<and> \<not> ss_inv s' \<and>
            ss_abs s' = (ss_abs (snd (ss_add ''a'' (1::int) create_sorted_set)))
              (entry_member (create_sorted_set_entry ''b'' (0::int)) \<mapsto> entry_score (create_sorted_set_entry ''b'' (0::int))))"
proof -
  have h: "ss_inv (snd (ss_add ''a'' (1::int) create_sorted_set))"
    "\<not> is_sorted (snd (ss_add ''a'' (1::int) create_sorted_set))"
    "entries (snd (ss_add ''a'' (1::int) create_sorted_set)) ''a'' \<noteq> None"
    "entries (snd (ss_add ''a'' (1::int) create_sorted_set)) (entry_member (create_sorted_set_entry ''b'' (0::int))) = None"
    "ss_len (snd (ss_add ''a'' (1::int) create_sorted_set)) < 2 ^ 64"
    by (auto simp: ss_add_def create_sorted_set_def create_sorted_set_entry_def ss_inv_def ss_len_def)
  show ?thesis using h rank_race_breaks_order [OF h] by blast
qed

end
