(* ===== verification/DatabaseTests.thy ===== *)
theory DatabaseTests
  imports Database "HOL-Library.Multiset"
begin

text \<open>
  The tests of \<open>src/source/database/db_test.go\<close>, run on the model. Each test is a
  definition that returns what the test decides (\<open>Inr True\<close> when it does not call
  \<open>test.Fail\<close>), or the panic that would abort it.
  \<^item> \<open>TestDatabaseRace\<close> starts one goroutine per iteration, each calling
    \<open>IncrementSingleValue\<close>, which holds the database's write lock for its whole body: the
    goroutines' increments are atomic steps, and a run of the test is the order in which
    they take the lock, a schedule \<open>sched\<close> with \<open>mset sched = mset [0..<n]\<close>
    (\<open>race_run\<close>).
  \<^item> \<open>TestExpireTime\<close> stores a key expiring at \<open>t0 + 5\<close> and asks \<open>Has\<close> at a later clock
    reading \<open>t1\<close> (\<open>time.Sleep\<close> is the distance between the two readings).
  \<^item> \<open>TestSortedSets\<close> adds five members (\<open>add_all\<close>) and reads them back with \<open>Get\<close>, one call
    per field read, as the Go condition does (\<open>test_check_entries\<close>; a \<open>nil\<close> entry panics).
    Scores are the model's linearly ordered score type (here \<open>int\<close>).
\<close>

abbreviation race_value :: "int64 \<Rightarrow> 's db_value" where
  "race_value w \<equiv> \<lparr>value_data_type = SingleValue, value_expire_time = 0, value_data = StringData (format_int w)\<rparr>"

text \<open>The goroutines of \<open>TestDatabaseRace\<close> in the order they take the lock.\<close>

fun race_run :: "nat list \<Rightarrow> 's database \<Rightarrow> 's database go" where
  "race_run [] db = Inr db"
| "race_run (g # gs) db =
     (case db_increment_single_value ''raceTest'' db of
        Inl p \<Rightarrow> Inl p
      | Inr (_, db') \<Rightarrow> race_run gs db')"

definition test_database_race :: "int64 \<Rightarrow> string \<Rightarrow> nat list \<Rightarrow> bool go" where
  "test_database_race now expected sched =
     (case race_run sched (db_set_single_value ''raceTest'' ''0'' 0 (db_create :: unit database)) of
        Inl p \<Rightarrow> Inl p
      | Inr db \<Rightarrow>
          (case db_get_single_value now db ''raceTest'' of
             Inl p \<Rightarrow> Inl p
           | Inr v \<Rightarrow> Inr (v = expected)))"

definition test_expire_time :: "int64 \<Rightarrow> int64 \<Rightarrow> bool" where
  "test_expire_time t0 t1 =
     (\<not> db_has t1 (db_set_single_value ''expireTest'' ''0'' (t0 + 5) (db_create :: unit database)) ''expireTest'')"

text \<open>The \<open>Add\<close> calls of \<open>TestSortedSets\<close>, in order.\<close>

fun add_all :: "(string \<times> 's) list \<Rightarrow> 's sorted_set \<Rightarrow> 's sorted_set" where
  "add_all [] s = s"
| "add_all ((m, sc) # ms) s = add_all ms (snd (ss_add m sc s))"

fun test_check_entries :: "(string \<times> 's) list \<Rightarrow> nat \<Rightarrow> 's::linorder sorted_set \<Rightarrow> bool go" where
  "test_check_entries [] i s = Inr True"
| "test_check_entries ((m, sc) # es) i s =
     (case ss_get (int i) s of
        Inl p \<Rightarrow> Inl p
      | Inr (None, _) \<Rightarrow> Inl NilDereferencePanic
      | Inr (Some e, s1) \<Rightarrow>
          (if entry_member e \<noteq> m then Inr False
           else (case ss_get (int i) s1 of
                   Inl p \<Rightarrow> Inl p
                 | Inr (None, _) \<Rightarrow> Inl NilDereferencePanic
                 | Inr (Some e', s2) \<Rightarrow> (if entry_score e' \<noteq> sc then Inr False else test_check_entries es (Suc i) s2))))"

definition test_sorted_sets_expected :: "(string \<times> int) list" where
  "test_sorted_sets_expected = [(''one'', 1), (''two'', 2), (''three'', 3), (''four'', 4), (''five'', 5)]"

definition test_sorted_sets_adds :: "(string \<times> int) list" where
  "test_sorted_sets_adds = [(''one'', 1), (''three'', 3), (''five'', 5), (''four'', 4), (''two'', 2)]"

definition test_sorted_sets :: "(string \<times> int) list \<Rightarrow> bool go" where
  "test_sorted_sets adds = test_check_entries test_sorted_sets_expected 0 (add_all adds create_sorted_set)"

subsection \<open>Lemmas\<close>

lemma incr_race_value:
  "db_lookup db ''raceTest'' = Some (race_value w) \<Longrightarrow>
   db_increment_single_value ''raceTest'' db = Inr ((w + 1, True), db_store ''raceTest'' (race_value (w + 1)) db)"
  by (simp add: db_increment_single_value_def incr_value_def value_set_def)

lemma race_run_count:
  "db_lookup db ''raceTest'' = Some (race_value w) \<Longrightarrow>
   race_run gs db = Inr (db_store ''raceTest'' (race_value (w + word_of_nat (length gs))) db)"
proof (induction gs arbitrary: w db)
  case Nil
  then show ?case by (simp add: db_store_same)
next
  case (Cons g gs)
  have "db_lookup (db_store ''raceTest'' (race_value (w + 1)) db) ''raceTest'' = Some (race_value (w + 1))"
    by simp
  from Cons.IH [OF this] show ?case
    by (simp add: incr_race_value [OF Cons.prems] algebra_simps)
qed

lemma test_database_race_eq:
  "test_database_race now expected sched = Inr (format_int (word_of_nat (length sched)) = expected)"
proof -
  have "db_lookup (db_set_single_value ''raceTest'' ''0'' 0 (db_create :: unit database)) ''raceTest'' = Some (race_value 0)"
    by (simp add: db_set_single_value_def db_lookup_def db_create_def db_store_def)
  from race_run_count [OF this, of sched] show ?thesis
    by (simp add: test_database_race_def db_get_single_value_def)
qed

lemma test_expire_time_eq: "test_expire_time t0 t1 \<longleftrightarrow> t0 + 5 \<noteq> 0 \<and> sint (t0 + 5) \<le> sint t1"
  by (auto simp: test_expire_time_def db_has_def is_live_def db_set_single_value_def db_lookup_def
      db_create_def db_store_def)

lemma add_all_inv: "ss_inv s \<Longrightarrow> ss_inv (add_all ms s)"
  by (induction ms arbitrary: s) (auto simp: ss_add_inv)

lemma add_all_abs: "ss_abs (add_all ms s) = ss_abs s ++ map_of (rev ms)"
proof (induction ms arbitrary: s)
  case Nil
  then show ?case by simp
next
  case (Cons x ms)
  obtain m sc where x: "x = (m, sc)" by fastforce
  have "ss_abs (snd (ss_add m sc s)) = (ss_abs s)(m \<mapsto> sc)"
    by (auto simp: ss_add_def ss_abs_def fun_eq_iff split: option.splits)
  then show ?case using Cons.IH [of "snd (ss_add m sc s)"] x
    by (auto simp: map_add_def fun_eq_iff split: option.splits)
qed

lemma ss_abs_create [simp]: "ss_abs create_sorted_set = Map.empty"
  by (simp add: ss_abs_def create_sorted_set_def)

lemma ranking_map_of:
  assumes "distinct (map fst xs)" "sorted (map (\<lambda>(m, sc). (sc, m)) xs)"
  shows "ranking (map_of xs) = map (\<lambda>(m, sc). (sc, m)) xs"
proof -
  define ys where "ys = map (\<lambda>(m, sc). (sc, m)) xs"
  have "{(sc, m). map_of xs m = Some sc} = set ys"
    using assms(1) unfolding ys_def by (auto dest: map_of_SomeD intro: map_of_is_SomeI)
  moreover have "distinct ys"
    using assms(1) unfolding ys_def by (induction xs) (auto simp: image_iff)
  moreover have "sorted ys" using assms(2) by (simp add: ys_def)
  ultimately have "ranking (map_of xs) = ys"
    unfolding ranking_def by (simp only: sorted_list_of_set_sort_remdups distinct_remdups_id sorted_sort_id)
  then show ?thesis by (simp add: ys_def)
qed

lemma test_check_entries_ranking:
  "ss_inv s \<Longrightarrow> drop i (ranking (ss_abs s)) = map (\<lambda>(m, sc). (sc, m)) es \<Longrightarrow> test_check_entries es i s = Inr True"
proof (induction es arbitrary: i s)
  case Nil
  then show ?case by simp
next
  case (Cons x es)
  obtain m sc where x: "x = (m, sc)" by fastforce
  have len: "i < ss_len s"
    using Cons.prems ss_len_ranking [OF Cons.prems(1)] by (metis drop_eq_Nil leI list.simps(3) list.simps(9))
  have at: "ranking (ss_abs s) ! i = (sc, m)" and rest: "drop (Suc i) (ranking (ss_abs s)) = map (\<lambda>(m, sc). (sc, m)) es"
    using Cons.prems(2) len ss_len_ranking [OF Cons.prems(1)] x
    by (simp_all add: Cons_nth_drop_Suc [symmetric])
  obtain e s1 where g1: "ss_get (int i) s = Inr (Some e, s1)" "ranking (ss_abs s) ! i = (entry_score e, entry_member e)"
    "ss_inv s1" "ss_abs s1 = ss_abs s"
    using ss_get_nth [OF Cons.prems(1), of "int i"] len by auto
  obtain e' s2 where g2: "ss_get (int i) s1 = Inr (Some e', s2)" "ranking (ss_abs s1) ! i = (entry_score e', entry_member e')"
    "ss_inv s2" "ss_abs s2 = ss_abs s1"
    using ss_get_nth [OF g1(3), of "int i"] len ss_len_ranking [OF Cons.prems(1)] ss_len_ranking [OF g1(3)] g1(4)
    by auto
  have "test_check_entries es (Suc i) s2 = Inr True"
    using Cons.IH [OF g2(3)] rest g1(4) g2(4) by simp
  then show ?case using x g1 g2 at by simp
qed

lemma test_check_entries_any_order:
  assumes "distinct (map fst expected)" "sorted (map (\<lambda>(m, sc). (sc, m)) expected)" "mset adds = mset expected"
  shows "test_check_entries expected 0 (add_all adds create_sorted_set) = Inr True"
proof -
  have d: "distinct (map fst adds)"
  proof -
    have h: "mset (map fst adds) = mset (map fst expected)" by (simp add: assms(3))
    show ?thesis using mset_eq_imp_distinct_iff [OF h] assms(1) by blast
  qed
  have "set adds = set expected" by (rule mset_eq_setD [OF assms(3)])
  then have "map_of adds = map_of expected"
    using map_of_inject_set [OF d assms(1)] by blast
  then have "ss_abs (add_all adds create_sorted_set) = map_of expected"
    using d by (simp add: add_all_abs map_of_rev_distinct)
  then show ?thesis
    using test_check_entries_ranking [OF add_all_inv [OF ss_inv_create, of adds], of 0 expected]
      ranking_map_of [OF assms(1,2)]
    by simp
qed

lemma format_int_million: "format_int (1000000 :: int64) = ''1000000''"
proof -
  have "nat_digits 1000000 = ''1000000''" by (simp add: nat_digits_eval)
  then show ?thesis using format_int_of_nat [of 1000000] by simp
qed

lemma format_int_two_pow_63: "format_int (9223372036854775808 :: int64) = ''-9223372036854775808''"
proof -
  have "sint (9223372036854775808 :: int64) = - (2 ^ 63)" by simp
  moreover have "nat_digits 9223372036854775808 = ''9223372036854775808''" by (simp add: nat_digits_eval)
  ultimately show ?thesis by (simp add: format_int_def int_digits_def)
qed

subsection \<open>The tests pass on the model\<close>

text \<open>C20: \<open>TestDatabaseRace\<close> passes for every order in which its million
  goroutines take the database lock: the locked increments commute, and the counter reads
  \<open>1000000\<close>.\<close>

theorem test_database_race_passes:
  assumes "mset sched = mset [0..<1000000]"
  shows "test_database_race now ''1000000'' sched = Inr True"
proof -
  have "length sched = 1000000" using mset_eq_length [OF assms] by simp
  then show ?thesis by (simp add: test_database_race_eq format_int_million)
qed

text \<open>C32: the counter is an int64: with \<open>2^63\<close> goroutines the last increment
  wraps, the counter reads \<open>-9223372036854775808\<close>, and the test comparing it with
  \<open>9223372036854775808\<close> fails.\<close>

theorem test_database_race_wraps:
  assumes "mset sched = mset [0..<2 ^ 63]"
  shows "test_database_race now ''9223372036854775808'' sched = Inr False"
proof -
  have "length sched = 2 ^ 63" using mset_eq_length [OF assms] by simp
  then show ?thesis by (simp add: test_database_race_eq format_int_two_pow_63)
qed

text \<open>\<open>TestExpireTime\<close> passes exactly when the expiry \<open>t0 + 5\<close> is not the
  int64 0 (which means never expires) and the second clock reading is at or past it: the
  key is dead already at \<open>t0 + 5\<close>, since liveness is \<open>expireTime > now\<close>.\<close>

theorem test_expire_time_iff: "test_expire_time t0 t1 \<longleftrightarrow> t0 + 5 \<noteq> 0 \<and> sint (t0 + 5) \<le> sint t1"
  by (rule test_expire_time_eq)

text \<open>C21: \<open>TestSortedSets\<close> passes whatever the order of its \<open>Add\<close> calls: for
  members with distinct names listed by score (then name), adding them in any order and
  reading \<open>Get(0)\<close>, \<open>Get(1)\<close>, ... returns them in that order with their scores.\<close>

theorem test_sorted_sets_any_order:
  assumes "distinct (map fst expected)" "sorted (map (\<lambda>(m, sc). (sc, m)) expected)" "mset adds = mset expected"
  shows "test_check_entries expected 0 (add_all adds create_sorted_set) = Inr True"
  using assms by (rule test_check_entries_any_order)

subsection \<open>Witnesses\<close>

theorem test_database_race_passes_witness:
  "mset [0..<1000000] = mset [0..<1000000] \<and> test_database_race 0 ''1000000'' [0..<1000000] = Inr True"
  by (rule conjI [OF refl test_database_race_passes [OF refl]])

theorem test_database_race_wraps_witness:
  "mset [0..<2 ^ 63] = mset [0..<2 ^ 63] \<and> test_database_race 0 ''9223372036854775808'' [0..<2 ^ 63] = Inr False"
  by (rule conjI [OF refl test_database_race_wraps [OF refl]])

theorem test_sorted_sets_any_order_witness:
  "distinct (map fst test_sorted_sets_expected) \<and> sorted (map (\<lambda>(m, sc). (sc, m)) test_sorted_sets_expected) \<and>
   mset test_sorted_sets_adds = mset test_sorted_sets_expected \<and> test_sorted_sets test_sorted_sets_adds = Inr True"
proof -
  have h: "distinct (map fst test_sorted_sets_expected)" "sorted (map (\<lambda>(m, sc). (sc, m)) test_sorted_sets_expected)"
    "mset test_sorted_sets_adds = mset test_sorted_sets_expected"
    by (simp_all add: test_sorted_sets_expected_def test_sorted_sets_adds_def add_mset_commute)
  show ?thesis using test_sorted_sets_any_order [OF h] h by (simp add: test_sorted_sets_def)
qed

end
