(* ===== verification/Spec2Isabelle.thy ===== *)
theory Spec2Isabelle
  imports Shell Concurrency DatabaseTests
begin

text \<open>
  \<^bold>\<open>A verification development for arc, an in-memory key/value store with a Redis-like
  command language (Go, \<open>src/source\<close>).\<close>

  \<^bold>\<open>The program.\<close> A command line (from the interactive shell of \<open>arc.go\<close> or the HTTP
  front-end of \<open>server/\<close>) goes to \<open>Runtime.Execute\<close> (\<open>vm/runtime.go\<close>), which tokenizes it
  (\<open>parseCommand\<close>), looks the handler up in a cache keyed by upper-cased command name and
  parameter count (\<open>getFunctionKey\<close>, \<open>createLibraryCache\<close>) and calls one of the handlers
  of \<open>vm/stdlib.go\<close> (SET, GET, DEL, DBSIZE, INCR, ZADD, ZCARD, ZRANK, ZRANGE). The handlers
  call the keyspace \<open>Database\<close> (\<open>database/db.go\<close>), whose values (\<open>database/value.go\<close>)
  are strings or sorted sets (\<open>database/set.go\<close>) with an expiry time.

  \<^bold>\<open>The theories\<close>, leaf first:
  \<^item> \<open>Prelude\<close>: int64 as \<open>64 word\<close>, Go run-time panics as the datatype \<open>go_panic\<close>
    (a fallible operation returns \<open>go_panic + 'a\<close>), and models of the library functions
    the code calls: \<open>strconv.ParseInt\<close> (\<open>parse_int\<close>), \<open>strconv.FormatInt\<close>
    (\<open>format_int\<close>), \<open>strings.ToUpper\<close> (\<open>to_upper\<close>), with the round trip
    \<open>parse_int (format_int w) = Some w\<close>.
  \<^item> \<open>SortedSet\<close> (\<open>set.go\<close>): the record \<open>sorted_set\<close> (slice, entry map, sorted flag),
    \<open>ss_add\<close>, \<open>ss_add_entry\<close>, \<open>ss_len\<close>, \<open>ss_less\<close>, \<open>ss_check_sort\<close>, \<open>ss_get\<close>,
    \<open>ss_get_rank\<close>, \<open>ss_swap\<close> (Swap, and \<open>ss_swaps\<close> for the Swap calls of \<open>sort.Sort\<close>); the invariant \<open>ss_inv\<close>, the abstraction \<open>ss_abs\<close> to a map from members
    to scores and the abstract \<open>ranking\<close>. Proved: invariant preservation, refinement of
    Add/AddEntry by a map update, the slice after checkSort is the ranking, Get and
    GetRank read the ranking, \<open>rank(Get(i).member) = i\<close>, and any sequence of Swap calls
    that leaves the slice sorted under Less (any correct \<open>sort.Sort\<close>) gives the model's order.
  \<^item> \<open>Value\<close> (\<open>value.go\<close>): the record \<open>db_value\<close> with tag, expiry and payload, and
    \<open>value_wf\<close> (tag agrees with payload).
  \<^item> \<open>Database\<close> (\<open>db.go\<close>): the keyspace as a distinct-key association list; every
    operation of \<open>Database\<close> with the liveness tests exactly as written. Proved: the
    invariant \<open>db_inv\<close> is kept by every write; the full behaviour of
    \<open>IncrementSingleValue\<close> on every branch, its int64 wrap-around and its indifference
    to expiry; the panics caused by the mixed precedence of the typed getters; the no-op
    of \<open>Database.Set\<close> on a present key; \<open>Size\<close> counts live keys.

  \<^item> \<open>Stdlib\<close> (\<open>vm/stdlib.go\<close>, result constants of \<open>vm/vm.go\<close>): one definition per
    handler (\<open>std_set\<close>, \<open>std_set_ex\<close>, \<open>std_get\<close>, \<open>std_del\<close>, \<open>std_db_size\<close>, \<open>std_incr\<close>,
    \<open>std_zadd\<close>, \<open>std_zcard\<close>, \<open>std_zrank\<close>, \<open>std_zrange\<close>) of type \<open>'s handler\<close>: the
    environment (clock reading and \<open>strconv.ParseFloat\<close>, the record \<open>env\<close>), the database
    and the parameters give the answer and the new database or a panic. Loops are
    structural recursions (\<open>del_loop\<close>, \<open>parse_entries\<close>, \<open>add_entries\<close>, \<open>zrange_loop\<close>,
    which runs the \<open>stop - start + 1\<close> iterations of the Go loop). The Go loop itself,
    whose \<open>index++\<close> wraps over int64, is \<open>zrange_while\<close>, a \<open>partial_function (option)\<close>
    whose \<open>None\<close> would be a loop that never ends; it is proved to end on every input and
    to equal \<open>zrange_loop\<close> whenever \<open>stop\<close> is below the largest int64, which the
    clamping of \<open>zrange_range\<close> guarantees. A set reached through
    the \<open>*SortedSet\<close> pointer and mutated is written back into its value
    (\<open>db_write_set\<close>). Proved: SET/GET round trip, the exact expiry boundary of SET EX,
    DEL counts and is idempotent, INCR sequences, ZADD against the abstract map update
    (\<open>add_scores\<close>) and its creation of the key before validation, ZRANGE against the
    spec's interval (\<open>spec_zrange\<close>) and its panic on a negative slice length, ZRANK
    against the ranking, and the type-assertion panics of GET and ZCARD.
  \<^item> \<open>Parser\<close> (\<open>parseCommand\<close> of \<open>vm/runtime.go\<close>): the loop variables as the record
    \<open>parse_state\<close>, one iteration as \<open>parse_step\<close> (\<open>None\<close> for \<open>return nil\<close>), the loop as
    \<open>parse_loop\<close> over the line with the appended space, \<open>parse_command\<close> with the final
    test. Proved: any backslash makes the line invalid (the escape flag is never reset);
    blank lines are invalid; round trips with the printers \<open>print_plain\<close> (plain tokens)
    and \<open>print_quoted\<close> (quoted parameters); identifiers are non-empty and upper-case.
  \<^item> \<open>Runtime\<close> (\<open>vm/runtime.go\<close>, \<open>vm/vm.go\<close>): \<open>standard_library\<close>, \<open>get_function_key\<close>,
    \<open>create_library_cache\<close> (a fold of map updates), the record \<open>runtime\<close>, \<open>execute\<close>, and
    \<open>execute_lines\<close> for the command loop of \<open>arc.go\<close>; the inductive \<open>reachable\<close> collects
    the runtimes produced from a fresh one by executed lines. Proved: the cache maps
    exactly ten keys; DEL and ZADD with parameters are unknown commands; by rule
    induction, every reachable database is well formed and holds strings only, so the
    sorted-set commands are inert; SET/GET through the whole pipeline; the spec's
    scenarios 1 to 4 evaluated (\<open>code_simp\<close>) on the model.

  \<^item> \<open>Server\<close> (\<open>server/rest.go\<close>, \<open>server/http.go\<close>): the REST translator
    (\<open>db_builder\<close>, \<open>values_builder\<close>, \<open>sets_builder\<close>, \<open>valid_requests\<close>,
    \<open>build_command_line_from_rest\<close>) over the record \<open>http_request\<close>, whose query is a
    list in Go's (random) map-iteration order, and \<open>serve_http\<close>, the status decision of
    \<open>ServeHTTP\<close>. Proved: the PUT/GET round trip over HTTP; DELETE is an unknown command;
    the translation of a range query does not depend on the iteration order; a body with
    a backslash yields an invalid command line; an empty result is sent with status 200;
    \<open>?cmd=\<close> passes the line through.

  \<^item> \<open>Shell\<close> (\<open>arc.go\<close>): \<open>arc_main\<close> (the choice of mode from the arguments),
    \<open>run_standalone\<close> and \<open>run_client\<close> (the loop of \<open>runClient\<close> in both modes, with
    EXIT, HELP and the printed lines; client mode sends \<open>GET /?cmd=line\<close> to
    \<open>serve_http\<close>). Proved: a simulation showing that both modes print the same and end
    in the same runtime for sessions without panics, empty lines or empty outputs; the
    empty line on which they differ; \<open>main\<close>'s treatment of arguments. The whole program
    is \<open>arc_program\<close>: \<open>main\<close> composed with \<open>printUsage\<close> (\<open>usage_lines\<close>), \<open>runServer\<close>
    (\<open>run_server\<close>: a fresh runtime behind \<open>Server.Run\<close>, which is \<open>server_run\<close> of the
    theory \<open>Server\<close>, serving a sequence of requests one after another) and \<open>runClient\<close>
    (\<open>run_client_mode\<close>). Proved, across Shell, Server and Runtime: a server started by
    \<open>arc server\<close> answers every request once, stays in the reachable (string-only)
    runtimes, and drops a connection only on a type-assertion panic; client and standalone
    sessions stay reachable, and only the standalone shell can crash, on that panic alone.
  \<^item> \<open>Concurrency\<close>: the handlers that make several locked store calls, split into their
    atomic steps (\<open>get_step\<close> for stdGet, \<open>zadd_step\<close> for stdZadd over a heap of set
    references \<open>zheap\<close>, \<open>rank_step\<close> for the unlocked \<open>checkSort\<close> of GetRank) and run
    under explicit schedules against other handlers' atomic steps. Proved: each step
    model composes to the atomic one when run alone; GET is not linearizable with DEL
    and answers the empty string when the key expires between its two clock readings;
    two ZADDs of different members creating one absent key, in any heap, lose an update
    that both serial orders keep; an AddEntry of a new member inside GetRank's unlocked
    re-sort breaks the invariant of any valid unsorted set. (That every schedule giving
    both ZADDs three steps finishes both is only a check of the step model: locks are
    not modelled, so no step can wait.)
  \<^item> \<open>DatabaseTests\<close> (\<open>database/db_test.go\<close>): the three Go tests as definitions over the
    store and sorted-set models (\<open>test_database_race\<close> with its goroutines as a schedule of
    locked increments, \<open>test_expire_time\<close>, \<open>test_sorted_sets\<close>). Proved: the race test
    passes for every order of its million goroutines, and fails by int64 wrap-around
    with \<open>2^63\<close> of them; the expiry test passes exactly when the expiry is not the
    int64 0 and the second clock reading is at or past it; the sorted-set test passes for
    every order of its \<open>Add\<close> calls, indeed for any members listed by score.

  \<^bold>\<open>Bounds.\<close> No fuel is needed: every loop of the code is bounded by a list (the line,
  the parameters, the entries) or by the slice length, and is a structural recursion;
  the one loop whose bound is not evident, ZRANGE's wrapping int64 index, is modelled as
  it is written (\<open>zrange_while\<close>) and its termination is a theorem.
  int64 values are \<open>64 word\<close>: INCR wraps, SET EX adds with wrap-around, ZRANGE computes
  its indices in int64 (the claims about ZRANGE assume fewer than \<open>2^63\<close> members).

  \<^bold>\<open>Not modelled\<close>: reading standard input, the prompt and the log output of
  \<open>arc.go\<close>; the socket listener of \<open>Server.Run\<close> (its requests are a given sequence, and
  the panic recovery of \<open>net/http\<close> keeps the runtime, which is exact for the reachable
  runtimes, \<open>Runtime.reachable_panics_typed\<close>), the transport between client and server
  and URL encoding (taken as a round trip); the request id of \<open>ServeHTTP\<close>; the locks
  themselves (each locked call is one atomic step, and interleavings are explicit
  schedules of those steps); float parsing (\<open>strconv.ParseFloat\<close> is a parameter of the
  handlers, over any linearly ordered score type), hence NaN scores; \<open>time.Sleep\<close> and
  \<open>sync.WaitGroup\<close> of the tests (the clock readings are parameters, and \<open>Wait\<close> is the
  end of the schedule).
\<close>

end
